theory Spec2Isabelle
  imports Main "HOL-Library.Word"
begin

unbundle bit_operations_syntax

section \<open>The B-tree cursor (src/btree\_cursor.cc)\<close>

subsection \<open>Machine types, status codes and flag bits\<close>

text \<open>
  The headers that declare the integer types, the status codes and the flag bits are not
  among the sources. A status is a C \<open>int\<close> with \<open>0\<close> for success; sizes, indices and
  flag words are 32-bit unsigned, record ids and page addresses 64-bit unsigned. Pointers
  to \<open>Cursor\<close> objects are natural numbers, pointers to pages are the pages' addresses; in
  both cases \<open>0\<close> is the null pointer.
\<close>

type_synonym ham_status_t = int
type_synonym ham_bool_t = int
type_synonym ham_u32_t = "32 word"
type_synonym ham_size_t = "32 word"
type_synonym ham_u64_t = "64 word"
type_synonym ham_offset_t = "64 word"
type_synonym cursor_ptr = nat
type_synonym page_ptr = "64 word"
type_synonym ham_key_t = "8 word list"
type_synonym key_entry_ptr = "page_ptr \<times> ham_size_t"

text \<open>
  Modelled from the spec: the status codes of section 6 (\<open>SUCCESS (0)\<close>, \<open>KEY_NOT_FOUND\<close>,
  \<open>CURSOR_IS_NIL\<close>, \<open>OUT_OF_MEMORY\<close>, \<open>NOT_INITIALIZED\<close>), declared in a header that is
  missing. Only that they are nonzero and pairwise different is ever used.
\<close>

definition HAM_SUCCESS :: ham_status_t where "HAM_SUCCESS = 0"
definition HAM_OUT_OF_MEMORY :: ham_status_t where "HAM_OUT_OF_MEMORY = - 6"
definition HAM_NOT_INITIALIZED :: ham_status_t where "HAM_NOT_INITIALIZED = - 7"
definition HAM_KEY_NOT_FOUND :: ham_status_t where "HAM_KEY_NOT_FOUND = - 11"
definition HAM_CURSOR_IS_NIL :: ham_status_t where "HAM_CURSOR_IS_NIL = - 100"

text \<open>
  Modelled from the spec: the flag bits named in sections 3, 4 and 6, declared in headers
  that are missing. Each flag is one bit; flags of the same word are different bits.
\<close>

definition BTREE_CURSOR_FLAG_COUPLED :: ham_u32_t where "BTREE_CURSOR_FLAG_COUPLED = 1"
definition BTREE_CURSOR_FLAG_UNCOUPLED :: ham_u32_t where "BTREE_CURSOR_FLAG_UNCOUPLED = 2"
definition BTREE_CURSOR_UNCOUPLE_NO_REMOVE :: ham_u32_t where "BTREE_CURSOR_UNCOUPLE_NO_REMOVE = 1"

definition HAM_OVERWRITE :: ham_u32_t where "HAM_OVERWRITE = 1"
definition HAM_CURSOR_FIRST :: ham_u32_t where "HAM_CURSOR_FIRST = 1"
definition HAM_CURSOR_LAST :: ham_u32_t where "HAM_CURSOR_LAST = 2"
definition HAM_CURSOR_NEXT :: ham_u32_t where "HAM_CURSOR_NEXT = 4"
definition HAM_CURSOR_PREVIOUS :: ham_u32_t where "HAM_CURSOR_PREVIOUS = 8"
definition HAM_SKIP_DUPLICATES :: ham_u32_t where "HAM_SKIP_DUPLICATES = 16"
definition HAM_ONLY_DUPLICATES :: ham_u32_t where "HAM_ONLY_DUPLICATES = 32"

definition KEY_BLOB_SIZE_TINY :: ham_u32_t where "KEY_BLOB_SIZE_TINY = 1"
definition KEY_BLOB_SIZE_SMALL :: ham_u32_t where "KEY_BLOB_SIZE_SMALL = 2"
definition KEY_BLOB_SIZE_EMPTY :: ham_u32_t where "KEY_BLOB_SIZE_EMPTY = 4"
definition KEY_HAS_DUPLICATES :: ham_u32_t where "KEY_HAS_DUPLICATES = 16"

text \<open>\<open>sizeof(ham_offset_t)\<close>: a 64-bit offset has eight bytes.\<close>

definition sizeof_ham_offset_t :: nat where "sizeof_ham_offset_t = 8"

subsection \<open>Data model\<close>

text \<open>An entry of a duplicate table: \<open>dupe_entry_get_flags\<close> and \<open>dupe_entry_get_rid\<close>.\<close>

record dupe_entry_t =
  dupe_flags :: ham_u32_t
  dupe_rid :: ham_u64_t

text \<open>\<open>memset(e, 0, sizeof(dupe_entry_t))\<close>\<close>

definition dupe_entry_zero :: dupe_entry_t where
  "dupe_entry_zero = \<lparr>dupe_flags = 0, dupe_rid = 0\<rparr>"

text \<open>A key entry of a node: \<open>key_get_flags\<close>, \<open>key_get_ptr\<close> and the key's bytes.\<close>

record btree_key_t =
  key_flags :: ham_u32_t
  key_ptr :: ham_u64_t
  key_bytes :: ham_key_t

text \<open>
  A node, read through the accessors \<open>btree_node_get_count\<close>, \<open>btree_node_is_leaf\<close>,
  \<open>btree_node_get_ptr_left\<close>, \<open>btree_node_get_left\<close>, \<open>btree_node_get_right\<close> and
  \<open>btree_node_get_key(db, node, i)\<close>. The key array is page memory: every index reads
  something.
\<close>

record btree_node_t =
  node_count :: ham_size_t
  node_is_leaf :: bool
  node_ptr_left :: ham_offset_t
  node_left :: ham_offset_t
  node_right :: ham_offset_t
  node_key :: "ham_size_t \<Rightarrow> btree_key_t"

text \<open>
  A \<open>Cursor\<close> object with the \<open>btree_cursor_t\<close> it embeds (\<open>c->get_btree_cursor()\<close>); a
  pointer to the embedded structure is the pointer to its \<open>Cursor\<close>. The first three fields
  are the \<open>Cursor\<close>'s own (\<open>get_next_in_page\<close>, \<open>get_previous_in_page\<close>,
  \<open>is_coupled_to_txnop\<close>), the fields \<open>bc_...\<close> are those behind the macros
  \<open>btree_cursor_get_...\<close>. A null \<open>uncoupled_key\<close> pointer is \<open>None\<close>.
\<close>

record Cursor =
  next_in_page :: cursor_ptr
  previous_in_page :: cursor_ptr
  is_coupled_to_txnop :: bool
  bc_parent :: cursor_ptr
  bc_flags :: ham_u32_t
  bc_coupled_page :: page_ptr
  bc_coupled_index :: ham_size_t
  bc_uncoupled_key :: "ham_key_t option"
  bc_dupe_id :: ham_size_t
  bc_dupe_cache :: dupe_entry_t

text \<open>
  The store: the \<open>Cursor\<close> objects by address, and for every page the head of its cursor
  list (\<open>page_get_cursors\<close>), its node (\<open>page_get_btree_node\<close>) and its dirty bit.
  \<open>alloc_count\<close> counts the calls of the allocator so far.
\<close>

record db_state =
  cursors :: "cursor_ptr \<Rightarrow> Cursor"
  page_cursors :: "page_ptr \<Rightarrow> cursor_ptr"
  page_node :: "page_ptr \<Rightarrow> btree_node_t"
  page_dirty :: "page_ptr \<Rightarrow> bool"
  alloc_count :: nat

text \<open>
  The collaborators of section 6 of the spec whose code is not among the sources enter as
  parameters: what each of them answers. \<open>backend\<close> tells whether \<open>db_get_backend(db)\<close>
  is non-null, \<open>rootpage\<close> is \<open>btree_get_rootpage(be)\<close>, \<open>fetch_page\<close> is the status of
  \<open>db_fetch_page\<close> for an address, \<open>calloc_ok n\<close> tells whether the \<open>n\<close>-th call of the
  allocator returns memory. Out parameters that a callee may write are passed in and
  returned. \<open>char_is_signed\<close> is the platform's choice for plain \<open>char\<close>.
\<close>

record extern =
  backend :: bool
  rootpage :: ham_offset_t
  fetch_page :: "ham_offset_t \<Rightarrow> ham_status_t"
  calloc_ok :: "nat \<Rightarrow> bool"
  copy_key_status :: "ham_key_t option \<Rightarrow> ham_status_t"
  int2pub_status :: "btree_key_t \<Rightarrow> ham_status_t"
  find_key :: "ham_key_t \<Rightarrow> ham_u32_t \<Rightarrow> ham_status_t \<times> page_ptr \<times> ham_size_t"
  duplicate_get :: "ham_u64_t \<Rightarrow> ham_size_t \<Rightarrow> dupe_entry_t \<Rightarrow> ham_status_t \<times> dupe_entry_t"
  duplicate_get_count ::
    "ham_u64_t \<Rightarrow> dupe_entry_t \<Rightarrow> ham_status_t \<times> ham_size_t \<times> dupe_entry_t"
  get_datasize :: "ham_u64_t \<Rightarrow> ham_offset_t \<Rightarrow> ham_status_t \<times> ham_offset_t"
  read_key :: "btree_key_t \<Rightarrow> ham_status_t"
  read_record :: "ham_u32_t \<Rightarrow> ham_u64_t \<Rightarrow> ham_u32_t \<Rightarrow> ham_status_t"
  set_record :: "btree_key_t \<Rightarrow> ham_size_t \<Rightarrow> ham_u32_t \<Rightarrow> ham_status_t \<times> btree_key_t"
  insert_cursor :: "cursor_ptr \<Rightarrow> ham_u32_t \<Rightarrow> db_state \<Rightarrow> ham_status_t \<times> db_state"
  erase_cursor ::
    "ham_key_t option \<Rightarrow> cursor_ptr \<Rightarrow> ham_u32_t \<Rightarrow> db_state \<Rightarrow> ham_status_t \<times> db_state"
  char_is_signed :: bool

subsection \<open>Accessor macros\<close>

definition upd_cursor :: "cursor_ptr \<Rightarrow> (Cursor \<Rightarrow> Cursor) \<Rightarrow> db_state \<Rightarrow> db_state" where
  "upd_cursor c f st = st\<lparr>cursors := (cursors st)(c := f (cursors st c))\<rparr>"

definition btree_cursor_get_parent :: "db_state \<Rightarrow> cursor_ptr \<Rightarrow> cursor_ptr" where
  "btree_cursor_get_parent st c = bc_parent (cursors st c)"

definition btree_cursor_get_flags :: "db_state \<Rightarrow> cursor_ptr \<Rightarrow> ham_u32_t" where
  "btree_cursor_get_flags st c = bc_flags (cursors st c)"

definition btree_cursor_get_coupled_page :: "db_state \<Rightarrow> cursor_ptr \<Rightarrow> page_ptr" where
  "btree_cursor_get_coupled_page st c = bc_coupled_page (cursors st c)"

definition btree_cursor_get_coupled_index :: "db_state \<Rightarrow> cursor_ptr \<Rightarrow> ham_size_t" where
  "btree_cursor_get_coupled_index st c = bc_coupled_index (cursors st c)"

definition btree_cursor_get_uncoupled_key :: "db_state \<Rightarrow> cursor_ptr \<Rightarrow> ham_key_t option" where
  "btree_cursor_get_uncoupled_key st c = bc_uncoupled_key (cursors st c)"

definition btree_cursor_get_dupe_id :: "db_state \<Rightarrow> cursor_ptr \<Rightarrow> ham_size_t" where
  "btree_cursor_get_dupe_id st c = bc_dupe_id (cursors st c)"

definition btree_cursor_get_dupe_cache :: "db_state \<Rightarrow> cursor_ptr \<Rightarrow> dupe_entry_t" where
  "btree_cursor_get_dupe_cache st c = bc_dupe_cache (cursors st c)"

definition btree_cursor_set_parent :: "cursor_ptr \<Rightarrow> cursor_ptr \<Rightarrow> db_state \<Rightarrow> db_state" where
  "btree_cursor_set_parent c v = upd_cursor c (\<lambda>x. x\<lparr>bc_parent := v\<rparr>)"

definition btree_cursor_set_flags :: "cursor_ptr \<Rightarrow> ham_u32_t \<Rightarrow> db_state \<Rightarrow> db_state" where
  "btree_cursor_set_flags c v = upd_cursor c (\<lambda>x. x\<lparr>bc_flags := v\<rparr>)"

definition btree_cursor_set_coupled_page :: "cursor_ptr \<Rightarrow> page_ptr \<Rightarrow> db_state \<Rightarrow> db_state" where
  "btree_cursor_set_coupled_page c v = upd_cursor c (\<lambda>x. x\<lparr>bc_coupled_page := v\<rparr>)"

definition btree_cursor_set_coupled_index :: "cursor_ptr \<Rightarrow> ham_size_t \<Rightarrow> db_state \<Rightarrow> db_state" where
  "btree_cursor_set_coupled_index c v = upd_cursor c (\<lambda>x. x\<lparr>bc_coupled_index := v\<rparr>)"

definition btree_cursor_set_uncoupled_key ::
  "cursor_ptr \<Rightarrow> ham_key_t option \<Rightarrow> db_state \<Rightarrow> db_state" where
  "btree_cursor_set_uncoupled_key c v = upd_cursor c (\<lambda>x. x\<lparr>bc_uncoupled_key := v\<rparr>)"

definition btree_cursor_set_dupe_id :: "cursor_ptr \<Rightarrow> ham_size_t \<Rightarrow> db_state \<Rightarrow> db_state" where
  "btree_cursor_set_dupe_id c v = upd_cursor c (\<lambda>x. x\<lparr>bc_dupe_id := v\<rparr>)"

definition btree_cursor_set_dupe_cache :: "cursor_ptr \<Rightarrow> dupe_entry_t \<Rightarrow> db_state \<Rightarrow> db_state" where
  "btree_cursor_set_dupe_cache c v = upd_cursor c (\<lambda>x. x\<lparr>bc_dupe_cache := v\<rparr>)"

definition set_next_in_page :: "cursor_ptr \<Rightarrow> cursor_ptr \<Rightarrow> db_state \<Rightarrow> db_state" where
  "set_next_in_page c v = upd_cursor c (\<lambda>x. x\<lparr>next_in_page := v\<rparr>)"

definition set_previous_in_page :: "cursor_ptr \<Rightarrow> cursor_ptr \<Rightarrow> db_state \<Rightarrow> db_state" where
  "set_previous_in_page c v = upd_cursor c (\<lambda>x. x\<lparr>previous_in_page := v\<rparr>)"

definition page_set_cursors :: "page_ptr \<Rightarrow> cursor_ptr \<Rightarrow> db_state \<Rightarrow> db_state" where
  "page_set_cursors page v st = st\<lparr>page_cursors := (page_cursors st)(page := v)\<rparr>"

definition page_set_dirty :: "page_ptr \<Rightarrow> db_state \<Rightarrow> db_state" where
  "page_set_dirty page st = st\<lparr>page_dirty := (page_dirty st)(page := True)\<rparr>"

text \<open>\<open>btree_cursor_is_coupled(c)\<close> and \<open>btree_cursor_is_uncoupled(c)\<close> test one flag bit.\<close>

definition btree_cursor_is_coupled :: "db_state \<Rightarrow> cursor_ptr \<Rightarrow> bool" where
  "btree_cursor_is_coupled st c =
     (btree_cursor_get_flags st c AND BTREE_CURSOR_FLAG_COUPLED \<noteq> 0)"

definition btree_cursor_is_uncoupled :: "db_state \<Rightarrow> cursor_ptr \<Rightarrow> bool" where
  "btree_cursor_is_uncoupled st c =
     (btree_cursor_get_flags st c AND BTREE_CURSOR_FLAG_UNCOUPLED \<noteq> 0)"

text \<open>The key entry a coupled cursor points at, and its address.\<close>

definition coupled_entry :: "db_state \<Rightarrow> cursor_ptr \<Rightarrow> btree_key_t" where
  "coupled_entry st c =
     node_key (page_node st (btree_cursor_get_coupled_page st c))
       (btree_cursor_get_coupled_index st c)"

subsection \<open>Collaborators whose code is not among the sources\<close>

text \<open>
  Modelled from the spec: \<open>page_add_cursor(page, cursor)\<close> of the page manager, which is
  missing; section 5 has it that each page carries a doubly linked list of the cursors
  coupled to it, with \<open>page_get_cursors\<close> its head. The cursor becomes the new head.
\<close>

definition page_add_cursor :: "page_ptr \<Rightarrow> cursor_ptr \<Rightarrow> db_state \<Rightarrow> db_state" where
  "page_add_cursor page cursor st =
     (let head = page_cursors st page;
          st1 = set_previous_in_page cursor 0 (set_next_in_page cursor head st);
          st2 = (if head \<noteq> 0 then set_previous_in_page head cursor st1 else st1)
      in page_set_cursors page cursor st2)"

text \<open>
  Modelled from the spec: \<open>page_remove_cursor(page, cursor)\<close> of the page manager, which is
  missing: the cursor is unlinked from the doubly linked list of the page (the head moves
  on when the cursor is the head), and its own links are cleared.
\<close>

definition page_remove_cursor :: "page_ptr \<Rightarrow> cursor_ptr \<Rightarrow> db_state \<Rightarrow> db_state" where
  "page_remove_cursor page cursor st =
     (let n = next_in_page (cursors st cursor);
          p = previous_in_page (cursors st cursor);
          st1 = (if cursor = page_cursors st page then
                   page_set_cursors page n
                     (if n \<noteq> 0 then set_previous_in_page n 0 st else st)
                 else
                   (let st' = (if p \<noteq> 0 then set_next_in_page p n st else st)
                    in if n \<noteq> 0 then set_previous_in_page n p st' else st'))
      in set_previous_in_page cursor 0 (set_next_in_page cursor 0 st1))"

text \<open>
  \<open>allocator_calloc\<close>: whether memory is returned is the environment's answer for this
  call; the call is counted.
\<close>

definition allocator_calloc :: "extern \<Rightarrow> db_state \<Rightarrow> bool \<times> db_state" where
  "allocator_calloc E st = (calloc_ok E (alloc_count st), st\<lparr>alloc_count := Suc (alloc_count st)\<rparr>)"

text \<open>
  Modelled from the spec: \<open>db_copy_key(db, source, dest)\<close>, which is missing: a deep copy
  of a key, with a status. A null source is outside its contract (the callers hold an
  uncoupled key); the copy is then empty and the status is the environment's answer.
\<close>

definition db_copy_key :: "extern \<Rightarrow> ham_key_t option \<Rightarrow> ham_status_t \<times> ham_key_t" where
  "db_copy_key E src = (copy_key_status E src, case src of None \<Rightarrow> [] | Some k \<Rightarrow> k)"

text \<open>
  Modelled from the spec: \<open>btree_copy_key_int2pub(db, entry, key)\<close>, which is missing: the
  external key-copy helper that copies the key of a node entry, with a status.
\<close>

definition btree_copy_key_int2pub :: "extern \<Rightarrow> btree_key_t \<Rightarrow> ham_status_t \<times> ham_key_t" where
  "btree_copy_key_int2pub E entry = (int2pub_status E entry, key_bytes entry)"

text \<open>
  \<open>blob_duplicate_get(env, table, index, entry)\<close> called on the cursor's duplicate cache:
  the blob store answers with a status and with what the cache holds afterwards.
\<close>

definition blob_duplicate_get ::
  "extern \<Rightarrow> ham_u64_t \<Rightarrow> ham_size_t \<Rightarrow> cursor_ptr \<Rightarrow> db_state \<Rightarrow> ham_status_t \<times> db_state" where
  "blob_duplicate_get E table_id idx c st =
     (case duplicate_get E table_id idx (btree_cursor_get_dupe_cache st c) of
        (s, e) \<Rightarrow> (s, btree_cursor_set_dupe_cache c e st))"

text \<open>\<open>blob_duplicate_get_count(env, table, &count, entry)\<close> on the cursor's cache.\<close>

definition blob_duplicate_get_count ::
  "extern \<Rightarrow> ham_u64_t \<Rightarrow> cursor_ptr \<Rightarrow> db_state \<Rightarrow> ham_status_t \<times> ham_size_t \<times> db_state" where
  "blob_duplicate_get_count E table_id c st =
     (case duplicate_get_count E table_id (btree_cursor_get_dupe_cache st c) of
        (s, n, e) \<Rightarrow> (s, n, btree_cursor_set_dupe_cache c e st))"

text \<open>
  Modelled from the spec: \<open>btree_find_cursor(backend, cursor, key, record, flags)\<close>, which
  is missing. Section 4.3: on success the routine has coupled the cursor to the matching
  slot with \<open>duplicate_index = 0\<close>; on failure the cursor remains NIL and the error is
  returned verbatim. Where the key is found is the answer \<open>find_key\<close> of the tree search.
\<close>

definition btree_find_cursor ::
  "extern \<Rightarrow> cursor_ptr \<Rightarrow> ham_key_t \<Rightarrow> ham_u32_t \<Rightarrow> db_state \<Rightarrow> ham_status_t \<times> db_state" where
  "btree_find_cursor E c key flags st =
     (case find_key E key flags of
        (s, page, idx) \<Rightarrow>
          if s \<noteq> 0 then (s, st)
          else
            (let st1 = page_add_cursor page (btree_cursor_get_parent st c) st;
                 st2 = btree_cursor_set_flags c
                         (btree_cursor_get_flags st1 c OR BTREE_CURSOR_FLAG_COUPLED) st1;
                 st3 = btree_cursor_set_coupled_page c page st2;
                 st4 = btree_cursor_set_coupled_index c idx st3;
                 st5 = btree_cursor_set_dupe_id c 0 st4
             in (0, st5)))"

subsection \<open>The functions of btree\_cursor.cc\<close>

text \<open>
  Every function takes the environment and the store and returns its status with the
  store it leaves. \<open>ham_assert\<close> is a debugging aid that is compiled out of a release
  build; the assertions are not branches of the functions.
\<close>

text \<open>\<open>btree_cursor_set_to_nil\<close>\<close>

definition btree_cursor_set_to_nil :: "cursor_ptr \<Rightarrow> db_state \<Rightarrow> ham_status_t \<times> db_state" where
  "btree_cursor_set_to_nil c st =
     (let st1 =
        (if btree_cursor_is_uncoupled st c then
           (let sta = btree_cursor_set_uncoupled_key c None st
            in btree_cursor_set_flags c
                 (btree_cursor_get_flags sta c AND NOT BTREE_CURSOR_FLAG_UNCOUPLED) sta)
         else if btree_cursor_is_coupled st c then
           (let sta = page_remove_cursor (btree_cursor_get_coupled_page st c)
                        (btree_cursor_get_parent st c) st
            in btree_cursor_set_flags c
                 (btree_cursor_get_flags sta c AND NOT BTREE_CURSOR_FLAG_COUPLED) sta)
         else st);
          st2 = btree_cursor_set_dupe_id c 0 st1;
          st3 = btree_cursor_set_dupe_cache c dupe_entry_zero st2
      in (0, st3))"

text \<open>\<open>btree_cursor_find\<close>; the record is handed through to the tree search.\<close>

definition btree_cursor_find ::
  "extern \<Rightarrow> cursor_ptr \<Rightarrow> ham_key_t \<Rightarrow> ham_u32_t \<Rightarrow> db_state \<Rightarrow> ham_status_t \<times> db_state" where
  "btree_cursor_find E c key flags st =
     (if \<not> backend E then (HAM_NOT_INITIALIZED, st)
      else
        (case btree_cursor_set_to_nil c st of
           (s, st1) \<Rightarrow>
             if s \<noteq> 0 then (s, st1)
             else
               (case btree_find_cursor E c key flags st1 of
                  (s2, st2) \<Rightarrow> if s2 \<noteq> 0 then (s2, st2) else (0, st2))))"

text \<open>\<open>btree_cursor_couple\<close>\<close>

definition btree_cursor_couple :: "extern \<Rightarrow> cursor_ptr \<Rightarrow> db_state \<Rightarrow> ham_status_t \<times> db_state" where
  "btree_cursor_couple E c st =
     (case db_copy_key E (btree_cursor_get_uncoupled_key st c) of
        (s, key) \<Rightarrow>
          if s \<noteq> 0 then (s, st)
          else
            (let dupe_id = btree_cursor_get_dupe_id st c
             in case btree_cursor_find E c key 0 st of
                  (s1, st1) \<Rightarrow> (s1, btree_cursor_set_dupe_id c dupe_id st1)))"

text \<open>
  The opening of the operations that need a position: an uncoupled cursor is coupled, a
  cursor that is neither coupled nor uncoupled fails with \<open>HAM_CURSOR_IS_NIL\<close>.
\<close>

definition couple_or_nil :: "extern \<Rightarrow> cursor_ptr \<Rightarrow> db_state \<Rightarrow> ham_status_t \<times> db_state" where
  "couple_or_nil E c st =
     (if btree_cursor_is_uncoupled st c then btree_cursor_couple E c st
      else if \<not> btree_cursor_is_coupled st c then (HAM_CURSOR_IS_NIL, st)
      else (0, st))"

text \<open>The four lines that couple a cursor to a slot of a fetched page.\<close>

definition couple_to_page ::
  "cursor_ptr \<Rightarrow> page_ptr \<Rightarrow> ham_size_t \<Rightarrow> db_state \<Rightarrow> db_state" where
  "couple_to_page c page idx st =
     (let st1 = page_add_cursor page (btree_cursor_get_parent st c) st;
          st2 = btree_cursor_set_coupled_page c page st1;
          st3 = btree_cursor_set_coupled_index c idx st2
      in btree_cursor_set_flags c
           (btree_cursor_get_flags st3 c OR BTREE_CURSOR_FLAG_COUPLED) st3)"

text \<open>
  The loop of \<open>__move_first\<close>: from a fetched page down the leftmost pointers to a leaf.
  It changes nothing in the store; a page graph with a cycle keeps it running.
\<close>

partial_function (option) descend_first ::
  "extern \<Rightarrow> db_state \<Rightarrow> page_ptr \<Rightarrow> (ham_status_t \<times> page_ptr) option" where
  "descend_first E st page =
     (let node = page_node st page
      in if node_count node = 0 then Some (HAM_KEY_NOT_FOUND, page)
         else if node_is_leaf node then Some (0, page)
         else if fetch_page E (node_ptr_left node) \<noteq> 0
           then Some (fetch_page E (node_ptr_left node), page)
         else descend_first E st (node_ptr_left node))"

text \<open>\<open>__move_first\<close>\<close>

definition move_first ::
  "extern \<Rightarrow> cursor_ptr \<Rightarrow> ham_u32_t \<Rightarrow> db_state \<Rightarrow> (ham_status_t \<times> db_state) option" where
  "move_first E c flags st =
     (let st1 = snd (btree_cursor_set_to_nil c st)
      in if rootpage E = 0 then Some (HAM_KEY_NOT_FOUND, st1)
         else if fetch_page E (rootpage E) \<noteq> 0 then Some (fetch_page E (rootpage E), st1)
         else
           (case descend_first E st1 (rootpage E) of
              None \<Rightarrow> None
            | Some (s, page) \<Rightarrow>
                if s \<noteq> 0 then Some (s, st1)
                else Some (0, btree_cursor_set_dupe_id c 0 (couple_to_page c page 0 st1))))"

text \<open>\<open>__move_next\<close>\<close>

definition move_next ::
  "extern \<Rightarrow> cursor_ptr \<Rightarrow> ham_u32_t \<Rightarrow> db_state \<Rightarrow> ham_status_t \<times> db_state" where
  "move_next E c flags st =
     (case couple_or_nil E c st of
        (s0, st0) \<Rightarrow>
          if s0 \<noteq> 0 then (s0, st0)
          else
            (let page = btree_cursor_get_coupled_page st0 c;
                 node = page_node st0 page;
                 entry = node_key node (btree_cursor_get_coupled_index st0 c)
             in case
                  (if key_flags entry AND KEY_HAS_DUPLICATES \<noteq> 0
                      \<and> flags AND HAM_SKIP_DUPLICATES = 0
                   then
                     (let st1 = btree_cursor_set_dupe_id c (btree_cursor_get_dupe_id st0 c + 1) st0
                      in case blob_duplicate_get E (key_ptr entry)
                                (btree_cursor_get_dupe_id st1 c) c st1 of
                           (s, st2) \<Rightarrow>
                             if s \<noteq> 0 then
                               (let st3 = btree_cursor_set_dupe_id c
                                            (btree_cursor_get_dupe_id st2 c - 1) st2
                                in if s \<noteq> HAM_KEY_NOT_FOUND then Inl (s, st3) else Inr st3)
                             else Inl (0, st2))
                   else Inr st0) of
                  Inl r \<Rightarrow> r
                | Inr st4 \<Rightarrow>
                    if flags AND HAM_ONLY_DUPLICATES \<noteq> 0 then (HAM_KEY_NOT_FOUND, st4)
                    else if btree_cursor_get_coupled_index st4 c + 1 < node_count node then
                      (let st5 = btree_cursor_set_coupled_index c
                                   (btree_cursor_get_coupled_index st4 c + 1) st4
                       in (HAM_SUCCESS, btree_cursor_set_dupe_id c 0 st5))
                    else if node_right node = 0 then (HAM_KEY_NOT_FOUND, st4)
                    else
                      (let st5 = page_remove_cursor page (btree_cursor_get_parent st4 c) st4;
                           st6 = btree_cursor_set_flags c
                                   (btree_cursor_get_flags st5 c
                                      AND NOT BTREE_CURSOR_FLAG_COUPLED) st5
                       in if fetch_page E (node_right node) \<noteq> 0
                          then (fetch_page E (node_right node), st6)
                          else (HAM_SUCCESS,
                                btree_cursor_set_dupe_id c 0
                                  (couple_to_page c (node_right node) 0 st6)))))"

text \<open>\<open>__move_previous\<close>\<close>

definition move_previous ::
  "extern \<Rightarrow> cursor_ptr \<Rightarrow> ham_u32_t \<Rightarrow> db_state \<Rightarrow> ham_status_t \<times> db_state" where
  "move_previous E c flags st =
     (case couple_or_nil E c st of
        (s0, st0) \<Rightarrow>
          if s0 \<noteq> 0 then (s0, st0)
          else
            (let page = btree_cursor_get_coupled_page st0 c;
                 node = page_node st0 page;
                 entry = node_key node (btree_cursor_get_coupled_index st0 c)
             in case
                  (if key_flags entry AND KEY_HAS_DUPLICATES \<noteq> 0
                      \<and> flags AND HAM_SKIP_DUPLICATES = 0
                      \<and> btree_cursor_get_dupe_id st0 c > 0
                   then
                     (let st1 = btree_cursor_set_dupe_id c (btree_cursor_get_dupe_id st0 c - 1) st0
                      in case blob_duplicate_get E (key_ptr entry)
                                (btree_cursor_get_dupe_id st1 c) c st1 of
                           (s, st2) \<Rightarrow>
                             if s \<noteq> 0 then
                               (let st3 = btree_cursor_set_dupe_id c
                                            (btree_cursor_get_dupe_id st2 c + 1) st2
                                in if s \<noteq> HAM_KEY_NOT_FOUND then Inl (s, st3) else Inr st3)
                             else Inl (0, st2))
                   else Inr st0) of
                  Inl r \<Rightarrow> r
                | Inr st4 \<Rightarrow>
                    if flags AND HAM_ONLY_DUPLICATES \<noteq> 0 then (HAM_KEY_NOT_FOUND, st4)
                    else
                      (case
                         (if btree_cursor_get_coupled_index st4 c \<noteq> 0 then
                            Inr (btree_cursor_set_coupled_index c
                                   (btree_cursor_get_coupled_index st4 c - 1) st4)
                          else if node_left node = 0 then Inl (HAM_KEY_NOT_FOUND, st4)
                          else
                            (let st5 = page_remove_cursor page (btree_cursor_get_parent st4 c) st4;
                                 st6 = btree_cursor_set_flags c
                                         (btree_cursor_get_flags st5 c
                                            AND NOT BTREE_CURSOR_FLAG_COUPLED) st5
                             in if fetch_page E (node_left node) \<noteq> 0
                                then Inl (fetch_page E (node_left node), st6)
                                else Inr (couple_to_page c (node_left node)
                                            (node_count (page_node st6 (node_left node)) - 1)
                                            st6))) of
                         Inl r \<Rightarrow> r
                       | Inr st7 \<Rightarrow>
                           (let entry' = coupled_entry st7 c;
                                st8 = btree_cursor_set_dupe_id c 0 st7
                            in if key_flags entry' AND KEY_HAS_DUPLICATES \<noteq> 0
                                  \<and> flags AND HAM_SKIP_DUPLICATES = 0
                               then
                                 (case blob_duplicate_get_count E (key_ptr entry') c st8 of
                                    (s, count, st9) \<Rightarrow>
                                      if s \<noteq> 0 then (s, st9)
                                      else (0, btree_cursor_set_dupe_id c (count - 1) st9))
                               else (0, st8)))))"

text \<open>
  The loop of \<open>__move_last\<close>: from a fetched page down the pointer of the last key of
  each node to a leaf.
\<close>

partial_function (option) descend_last ::
  "extern \<Rightarrow> db_state \<Rightarrow> page_ptr \<Rightarrow> (ham_status_t \<times> page_ptr) option" where
  "descend_last E st page =
     (let node = page_node st page
      in if node_count node = 0 then Some (HAM_KEY_NOT_FOUND, page)
         else if node_is_leaf node then Some (0, page)
         else
           (let key = node_key node (node_count node - 1)
            in if fetch_page E (key_ptr key) \<noteq> 0 then Some (fetch_page E (key_ptr key), page)
               else descend_last E st (key_ptr key)))"

text \<open>\<open>__move_last\<close>\<close>

definition move_last ::
  "extern \<Rightarrow> cursor_ptr \<Rightarrow> ham_u32_t \<Rightarrow> db_state \<Rightarrow> (ham_status_t \<times> db_state) option" where
  "move_last E c flags st =
     (case btree_cursor_set_to_nil c st of
        (s0, st1) \<Rightarrow>
          if s0 \<noteq> 0 then Some (s0, st1)
          else if rootpage E = 0 then Some (HAM_KEY_NOT_FOUND, st1)
          else if fetch_page E (rootpage E) \<noteq> 0 then Some (fetch_page E (rootpage E), st1)
          else
            (case descend_last E st1 (rootpage E) of
               None \<Rightarrow> None
             | Some (s, page) \<Rightarrow>
                 if s \<noteq> 0 then Some (s, st1)
                 else
                   (let st2 = couple_to_page c page (node_count (page_node st1 page) - 1) st1;
                        entry = coupled_entry st2 c;
                        st3 = btree_cursor_set_dupe_id c 0 st2
                    in if key_flags entry AND KEY_HAS_DUPLICATES \<noteq> 0
                          \<and> flags AND HAM_SKIP_DUPLICATES = 0
                       then
                         (case blob_duplicate_get_count E (key_ptr entry) c st3 of
                            (s, count, st4) \<Rightarrow>
                              if s \<noteq> 0 then Some (s, st4)
                              else Some (0, btree_cursor_set_dupe_id c (count - 1) st4))
                       else Some (0, st3))))"

text \<open>\<open>btree_cursor_is_nil\<close>\<close>

definition btree_cursor_is_nil :: "db_state \<Rightarrow> cursor_ptr \<Rightarrow> bool" where
  "btree_cursor_is_nil st cursor =
     (if btree_cursor_is_uncoupled st cursor then False
      else if btree_cursor_is_coupled st cursor then False
      else if is_coupled_to_txnop (cursors st (btree_cursor_get_parent st cursor)) then False
      else True)"

text \<open>\<open>btree_cursor_uncouple\<close>\<close>

definition btree_cursor_uncouple ::
  "extern \<Rightarrow> cursor_ptr \<Rightarrow> ham_u32_t \<Rightarrow> db_state \<Rightarrow> ham_status_t \<times> db_state" where
  "btree_cursor_uncouple E c flags st =
     (if btree_cursor_is_uncoupled st c \<or> btree_cursor_is_nil st c then (0, st)
      else
        (let entry = coupled_entry st c
         in case allocator_calloc E st of
              (got, st1) \<Rightarrow>
                if \<not> got then (HAM_OUT_OF_MEMORY, st1)
                else
                  (case btree_copy_key_int2pub E entry of
                     (s, key) \<Rightarrow>
                       if s \<noteq> 0 then (s, st1)
                       else
                         (let st2 =
                            (if flags AND BTREE_CURSOR_UNCOUPLE_NO_REMOVE = 0 then
                               page_remove_cursor (btree_cursor_get_coupled_page st1 c)
                                 (btree_cursor_get_parent st1 c) st1
                             else st1);
                              st3 = btree_cursor_set_flags c
                                      (btree_cursor_get_flags st2 c
                                         AND NOT BTREE_CURSOR_FLAG_COUPLED) st2;
                              st4 = btree_cursor_set_flags c
                                      (btree_cursor_get_flags st3 c
                                         OR BTREE_CURSOR_FLAG_UNCOUPLED) st3;
                              st5 = btree_cursor_set_uncoupled_key c (Some key) st4
                          in (0, st5)))))"

text \<open>\<open>btree_cursor_clone\<close>\<close>

definition btree_cursor_clone ::
  "extern \<Rightarrow> cursor_ptr \<Rightarrow> cursor_ptr \<Rightarrow> cursor_ptr \<Rightarrow> db_state \<Rightarrow> ham_status_t \<times> db_state" where
  "btree_cursor_clone E src dest parent st =
     (let st1 = btree_cursor_set_dupe_id dest (btree_cursor_get_dupe_id st src) st;
          st2 = btree_cursor_set_parent dest parent st1
      in if btree_cursor_is_coupled st2 src then
           (let page = btree_cursor_get_coupled_page st2 src;
                st3 = page_add_cursor page (btree_cursor_get_parent st2 dest) st2;
                st4 = btree_cursor_set_coupled_page dest page st3
            in (0, st4))
         else if btree_cursor_is_uncoupled st2 src then
           (case allocator_calloc E st2 of
              (got, st3) \<Rightarrow>
                if \<not> got then (HAM_OUT_OF_MEMORY, st3)
                else
                  (case db_copy_key E (btree_cursor_get_uncoupled_key st3 src) of
                     (s, key) \<Rightarrow>
                       if s \<noteq> 0 then (s, st3)
                       else (0, btree_cursor_set_uncoupled_key dest (Some key) st3)))
         else (0, st2))"

text \<open>
  \<open>btree_cursor_overwrite\<close>; \<open>key_set_record\<close> works on the key entry in the page, and
  what it leaves there is written back.
\<close>

definition btree_cursor_overwrite ::
  "extern \<Rightarrow> cursor_ptr \<Rightarrow> ham_u32_t \<Rightarrow> db_state \<Rightarrow> ham_status_t \<times> db_state" where
  "btree_cursor_overwrite E c flags st =
     (case couple_or_nil E c st of
        (s0, st0) \<Rightarrow>
          if s0 \<noteq> 0 then (s0, st0)
          else
            (let st1 = btree_cursor_set_dupe_cache c dupe_entry_zero st0;
                 page = btree_cursor_get_coupled_page st1 c;
                 node = page_node st1 page;
                 idx = btree_cursor_get_coupled_index st1 c
             in case set_record E (node_key node idx) (btree_cursor_get_dupe_id st1 c)
                       (flags OR HAM_OVERWRITE) of
                  (s, key') \<Rightarrow>
                    (let st2 = st1\<lparr>page_node := (page_node st1)
                                 (page := node\<lparr>node_key := (node_key node)(idx := key')\<rparr>)\<rparr>
                     in if s \<noteq> 0 then (s, st2) else (0, page_set_dirty page st2))))"

text \<open>
  The second half of \<open>btree_cursor_move\<close>: with the cursor coupled, the key and the record
  are read when the caller passed a key and a record to fill.
\<close>

definition move_read ::
  "extern \<Rightarrow> cursor_ptr \<Rightarrow> bool \<Rightarrow> bool \<Rightarrow> ham_u32_t \<Rightarrow> db_state \<Rightarrow> ham_status_t \<times> db_state" where
  "move_read E c key record flags st =
     (let entry = coupled_entry st c
      in if key \<and> read_key E entry \<noteq> 0 then (read_key E entry, st)
         else if record then
           (if key_flags entry AND KEY_HAS_DUPLICATES \<noteq> 0 \<and> btree_cursor_get_dupe_id st c \<noteq> 0
            then
              (case
                 (if dupe_rid (btree_cursor_get_dupe_cache st c) = 0 then
                    blob_duplicate_get E (key_ptr entry) (btree_cursor_get_dupe_id st c) c st
                  else (0, st)) of
                 (s, st1) \<Rightarrow>
                   if s \<noteq> 0 then (s, st1)
                   else
                     (let e = btree_cursor_get_dupe_cache st1 c
                      in (read_record E (dupe_flags e) (dupe_rid e) flags, st1)))
            else (read_record E (key_flags entry) (key_ptr entry) flags, st))
         else (0, st))"

text \<open>
  \<open>btree_cursor_move\<close>; \<open>key\<close> and \<open>record\<close> tell whether the caller passed a key and a
  record to fill.
\<close>

definition btree_cursor_move ::
  "extern \<Rightarrow> cursor_ptr \<Rightarrow> bool \<Rightarrow> bool \<Rightarrow> ham_u32_t \<Rightarrow> db_state
     \<Rightarrow> (ham_status_t \<times> db_state) option" where
  "btree_cursor_move E c key record flags st =
     (if \<not> backend E then Some (HAM_NOT_INITIALIZED, st)
      else
        (let st0 = btree_cursor_set_dupe_cache c dupe_entry_zero st
         in case
              (if flags AND HAM_CURSOR_FIRST \<noteq> 0 then map_option Inr (move_first E c flags st0)
               else if flags AND HAM_CURSOR_LAST \<noteq> 0 then map_option Inr (move_last E c flags st0)
               else if flags AND HAM_CURSOR_NEXT \<noteq> 0 then Some (Inr (move_next E c flags st0))
               else if flags AND HAM_CURSOR_PREVIOUS \<noteq> 0
                 then Some (Inr (move_previous E c flags st0))
               else if btree_cursor_is_nil st0 c then
                 (if key \<or> record then Some (Inl (HAM_CURSOR_IS_NIL, st0))
                  else Some (Inl (0, st0)))
               else if btree_cursor_is_uncoupled st0 c then Some (Inr (btree_cursor_couple E c st0))
               else Some (Inr (0, st0))) of
              None \<Rightarrow> None
            | Some (Inl r) \<Rightarrow> Some r
            | Some (Inr (s, st1)) \<Rightarrow>
                if s \<noteq> 0 then Some (s, st1) else Some (move_read E c key record flags st1)))"

text \<open>\<open>btree_cursor_insert\<close>: the work is all \<open>btree_insert_cursor\<close>'s.\<close>

definition btree_cursor_insert ::
  "extern \<Rightarrow> cursor_ptr \<Rightarrow> ham_u32_t \<Rightarrow> db_state \<Rightarrow> ham_status_t \<times> db_state" where
  "btree_cursor_insert E c flags st =
     (if \<not> backend E then (HAM_NOT_INITIALIZED, st)
      else
        (case insert_cursor E c flags st of
           (s, st1) \<Rightarrow> if s \<noteq> 0 then (s, st1) else (0, st1)))"

text \<open>\<open>btree_cursor_erase\<close>\<close>

definition btree_cursor_erase ::
  "extern \<Rightarrow> cursor_ptr \<Rightarrow> ham_u32_t \<Rightarrow> db_state \<Rightarrow> ham_status_t \<times> db_state" where
  "btree_cursor_erase E c flags st =
     (if \<not> backend E then (HAM_NOT_INITIALIZED, st)
      else
        (case
           (if btree_cursor_is_coupled st c then btree_cursor_uncouple E c 0 st
            else if \<not> btree_cursor_is_uncoupled st c then (HAM_CURSOR_IS_NIL, st)
            else (0, st)) of
           (s0, st0) \<Rightarrow>
             if s0 \<noteq> 0 then (s0, st0)
             else
               (case erase_cursor E (btree_cursor_get_uncoupled_key st0 c) c flags st0 of
                  (s, st1) \<Rightarrow> if s \<noteq> 0 then (s, st1) else btree_cursor_set_to_nil c st1)))"

text \<open>
  \<open>btree_cursor_points_to\<close>; the key entry is given by its address, the page and the slot
  it sits in. The result is a \<open>ham_bool_t\<close>, an \<open>int\<close> like the status.
\<close>

definition btree_cursor_points_to ::
  "extern \<Rightarrow> cursor_ptr \<Rightarrow> key_entry_ptr \<Rightarrow> db_state \<Rightarrow> ham_bool_t \<times> db_state" where
  "btree_cursor_points_to E cursor key st =
     (case
        (if btree_cursor_is_uncoupled st cursor then btree_cursor_couple E cursor st
         else (0, st)) of
        (s, st1) \<Rightarrow>
          if s \<noteq> 0 then (s, st1)
          else if btree_cursor_is_coupled st1 cursor then
            (let entry = (btree_cursor_get_coupled_page st1 cursor,
                          btree_cursor_get_coupled_index st1 cursor)
             in if entry = key then (1, st1) else (0, st1))
          else (0, st1))"

text \<open>
  The loop of \<open>btree_uncouple_all_cursors\<close>: \<open>c\<close> walks the list, the successor \<open>n\<close> is
  read before the cursor is touched, \<open>skipped\<close> is the flag of the same name. The result is
  the status, the flag and the store; a list with a cycle keeps the loop running.
\<close>

partial_function (option) uncouple_all_loop ::
  "extern \<Rightarrow> ham_size_t \<Rightarrow> cursor_ptr \<Rightarrow> bool \<Rightarrow> db_state
     \<Rightarrow> (ham_status_t \<times> bool \<times> db_state) option" where
  "uncouple_all_loop E start c skipped st =
     (if c = 0 then Some (0, skipped, st)
      else
        (let btc = c;
             n = next_in_page (cursors st c)
         in if btree_cursor_is_coupled st btc \<or> is_coupled_to_txnop (cursors st c) then
              (if btree_cursor_get_coupled_index st btc < start
               then uncouple_all_loop E start n True st
               else
                 (case btree_cursor_uncouple E btc 0 st of
                    (s, st1) \<Rightarrow>
                      if s \<noteq> 0 then Some (s, skipped, st1)
                      else uncouple_all_loop E start n skipped
                             (set_previous_in_page c 0 (set_next_in_page c 0 st1))))
            else uncouple_all_loop E start n skipped st))"

text \<open>\<open>btree_uncouple_all_cursors\<close>\<close>

definition btree_uncouple_all_cursors ::
  "extern \<Rightarrow> page_ptr \<Rightarrow> ham_size_t \<Rightarrow> db_state \<Rightarrow> (ham_status_t \<times> db_state) option" where
  "btree_uncouple_all_cursors E page start st =
     (case uncouple_all_loop E start (page_cursors st page) False st of
        None \<Rightarrow> None
      | Some (s, skipped, st1) \<Rightarrow>
          if s \<noteq> 0 then Some (s, st1)
          else Some (0, if \<not> skipped then page_set_cursors page 0 st1 else st1))"

text \<open>
  \<open>p[sizeof(ham_offset_t)-1]\<close> for \<open>char *p\<close> at a stored record id: the record id is
  stored with its low byte first, so the last of its eight bytes is its highest byte. The
  byte is read as a plain \<open>char\<close> and converted to \<open>ham_offset_t\<close>, which extends the sign
  where \<open>char\<close> is signed.
\<close>

definition rid_byte :: "ham_u64_t \<Rightarrow> nat \<Rightarrow> 8 word" where
  "rid_byte rid i = ucast (drop_bit (8 * i) rid)"

definition char_to_offset :: "extern \<Rightarrow> 8 word \<Rightarrow> ham_offset_t" where
  "char_to_offset E b = (if char_is_signed E then scast b else ucast b)"

text \<open>
  \<open>btree_cursor_get_record_size\<close>; \<open>sz\<close> is what \<open>*size\<close> holds at the call, and what it
  holds at the return is the second component of the result. The local \<open>dupeentry\<close>
  starts out zeroed.
\<close>

definition btree_cursor_get_record_size ::
  "extern \<Rightarrow> cursor_ptr \<Rightarrow> ham_offset_t \<Rightarrow> db_state \<Rightarrow> ham_status_t \<times> ham_offset_t \<times> db_state" where
  "btree_cursor_get_record_size E c sz st =
     (if \<not> backend E then (HAM_NOT_INITIALIZED, sz, st)
      else
        (case couple_or_nil E c st of
           (s0, st0) \<Rightarrow>
             if s0 \<noteq> 0 then (s0, sz, st0)
             else
               (let entry = coupled_entry st0 c
                in case
                     (if key_flags entry AND KEY_HAS_DUPLICATES \<noteq> 0 then
                        (case duplicate_get E (key_ptr entry) (btree_cursor_get_dupe_id st0 c)
                                dupe_entry_zero of
                           (s, dupeentry) \<Rightarrow>
                             if s \<noteq> 0 then Inl s
                             else Inr (dupe_flags dupeentry, dupe_rid dupeentry))
                      else Inr (key_flags entry, key_ptr entry)) of
                     Inl s \<Rightarrow> (s, sz, st0)
                   | Inr (keyflags, rid) \<Rightarrow>
                       if keyflags AND KEY_BLOB_SIZE_TINY \<noteq> 0 then
                         (0, char_to_offset E (rid_byte rid (sizeof_ham_offset_t - 1)), st0)
                       else if keyflags AND KEY_BLOB_SIZE_SMALL \<noteq> 0 then
                         (0, of_nat sizeof_ham_offset_t, st0)
                       else if keyflags AND KEY_BLOB_SIZE_EMPTY \<noteq> 0 then (0, 0, st0)
                       else
                         (case get_datasize E rid sz of
                            (s, sz') \<Rightarrow> if s \<noteq> 0 then (s, sz', st0) else (0, sz', st0)))))"

section \<open>The plugin registry (src/4uqi/plugins.cc)\<close>

text \<open>
  A plugin descriptor \<open>uqi_plugin_t\<close>; its declaration is not among the sources, the
  fields are those the code reads and writes. A function pointer is a number, \<open>0\<close> the
  null pointer. Modelled from the spec: the two plugin types of section 3 and the status
  \<open>PLUGIN_NOT_FOUND\<close> of section 6, whose declarations are missing.
\<close>

type_synonym ups_status_t = int
type_synonym fn_ptr = nat

definition UPS_PLUGIN_NOT_FOUND :: ups_status_t where "UPS_PLUGIN_NOT_FOUND = - 500"
definition UQI_PLUGIN_PREDICATE :: ham_u32_t where "UQI_PLUGIN_PREDICATE = 1"
definition UQI_PLUGIN_AGGREGATE :: ham_u32_t where "UQI_PLUGIN_AGGREGATE = 2"

record uqi_plugin_t =
  name :: string
  plugin_type :: ham_u32_t
  plugin_version :: ham_u32_t
  init :: fn_ptr
  pred :: fn_ptr
  agg_single :: fn_ptr
  agg_many :: fn_ptr
  results :: fn_ptr

text \<open>\<open>PluginMap\<close>, a \<open>std::map\<close> from names to descriptors, and its \<open>insert\<close>, which
  leaves the map as it is when the key is there already.\<close>

type_synonym PluginMap = "string \<rightharpoonup> uqi_plugin_t"

definition map_insert :: "PluginMap \<Rightarrow> string \<Rightarrow> uqi_plugin_t \<Rightarrow> PluginMap" where
  "map_insert m k v = (case m k of None \<Rightarrow> m(k \<mapsto> v) | Some _ \<Rightarrow> m)"

text \<open>\<open>PluginManager::add\<close>; the registry \<open>plugins\<close> is passed in and returned.\<close>

definition PluginManager_add :: "PluginMap \<Rightarrow> uqi_plugin_t \<Rightarrow> ups_status_t \<times> PluginMap" where
  "PluginManager_add plugins plugin =
     (if plugin_version plugin \<noteq> 0 then (UPS_PLUGIN_NOT_FOUND, plugins)
      else if plugin_type plugin = UQI_PLUGIN_PREDICATE then
        (if pred plugin = 0 then (UPS_PLUGIN_NOT_FOUND, plugins)
         else (0, map_insert plugins (name plugin) plugin))
      else if plugin_type plugin = UQI_PLUGIN_AGGREGATE then
        (if agg_single plugin = 0 then (UPS_PLUGIN_NOT_FOUND, plugins)
         else if agg_many plugin = 0 then (UPS_PLUGIN_NOT_FOUND, plugins)
         else (0, map_insert plugins (name plugin) plugin))
      else (UPS_PLUGIN_NOT_FOUND, plugins))"

text \<open>\<open>PluginManager::get\<close>: the stored descriptor, or the null pointer \<open>None\<close>.\<close>

definition PluginManager_get :: "PluginMap \<Rightarrow> string \<Rightarrow> uqi_plugin_t option" where
  "PluginManager_get plugins plugin_name = plugins plugin_name"

text \<open>\<open>PluginManager::is_registered\<close>\<close>

definition PluginManager_is_registered :: "PluginMap \<Rightarrow> string \<Rightarrow> bool" where
  "PluginManager_is_registered plugins plugin_name =
     (PluginManager_get plugins plugin_name \<noteq> None)"

text \<open>The registry after a sequence of calls of \<open>add\<close>, whatever their statuses.\<close>

fun add_all :: "PluginMap \<Rightarrow> uqi_plugin_t list \<Rightarrow> PluginMap" where
  "add_all plugins [] = plugins"
| "add_all plugins (p # ps) = add_all (snd (PluginManager_add plugins p)) ps"

section \<open>Notions used in the statements\<close>

subsection \<open>The plugin registry\<close>

text \<open>
  Every registered aggregate plugin has its two aggregate functions and every registered
  predicate plugin has its predicate function.
\<close>

definition registry_valid :: "PluginMap \<Rightarrow> bool" where
  "registry_valid m =
     (\<forall>n p. m n = Some p \<longrightarrow>
        (plugin_type p = UQI_PLUGIN_AGGREGATE \<longrightarrow> agg_single p \<noteq> 0 \<and> agg_many p \<noteq> 0) \<and>
        (plugin_type p = UQI_PLUGIN_PREDICATE \<longrightarrow> pred p \<noteq> 0))"

text \<open>Three descriptors: two valid aggregates of one name, and one without \<open>agg_many\<close>.\<close>

definition plugin_sum :: uqi_plugin_t where
  "plugin_sum = \<lparr>name = ''sum'', plugin_type = UQI_PLUGIN_AGGREGATE, plugin_version = 0,
     init = 11, pred = 0, agg_single = 12, agg_many = 13, results = 14\<rparr>"

definition plugin_sum_other :: uqi_plugin_t where
  "plugin_sum_other = \<lparr>name = ''sum'', plugin_type = UQI_PLUGIN_AGGREGATE, plugin_version = 0,
     init = 21, pred = 0, agg_single = 22, agg_many = 23, results = 24\<rparr>"

definition plugin_no_many :: uqi_plugin_t where
  "plugin_no_many = \<lparr>name = ''avg'', plugin_type = UQI_PLUGIN_AGGREGATE, plugin_version = 0,
     init = 11, pred = 0, agg_single = 12, agg_many = 0, results = 14\<rparr>"

subsection \<open>The cursor list of a page\<close>

text \<open>
  \<open>chain cs prv c xs\<close>: following \<open>next_in_page\<close> from \<open>c\<close> visits exactly the cursors
  \<open>xs\<close> and ends at the null pointer, each cursor's \<open>previous_in_page\<close> being the cursor
  visited before it (\<open>prv\<close> for the first).
\<close>

fun chain :: "(cursor_ptr \<Rightarrow> Cursor) \<Rightarrow> cursor_ptr \<Rightarrow> cursor_ptr \<Rightarrow> cursor_ptr list \<Rightarrow> bool" where
  "chain cs prv c [] = (c = 0)"
| "chain cs prv c (x # xs) =
     (c = x \<and> x \<noteq> 0 \<and> previous_in_page (cs x) = prv \<and> chain cs x (next_in_page (cs x)) xs)"

text \<open>The cursor list of \<open>page\<close> holds the cursors \<open>xs\<close>, in this order from the head.\<close>

definition cursor_list :: "db_state \<Rightarrow> page_ptr \<Rightarrow> cursor_ptr list \<Rightarrow> bool" where
  "cursor_list st page xs = (distinct xs \<and> chain (cursors st) 0 (page_cursors st page) xs)"

text \<open>
  The cursor \<open>c\<close> is coupled to \<open>page\<close> as an embedded cursor is after the coupling code
  has run: the coupled flag is set and the uncoupled flag is not, the page is \<open>page\<close>, and
  the parent pointer leads back to the \<open>Cursor\<close> that embeds it.
\<close>

definition coupled_to :: "db_state \<Rightarrow> page_ptr \<Rightarrow> cursor_ptr \<Rightarrow> bool" where
  "coupled_to st page c =
     (btree_cursor_is_coupled st c \<and> \<not> btree_cursor_is_uncoupled st c
      \<and> btree_cursor_get_coupled_page st c = page \<and> btree_cursor_get_parent st c = c)"

text \<open>A \<open>Cursor\<close> without its two list links.\<close>

definition payload :: "Cursor \<Rightarrow> Cursor" where
  "payload x = x\<lparr>next_in_page := 0, previous_in_page := 0\<rparr>"

text \<open>
  What \<open>btree_cursor_uncouple\<close> makes of a coupled cursor: the coupled flag is cleared and
  the uncoupled flag set, the key of the slot is saved, and the cursor is off the list.
\<close>

definition uncoupled_copy :: "db_state \<Rightarrow> cursor_ptr \<Rightarrow> Cursor" where
  "uncoupled_copy st c =
     (cursors st c)
       \<lparr>next_in_page := 0, previous_in_page := 0,
        bc_flags := (bc_flags (cursors st c) AND NOT BTREE_CURSOR_FLAG_COUPLED)
                      OR BTREE_CURSOR_FLAG_UNCOUPLED,
        bc_uncoupled_key := Some (key_bytes (coupled_entry st c))\<rparr>"

text \<open>
  What the claims call the position of a cursor: its two state flags, its page, its slot
  and its duplicate index.
\<close>

definition same_position :: "db_state \<Rightarrow> db_state \<Rightarrow> cursor_ptr \<Rightarrow> bool" where
  "same_position st st' c =
     (btree_cursor_is_coupled st' c = btree_cursor_is_coupled st c
      \<and> btree_cursor_is_uncoupled st' c = btree_cursor_is_uncoupled st c
      \<and> btree_cursor_get_coupled_page st' c = btree_cursor_get_coupled_page st c
      \<and> btree_cursor_get_coupled_index st' c = btree_cursor_get_coupled_index st c
      \<and> btree_cursor_get_dupe_id st' c = btree_cursor_get_dupe_id st c)"

subsection \<open>A small store and environment to run the functions on\<close>

text \<open>
  One leaf, page \<open>1\<close>, with six keys: the key of slot \<open>i\<close> is the byte \<open>i\<close>; slot \<open>1\<close> holds
  a tiny record of five bytes, slot \<open>2\<close> a small one, slot \<open>3\<close> an empty one, slot \<open>4\<close> has
  duplicates. Cursors \<open>1\<close>, \<open>2\<close> and \<open>3\<close> are coupled to the slots \<open>1\<close>, \<open>3\<close> and \<open>5\<close> and
  form the cursor list of the page in this order; cursor \<open>4\<close> is NIL, cursor \<open>5\<close> is
  uncoupled and holds the key of slot \<open>2\<close>.
\<close>

definition nil_cursor :: "cursor_ptr \<Rightarrow> Cursor" where
  "nil_cursor p =
     \<lparr>next_in_page = 0, previous_in_page = 0, is_coupled_to_txnop = False, bc_parent = p,
      bc_flags = 0, bc_coupled_page = 0, bc_coupled_index = 0, bc_uncoupled_key = None,
      bc_dupe_id = 0, bc_dupe_cache = dupe_entry_zero\<rparr>"

definition coupled_cursor ::
  "cursor_ptr \<Rightarrow> page_ptr \<Rightarrow> ham_size_t \<Rightarrow> cursor_ptr \<Rightarrow> cursor_ptr \<Rightarrow> Cursor" where
  "coupled_cursor p page idx nxt prv =
     \<lparr>next_in_page = nxt, previous_in_page = prv, is_coupled_to_txnop = False, bc_parent = p,
      bc_flags = 1, bc_coupled_page = page, bc_coupled_index = idx, bc_uncoupled_key = None,
      bc_dupe_id = 0, bc_dupe_cache = dupe_entry_zero\<rparr>"

definition uncoupled_cursor :: "cursor_ptr \<Rightarrow> ham_key_t \<Rightarrow> Cursor" where
  "uncoupled_cursor p k =
     \<lparr>next_in_page = 0, previous_in_page = 0, is_coupled_to_txnop = False, bc_parent = p,
      bc_flags = 2, bc_coupled_page = 0, bc_coupled_index = 0, bc_uncoupled_key = Some k,
      bc_dupe_id = 0, bc_dupe_cache = dupe_entry_zero\<rparr>"

definition example_key :: "ham_size_t \<Rightarrow> btree_key_t" where
  "example_key i =
     \<lparr>key_flags = (if i = 1 then 1 else if i = 2 then 2 else if i = 3 then 4
                   else if i = 4 then 16 else 0),
      key_ptr = (if i = 1 then 0x0500000000000000 else 100 + ucast i),
      key_bytes = [ucast i]\<rparr>"

definition example_node :: btree_node_t where
  "example_node =
     \<lparr>node_count = 6, node_is_leaf = True, node_ptr_left = 0, node_left = 0, node_right = 0,
      node_key = example_key\<rparr>"

definition empty_node :: btree_node_t where
  "empty_node =
     \<lparr>node_count = 0, node_is_leaf = True, node_ptr_left = 0, node_left = 0, node_right = 0,
      node_key = (\<lambda>_. \<lparr>key_flags = 0, key_ptr = 0, key_bytes = []\<rparr>)\<rparr>"

definition example_store :: db_state where
  "example_store =
     \<lparr>cursors = (\<lambda>p. nil_cursor p)
        (1 := coupled_cursor 1 1 1 2 0, 2 := coupled_cursor 2 1 3 3 1,
         3 := coupled_cursor 3 1 5 0 2, 5 := uncoupled_cursor 5 [2]),
      page_cursors = (\<lambda>_. 0)(1 := 1),
      page_node = (\<lambda>_. empty_node)(1 := example_node),
      page_dirty = (\<lambda>_. False),
      alloc_count = 0\<rparr>"

text \<open>
  An environment in which nothing fails: the search finds the key \<open>i\<close> in slot \<open>i\<close> of
  page \<open>1\<close>, every duplicate table has three entries, and \<open>char\<close> is signed.
\<close>

definition example_env :: extern where
  "example_env =
     \<lparr>backend = True, rootpage = 1, fetch_page = (\<lambda>_. 0), calloc_ok = (\<lambda>_. True),
      copy_key_status = (\<lambda>_. 0), int2pub_status = (\<lambda>_. 0),
      find_key = (\<lambda>k _. case k of
                     [b] \<Rightarrow> if b < 6 then (0, 1, ucast b) else (HAM_KEY_NOT_FOUND, 0, 0)
                   | _ \<Rightarrow> (HAM_KEY_NOT_FOUND, 0, 0)),
      duplicate_get = (\<lambda>_ i e. if i < 3 then (0, \<lparr>dupe_flags = 0, dupe_rid = 200 + ucast i\<rparr>)
                                else (HAM_KEY_NOT_FOUND, e)),
      duplicate_get_count = (\<lambda>_ e. (0, 3, e)),
      get_datasize = (\<lambda>rid _. (0, rid)),
      read_key = (\<lambda>_. 0), read_record = (\<lambda>_ _ _. 0),
      set_record = (\<lambda>k _ _. (0, k)),
      insert_cursor = (\<lambda>_ _ st. (0, st)),
      erase_cursor = (\<lambda>_ _ _ st. (0, st)),
      char_is_signed = True\<rparr>"


text \<open>
  The small store with the uncoupled cursor \<open>5\<close> still linked: it is the head of the
  cursor list of page \<open>1\<close>, before the cursors \<open>1\<close>, \<open>2\<close> and \<open>3\<close>. It is a cursor of
  the kind that the loop of \<open>btree_uncouple_all_cursors\<close> ignores.
\<close>

definition example_store_linked :: db_state where
  "example_store_linked =
     example_store
       \<lparr>cursors := (cursors example_store)
          (5 := (uncoupled_cursor 5 [2])\<lparr>next_in_page := 1\<rparr>, 1 := coupled_cursor 1 1 1 2 5),
        page_cursors := (page_cursors example_store)(1 := 5)\<rparr>"

subsection \<open>The bulk uncouple as the spec words it\<close>

text \<open>
  Section 4.4 of the spec has it that each cursor at or past \<open>start_index\<close> is uncoupled
  with \<open>NO_REMOVE\<close> and then unlinked from the per-page list. This is the loop of
  \<open>btree_uncouple_all_cursors\<close> with that flag in place of the \<open>0\<close> the code passes; it
  is here to be compared with the code.
\<close>

partial_function (option) uncouple_all_loop_no_remove ::
  "extern \<Rightarrow> ham_size_t \<Rightarrow> cursor_ptr \<Rightarrow> bool \<Rightarrow> db_state
     \<Rightarrow> (ham_status_t \<times> bool \<times> db_state) option" where
  "uncouple_all_loop_no_remove E start c skipped st =
     (if c = 0 then Some (0, skipped, st)
      else
        (let btc = c;
             n = next_in_page (cursors st c)
         in if btree_cursor_is_coupled st btc \<or> is_coupled_to_txnop (cursors st c) then
              (if btree_cursor_get_coupled_index st btc < start
               then uncouple_all_loop_no_remove E start n True st
               else
                 (case btree_cursor_uncouple E btc BTREE_CURSOR_UNCOUPLE_NO_REMOVE st of
                    (s, st1) \<Rightarrow>
                      if s \<noteq> 0 then Some (s, skipped, st1)
                      else uncouple_all_loop_no_remove E start n skipped
                             (set_previous_in_page c 0 (set_next_in_page c 0 st1))))
            else uncouple_all_loop_no_remove E start n skipped st))"

definition btree_uncouple_all_cursors_no_remove ::
  "extern \<Rightarrow> page_ptr \<Rightarrow> ham_size_t \<Rightarrow> db_state \<Rightarrow> (ham_status_t \<times> db_state) option" where
  "btree_uncouple_all_cursors_no_remove E page start st =
     (case uncouple_all_loop_no_remove E start (page_cursors st page) False st of
        None \<Rightarrow> None
      | Some (s, skipped, st1) \<Rightarrow>
          if s \<noteq> 0 then Some (s, st1)
          else Some (0, if \<not> skipped then page_set_cursors page 0 st1 else st1))"

text \<open>
  The store of the example with cursor \<open>3\<close> at slot \<open>0\<close>: in list order the cursors are
  at the slots \<open>1\<close>, \<open>3\<close> and \<open>0\<close>.
\<close>

definition example_store_mixed :: db_state where
  "example_store_mixed = btree_cursor_set_coupled_index 3 0 example_store"

text \<open>
  The store of the example with cursor \<open>2\<close> on the third duplicate (duplicate index \<open>2\<close>)
  of the key in slot \<open>4\<close>.
\<close>

definition example_store_dup :: db_state where
  "example_store_dup =
     btree_cursor_set_dupe_id 2 2 (btree_cursor_set_coupled_index 2 4 example_store)"

subsection \<open>A cursor that is not half-coupled\<close>

text \<open>
  \<open>lists_ok st L\<close>: the cursor list of every page \<open>p\<close> is well formed and holds the cursors
  \<open>L p\<close>, and no cursor is on the lists of two pages.
\<close>

definition lists_ok :: "db_state \<Rightarrow> (page_ptr \<Rightarrow> cursor_ptr list) \<Rightarrow> bool" where
  "lists_ok st L =
     ((\<forall>p. cursor_list st p (L p))
      \<and> (\<forall>p q x. p \<noteq> q \<longrightarrow> x \<in> set (L p) \<longrightarrow> x \<notin> set (L q)))"

text \<open>
  The invariants 1 and 2 of section 3 of the spec for one cursor, with the ownership of
  the saved key: at most one of the two state flags is set; a coupled cursor is on the
  cursor list of its page and a cursor that is not coupled is on no list; the cursor holds
  a saved key exactly when it is uncoupled. The parent pointer leads back to the
  \<open>Cursor\<close>.
\<close>

definition cursor_sound ::
  "db_state \<Rightarrow> (page_ptr \<Rightarrow> cursor_ptr list) \<Rightarrow> cursor_ptr \<Rightarrow> bool" where
  "cursor_sound st L c =
     (c \<noteq> 0 \<and> btree_cursor_get_parent st c = c
      \<and> \<not> (btree_cursor_is_coupled st c \<and> btree_cursor_is_uncoupled st c)
      \<and> (btree_cursor_is_coupled st c \<longrightarrow> c \<in> set (L (btree_cursor_get_coupled_page st c)))
      \<and> (\<not> btree_cursor_is_coupled st c \<longrightarrow> (\<forall>p. c \<notin> set (L p)))
      \<and> (btree_cursor_is_uncoupled st c \<longleftrightarrow> btree_cursor_get_uncoupled_key st c \<noteq> None))"

definition cursor_consistent :: "db_state \<Rightarrow> cursor_ptr \<Rightarrow> bool" where
  "cursor_consistent st c = (\<exists>L. lists_ok st L \<and> cursor_sound st L c)"

text \<open>A NIL cursor that owns no key buffer.\<close>

definition cursor_nil :: "db_state \<Rightarrow> cursor_ptr \<Rightarrow> bool" where
  "cursor_nil st c =
     (\<not> btree_cursor_is_coupled st c \<and> \<not> btree_cursor_is_uncoupled st c
      \<and> btree_cursor_get_uncoupled_key st c = None)"

text \<open>An environment in which the count of the duplicates of a key cannot be read.\<close>

definition example_env_no_count :: extern where
  "example_env_no_count =
     example_env\<lparr>duplicate_get_count := (\<lambda>_ e. (HAM_OUT_OF_MEMORY, 0, e))\<rparr>"

text \<open>An environment in which the key of a slot cannot be read.\<close>

definition example_env_no_read :: extern where
  "example_env_no_read = example_env\<lparr>read_key := (\<lambda>_. HAM_OUT_OF_MEMORY)\<rparr>"

text \<open>The cursor lists of the small store: cursors \<open>1\<close>, \<open>2\<close>, \<open>3\<close> on page \<open>1\<close>.\<close>

definition example_lists :: "page_ptr \<Rightarrow> cursor_ptr list" where
  "example_lists p = (if p = 1 then [1, 2, 3] else [])"

text \<open>
  Modelled from the spec: what \<open>btree_insert_cursor\<close> and \<open>btree_erase_cursor\<close>, which are
  missing, do to the cursor when they fail. The spec's invariant under error (section 7)
  is taken as their contract: called with a well-formed cursor, a failing call leaves it
  well formed, and at the position it had or NIL without a key.
\<close>

definition externals_keep_cursor :: "extern \<Rightarrow> cursor_ptr \<Rightarrow> bool" where
  "externals_keep_cursor E c =
     ((\<forall>fl x s x'. cursor_consistent x c \<longrightarrow> insert_cursor E c fl x = (s, x') \<longrightarrow> s \<noteq> 0
          \<longrightarrow> cursor_consistent x' c \<and> (same_position x x' c \<or> cursor_nil x' c))
      \<and> (\<forall>k fl x s x'. cursor_consistent x c \<longrightarrow> erase_cursor E k c fl x = (s, x') \<longrightarrow> s \<noteq> 0
          \<longrightarrow> cursor_consistent x' c \<and> (same_position x x' c \<or> cursor_nil x' c)))"

text \<open>
  An environment in which \<open>btree_erase_cursor\<close> fails and leaves the store alone, and one
  in which \<open>key_set_record\<close> fails and leaves the key entry alone.
\<close>

definition example_env_no_erase :: extern where
  "example_env_no_erase =
     example_env\<lparr>erase_cursor := (\<lambda>_ _ _ st. (HAM_OUT_OF_MEMORY, st))\<rparr>"

definition example_env_no_set_record :: extern where
  "example_env_no_set_record =
     example_env\<lparr>set_record := (\<lambda>k _ _. (HAM_OUT_OF_MEMORY, k))\<rparr>"

section \<open>Basic facts\<close>

lemmas accessor_defs =
  btree_cursor_get_parent_def btree_cursor_get_flags_def btree_cursor_get_coupled_page_def
  btree_cursor_get_coupled_index_def btree_cursor_get_uncoupled_key_def
  btree_cursor_get_dupe_id_def btree_cursor_get_dupe_cache_def
  btree_cursor_set_parent_def btree_cursor_set_flags_def btree_cursor_set_coupled_page_def
  btree_cursor_set_coupled_index_def btree_cursor_set_uncoupled_key_def
  btree_cursor_set_dupe_id_def btree_cursor_set_dupe_cache_def
  set_next_in_page_def set_previous_in_page_def page_set_cursors_def page_set_dirty_def
  upd_cursor_def btree_cursor_is_coupled_def btree_cursor_is_uncoupled_def coupled_entry_def

lemmas flag_defs =
  BTREE_CURSOR_FLAG_COUPLED_def BTREE_CURSOR_FLAG_UNCOUPLED_def
  BTREE_CURSOR_UNCOUPLE_NO_REMOVE_def HAM_OVERWRITE_def HAM_CURSOR_FIRST_def
  HAM_CURSOR_LAST_def HAM_CURSOR_NEXT_def HAM_CURSOR_PREVIOUS_def HAM_SKIP_DUPLICATES_def
  HAM_ONLY_DUPLICATES_def KEY_BLOB_SIZE_TINY_def KEY_BLOB_SIZE_SMALL_def
  KEY_BLOB_SIZE_EMPTY_def KEY_HAS_DUPLICATES_def

lemmas example_defs =
  example_store_def example_env_def example_node_def example_key_def empty_node_def
  nil_cursor_def coupled_cursor_def uncoupled_cursor_def dupe_entry_zero_def

lemma status_simps [simp]:
  "HAM_KEY_NOT_FOUND \<noteq> 0" "HAM_CURSOR_IS_NIL \<noteq> 0" "HAM_OUT_OF_MEMORY \<noteq> 0"
  "HAM_NOT_INITIALIZED \<noteq> 0" "HAM_SUCCESS = 0"
  by (simp_all add: HAM_KEY_NOT_FOUND_def HAM_CURSOR_IS_NIL_def HAM_OUT_OF_MEMORY_def
      HAM_NOT_INITIALIZED_def HAM_SUCCESS_def)

lemma chain_cong:
  "(\<And>x. x \<in> set xs \<Longrightarrow> next_in_page (cs' x) = next_in_page (cs x)
       \<and> previous_in_page (cs' x) = previous_in_page (cs x))
   \<Longrightarrow> chain cs' prv c xs = chain cs prv c xs"
  by (induction xs arbitrary: prv c) auto

lemma cursor_list_cong:
  assumes "\<And>x. next_in_page (cursors st' x) = next_in_page (cursors st x)"
    and "\<And>x. previous_in_page (cursors st' x) = previous_in_page (cursors st x)"
    and "page_cursors st' p = page_cursors st p"
  shows "cursor_list st' p xs = cursor_list st p xs"
proof -
  have "chain (cursors st') 0 (page_cursors st p) xs = chain (cursors st) 0 (page_cursors st p) xs"
    by (rule chain_cong) (simp add: assms)
  then show ?thesis by (simp add: cursor_list_def assms)
qed

lemma cursor_list_dupe_cache:
  "cursor_list (btree_cursor_set_dupe_cache c e st) p xs = cursor_list st p xs"
  by (rule cursor_list_cong) (simp_all add: accessor_defs)

lemma cursor_list_dupe_id:
  "cursor_list (btree_cursor_set_dupe_id c e st) p xs = cursor_list st p xs"
  by (rule cursor_list_cong) (simp_all add: accessor_defs)

lemma couple_or_nil_coupled:
  "btree_cursor_is_coupled st c \<Longrightarrow> \<not> btree_cursor_is_uncoupled st c
   \<Longrightarrow> couple_or_nil E c st = (0, st)"
  by (simp add: couple_or_nil_def)

lemma word_flag_bits:
  "(f OR 1) AND (1 :: 32 word) = 1"
  "(f OR 2) AND (2 :: 32 word) = 2"
  "(f AND NOT 1) AND (1 :: 32 word) = 0"
  "(f AND NOT 2) AND (2 :: 32 word) = 0"
  "(f OR 1) AND (2 :: 32 word) = f AND 2"
  "(f OR 2) AND (1 :: 32 word) = f AND 1"
  "(f AND NOT 1) AND (2 :: 32 word) = f AND 2"
  "(f AND NOT 2) AND (1 :: 32 word) = f AND 1"
  by (rule bit_word_eqI; auto simp: bit_simps)+

lemma flag_bits [simp]:
  "(f OR BTREE_CURSOR_FLAG_COUPLED) AND BTREE_CURSOR_FLAG_COUPLED \<noteq> 0"
  "(f OR BTREE_CURSOR_FLAG_UNCOUPLED) AND BTREE_CURSOR_FLAG_UNCOUPLED \<noteq> 0"
  "(f AND NOT BTREE_CURSOR_FLAG_COUPLED) AND BTREE_CURSOR_FLAG_COUPLED = 0"
  "(f AND NOT BTREE_CURSOR_FLAG_UNCOUPLED) AND BTREE_CURSOR_FLAG_UNCOUPLED = 0"
  "(f OR BTREE_CURSOR_FLAG_COUPLED) AND BTREE_CURSOR_FLAG_UNCOUPLED
     = f AND BTREE_CURSOR_FLAG_UNCOUPLED"
  "(f OR BTREE_CURSOR_FLAG_UNCOUPLED) AND BTREE_CURSOR_FLAG_COUPLED
     = f AND BTREE_CURSOR_FLAG_COUPLED"
  "(f AND NOT BTREE_CURSOR_FLAG_COUPLED) AND BTREE_CURSOR_FLAG_UNCOUPLED
     = f AND BTREE_CURSOR_FLAG_UNCOUPLED"
  "(f AND NOT BTREE_CURSOR_FLAG_UNCOUPLED) AND BTREE_CURSOR_FLAG_COUPLED
     = f AND BTREE_CURSOR_FLAG_COUPLED"
  unfolding BTREE_CURSOR_FLAG_COUPLED_def BTREE_CURSOR_FLAG_UNCOUPLED_def
  using word_flag_bits [of f] by simp_all

lemma flag_nonzero [simp]:
  "BTREE_CURSOR_FLAG_COUPLED \<noteq> 0" "BTREE_CURSOR_FLAG_UNCOUPLED \<noteq> 0"
  by (simp_all add: BTREE_CURSOR_FLAG_COUPLED_def BTREE_CURSOR_FLAG_UNCOUPLED_def)

section \<open>The doubly linked cursor list of a page\<close>

subsection \<open>Chains of cursors\<close>

lemma chain_nonzero: "chain cs prv h xs \<Longrightarrow> 0 \<notin> set xs"
  by (induction xs arbitrary: prv h) auto

lemma chain_head: "chain cs prv h xs \<Longrightarrow> h = (case xs of [] \<Rightarrow> 0 | x # _ \<Rightarrow> x)"
  by (cases xs) auto

lemma chain_next_in: "chain cs prv h xs \<Longrightarrow> c \<in> set xs
   \<Longrightarrow> next_in_page (cs c) = 0 \<or> next_in_page (cs c) \<in> set xs"
proof (induction xs arbitrary: prv h)
  case Nil then show ?case by simp
next
  case (Cons x xs)
  show ?case
  proof (cases "c = x")
    case True
    with Cons.prems show ?thesis by (cases xs) auto
  next
    case False
    with Cons.prems have "chain cs x (next_in_page (cs x)) xs" "c \<in> set xs" by auto
    from Cons.IH [OF this] show ?thesis by auto
  qed
qed

lemma chain_prev_in: "chain cs prv h xs \<Longrightarrow> c \<in> set xs \<Longrightarrow> c \<noteq> h
   \<Longrightarrow> previous_in_page (cs c) \<in> set xs"
proof (induction xs arbitrary: prv h)
  case Nil then show ?case by simp
next
  case (Cons x xs)
  then have cx: "c \<in> set xs" "h = x" by auto
  show ?case
  proof (cases xs)
    case Nil with cx show ?thesis by simp
  next
    case (Cons y ys)
    show ?thesis
    proof (cases "c = y")
      case True
      with Cons.prems Cons show ?thesis by auto
    next
      case False
      with Cons.prems Cons have "chain cs x (next_in_page (cs x)) xs" "c \<noteq> next_in_page (cs x)"
        by auto
      from Cons.IH [OF this(1) cx(1) this(2)] show ?thesis by auto
    qed
  qed
qed

lemma chain_unlink_head:
  assumes ch: "chain cs prv c (c # xs)" and d: "distinct (c # xs)"
    and same: "\<And>x. x \<in> set xs \<Longrightarrow> x \<noteq> next_in_page (cs c) \<Longrightarrow>
                 next_in_page (cs' x) = next_in_page (cs x)
                 \<and> previous_in_page (cs' x) = previous_in_page (cs x)"
    and nxt: "next_in_page (cs c) \<noteq> 0 \<Longrightarrow>
                 previous_in_page (cs' (next_in_page (cs c))) = prv
                 \<and> next_in_page (cs' (next_in_page (cs c))) = next_in_page (cs (next_in_page (cs c)))"
  shows "chain cs' prv (next_in_page (cs c)) xs"
proof (cases xs)
  case Nil
  with ch show ?thesis by simp
next
  case (Cons y ys)
  with ch have y: "next_in_page (cs c) = y" "y \<noteq> 0" "chain cs y (next_in_page (cs y)) ys"
    by auto
  have "chain cs' y (next_in_page (cs y)) ys = chain cs y (next_in_page (cs y)) ys"
    using d Cons y by (intro chain_cong same) auto
  with y nxt Cons show ?thesis by simp
qed

lemma chain_unlink_mid:
  assumes ch: "chain cs prv h xs" and d: "distinct xs" and c: "c \<in> set xs" and hc: "h \<noteq> c"
    and same: "\<And>x. x \<noteq> previous_in_page (cs c) \<Longrightarrow> x \<noteq> next_in_page (cs c) \<Longrightarrow> x \<noteq> c \<Longrightarrow>
                 next_in_page (cs' x) = next_in_page (cs x)
                 \<and> previous_in_page (cs' x) = previous_in_page (cs x)"
    and prv: "next_in_page (cs' (previous_in_page (cs c))) = next_in_page (cs c)
              \<and> previous_in_page (cs' (previous_in_page (cs c)))
                  = previous_in_page (cs (previous_in_page (cs c)))"
    and nxt: "next_in_page (cs c) \<noteq> 0 \<Longrightarrow>
                 previous_in_page (cs' (next_in_page (cs c))) = previous_in_page (cs c)
                 \<and> next_in_page (cs' (next_in_page (cs c))) = next_in_page (cs (next_in_page (cs c)))"
  shows "chain cs' prv h (remove1 c xs)"
  using ch d c hc
proof (induction xs arbitrary: prv h)
  case Nil
  then show ?case by simp
next
  case (Cons x xs)
  then have x: "h = x" "x \<noteq> 0" "previous_in_page (cs x) = prv" "x \<noteq> c" "c \<in> set xs"
    "x \<notin> set xs" "distinct xs" and sub: "chain cs x (next_in_page (cs x)) xs"
    by auto
  show ?case
  proof (cases "next_in_page (cs x) = c")
    case True
    with sub x obtain ys where ys: "xs = c # ys" by (cases xs) auto
    with sub True have pc: "previous_in_page (cs c) = x" and tl: "chain cs c (next_in_page (cs c)) ys"
      by auto
    have "chain cs' x (next_in_page (cs c)) ys"
    proof (rule chain_unlink_head [where cs = cs and c = c])
      show "chain cs x c (c # ys)" using sub ys True by simp
      show "distinct (c # ys)" using x ys by simp
    next
      fix y assume "y \<in> set ys" "y \<noteq> next_in_page (cs c)"
      with x ys pc show "next_in_page (cs' y) = next_in_page (cs y)
                 \<and> previous_in_page (cs' y) = previous_in_page (cs y)"
        by (intro same) auto
    next
      assume "next_in_page (cs c) \<noteq> 0"
      with nxt pc show "previous_in_page (cs' (next_in_page (cs c))) = x
                 \<and> next_in_page (cs' (next_in_page (cs c))) = next_in_page (cs (next_in_page (cs c)))"
        by simp
    qed
    with x ys prv pc show ?thesis by simp
  next
    case False
    have "previous_in_page (cs c) \<in> set xs"
      using chain_prev_in [OF sub x(5)] False by auto
    with x have xp: "x \<noteq> previous_in_page (cs c)" by auto
    have "next_in_page (cs c) = 0 \<or> next_in_page (cs c) \<in> set xs"
      by (rule chain_next_in [OF sub x(5)])
    with x have xn: "x \<noteq> next_in_page (cs c)" by auto
    from same [OF xp xn x(4)] have eq: "next_in_page (cs' x) = next_in_page (cs x)"
      "previous_in_page (cs' x) = previous_in_page (cs x)" by auto
    have "chain cs' x (next_in_page (cs x)) (remove1 c xs)"
      using Cons.IH [OF sub x(7) x(5)] False by auto
    with x eq show ?thesis by simp
  qed
qed

lemma chain_split:
  "chain cs prv h (ys @ c # zs) \<Longrightarrow>
   previous_in_page (cs c) = (if ys = [] then prv else last ys)
   \<and> next_in_page (cs c) = (case zs of [] \<Rightarrow> 0 | z # _ \<Rightarrow> z)"
proof (induction ys arbitrary: prv h)
  case Nil
  then show ?case by (cases zs) auto
next
  case (Cons y ys)
  then have "chain cs y (next_in_page (cs y)) (ys @ c # zs)" by simp
  from Cons.IH [OF this] show ?case by simp
qed

subsection \<open>Adding and removing a cursor\<close>

text \<open>What \<open>page_remove_cursor\<close> and \<open>page_add_cursor\<close> leave alone.\<close>

lemma page_remove_cursor_frame:
  "page_node (page_remove_cursor p c st) = page_node st"
  "page_dirty (page_remove_cursor p c st) = page_dirty st"
  "alloc_count (page_remove_cursor p c st) = alloc_count st"
  "q \<noteq> p \<Longrightarrow> page_cursors (page_remove_cursor p c st) q = page_cursors st q"
  by (simp_all add: page_remove_cursor_def accessor_defs Let_def)

lemma page_remove_cursor_fields:
  "is_coupled_to_txnop (cursors (page_remove_cursor p c st) x) = is_coupled_to_txnop (cursors st x)"
  "bc_parent (cursors (page_remove_cursor p c st) x) = bc_parent (cursors st x)"
  "bc_flags (cursors (page_remove_cursor p c st) x) = bc_flags (cursors st x)"
  "bc_coupled_page (cursors (page_remove_cursor p c st) x) = bc_coupled_page (cursors st x)"
  "bc_coupled_index (cursors (page_remove_cursor p c st) x) = bc_coupled_index (cursors st x)"
  "bc_uncoupled_key (cursors (page_remove_cursor p c st) x) = bc_uncoupled_key (cursors st x)"
  "bc_dupe_id (cursors (page_remove_cursor p c st) x) = bc_dupe_id (cursors st x)"
  "bc_dupe_cache (cursors (page_remove_cursor p c st) x) = bc_dupe_cache (cursors st x)"
  by (simp_all add: page_remove_cursor_def accessor_defs Let_def)

lemma page_add_cursor_frame:
  "page_node (page_add_cursor p c st) = page_node st"
  "page_dirty (page_add_cursor p c st) = page_dirty st"
  "alloc_count (page_add_cursor p c st) = alloc_count st"
  "q \<noteq> p \<Longrightarrow> page_cursors (page_add_cursor p c st) q = page_cursors st q"
  "page_cursors (page_add_cursor p c st) p = c"
  by (simp_all add: page_add_cursor_def accessor_defs Let_def)

lemma page_add_cursor_fields:
  "is_coupled_to_txnop (cursors (page_add_cursor p c st) x) = is_coupled_to_txnop (cursors st x)"
  "bc_parent (cursors (page_add_cursor p c st) x) = bc_parent (cursors st x)"
  "bc_flags (cursors (page_add_cursor p c st) x) = bc_flags (cursors st x)"
  "bc_coupled_page (cursors (page_add_cursor p c st) x) = bc_coupled_page (cursors st x)"
  "bc_coupled_index (cursors (page_add_cursor p c st) x) = bc_coupled_index (cursors st x)"
  "bc_uncoupled_key (cursors (page_add_cursor p c st) x) = bc_uncoupled_key (cursors st x)"
  "bc_dupe_id (cursors (page_add_cursor p c st) x) = bc_dupe_id (cursors st x)"
  "bc_dupe_cache (cursors (page_add_cursor p c st) x) = bc_dupe_cache (cursors st x)"
  by (simp_all add: page_add_cursor_def accessor_defs Let_def)

lemma prc_other:
  "x \<noteq> c \<Longrightarrow> x \<noteq> next_in_page (cursors st c) \<Longrightarrow> x \<noteq> previous_in_page (cursors st c)
   \<Longrightarrow> cursors (page_remove_cursor p c st) x = cursors st x"
  by (auto simp: page_remove_cursor_def accessor_defs Let_def)

lemma prc_other0:
  "x \<noteq> c \<Longrightarrow> next_in_page (cursors st c) = 0 \<Longrightarrow> x \<noteq> previous_in_page (cursors st c)
   \<Longrightarrow> cursors (page_remove_cursor p c st) x = cursors st x"
  by (auto simp: page_remove_cursor_def accessor_defs Let_def)

lemma prc_other1:
  "x \<noteq> c \<Longrightarrow> x \<noteq> next_in_page (cursors st c) \<Longrightarrow> previous_in_page (cursors st c) = 0
   \<Longrightarrow> cursors (page_remove_cursor p c st) x = cursors st x"
  by (auto simp: page_remove_cursor_def accessor_defs Let_def)

lemma prc_other2:
  "x \<noteq> c \<Longrightarrow> next_in_page (cursors st c) = 0 \<Longrightarrow> previous_in_page (cursors st c) = 0
   \<Longrightarrow> cursors (page_remove_cursor p c st) x = cursors st x"
  by (auto simp: page_remove_cursor_def accessor_defs Let_def)

lemma prc_head_other:
  "page_cursors st p = c \<Longrightarrow> x \<noteq> c \<Longrightarrow> x \<noteq> next_in_page (cursors st c)
   \<Longrightarrow> cursors (page_remove_cursor p c st) x = cursors st x"
  by (auto simp: page_remove_cursor_def accessor_defs Let_def)

lemma prc_head_next:
  "page_cursors st p = c \<Longrightarrow> next_in_page (cursors st c) \<noteq> 0 \<Longrightarrow> next_in_page (cursors st c) \<noteq> c
   \<Longrightarrow> cursors (page_remove_cursor p c st) (next_in_page (cursors st c))
       = (cursors st (next_in_page (cursors st c)))\<lparr>previous_in_page := 0\<rparr>"
  by (auto simp: page_remove_cursor_def accessor_defs Let_def)

lemma prc_head_head:
  "page_cursors st p = c \<Longrightarrow> page_cursors (page_remove_cursor p c st) p = next_in_page (cursors st c)"
  by (auto simp: page_remove_cursor_def accessor_defs Let_def)

lemma prc_mid_head:
  "page_cursors st p \<noteq> c \<Longrightarrow> page_cursors (page_remove_cursor p c st) p = page_cursors st p"
  by (auto simp: page_remove_cursor_def accessor_defs Let_def)

lemma prc_mid_prev:
  "page_cursors st p \<noteq> c \<Longrightarrow> previous_in_page (cursors st c) \<noteq> 0
   \<Longrightarrow> previous_in_page (cursors st c) \<noteq> c
   \<Longrightarrow> previous_in_page (cursors st c) \<noteq> next_in_page (cursors st c)
   \<Longrightarrow> cursors (page_remove_cursor p c st) (previous_in_page (cursors st c))
       = (cursors st (previous_in_page (cursors st c)))
           \<lparr>next_in_page := next_in_page (cursors st c)\<rparr>"
  by (auto simp: page_remove_cursor_def accessor_defs Let_def)

lemma prc_mid_next:
  "page_cursors st p \<noteq> c \<Longrightarrow> next_in_page (cursors st c) \<noteq> 0
   \<Longrightarrow> next_in_page (cursors st c) \<noteq> c
   \<Longrightarrow> previous_in_page (cursors st c) \<noteq> next_in_page (cursors st c)
   \<Longrightarrow> cursors (page_remove_cursor p c st) (next_in_page (cursors st c))
       = (cursors st (next_in_page (cursors st c)))
           \<lparr>previous_in_page := previous_in_page (cursors st c)\<rparr>"
  by (auto simp: page_remove_cursor_def accessor_defs Let_def)

lemma prc_self:
  "next_in_page (cursors (page_remove_cursor p c st) c) = 0"
  "previous_in_page (cursors (page_remove_cursor p c st) c) = 0"
  by (simp_all add: page_remove_cursor_def accessor_defs Let_def)

lemma page_remove_cursor_list:
  assumes l: "cursor_list st p xs" and c: "c \<in> set xs"
  shows "cursor_list (page_remove_cursor p c st) p (remove1 c xs)"
    and "\<And>x. x \<notin> set xs \<Longrightarrow> cursors (page_remove_cursor p c st) x = cursors st x"
proof -
  let ?cs = "cursors st" and ?cs' = "cursors (page_remove_cursor p c st)"
  from c obtain ys zs where xs: "xs = ys @ c # zs" by (auto dest: split_list)
  from l have d: "distinct xs" and ch: "chain ?cs 0 (page_cursors st p) xs"
    by (simp_all add: cursor_list_def)
  from d xs have cys: "c \<notin> set ys" "c \<notin> set zs" by auto
  have nz: "0 \<notin> set xs" using ch by (rule chain_nonzero)
  from chain_split [OF ch [unfolded xs]]
  have pn: "previous_in_page (?cs c) = (if ys = [] then 0 else last ys)"
    "next_in_page (?cs c) = (case zs of [] \<Rightarrow> 0 | z # _ \<Rightarrow> z)" by auto
  have nset: "next_in_page (?cs c) = 0 \<or> next_in_page (?cs c) \<in> set zs"
    using pn by (cases zs) auto
  have pset: "previous_in_page (?cs c) = 0 \<or> previous_in_page (?cs c) \<in> set ys"
    using pn by auto
  have ncz: "next_in_page (?cs c) \<noteq> c" using nset nz cys xs by auto
  have pcz: "previous_in_page (?cs c) \<noteq> c" using pset nz cys xs by auto
  have pnz: "previous_in_page (?cs c) = 0 \<or> previous_in_page (?cs c) \<noteq> next_in_page (?cs c)"
    using pset nset d xs by auto
  show "\<And>x. x \<notin> set xs \<Longrightarrow> ?cs' x = ?cs x"
  proof -
    fix x assume x: "x \<notin> set xs"
    then have xc: "x \<noteq> c" using c by auto
    from x xs nset have xn: "next_in_page (?cs c) = 0 \<or> x \<noteq> next_in_page (?cs c)" by auto
    from x xs pset have xp: "previous_in_page (?cs c) = 0 \<or> x \<noteq> previous_in_page (?cs c)" by auto
    from xc xn xp show "?cs' x = ?cs x"
      by (metis prc_other prc_other0 prc_other1 prc_other2)
  qed
  have r: "remove1 c xs = ys @ zs" using xs cys by (simp add: remove1_append)
  show "cursor_list (page_remove_cursor p c st) p (remove1 c xs)"
  proof (cases "ys = []")
    case True
    with xs ch have hd: "page_cursors st p = c" by simp
    have "chain ?cs' 0 (next_in_page (?cs c)) zs"
    proof (rule chain_unlink_head [where cs = ?cs and c = c])
      show "chain ?cs 0 c (c # zs)" using ch xs True by simp
      show "distinct (c # zs)" using d xs True by simp
    next
      fix x assume "x \<in> set zs" "x \<noteq> next_in_page (?cs c)"
      with cys have "?cs' x = ?cs x" by (intro prc_head_other [OF hd]) auto
      then show "next_in_page (?cs' x) = next_in_page (?cs x)
        \<and> previous_in_page (?cs' x) = previous_in_page (?cs x)" by simp
    next
      assume "next_in_page (?cs c) \<noteq> 0"
      from prc_head_next [OF hd this ncz]
      show "previous_in_page (?cs' (next_in_page (?cs c))) = 0
        \<and> next_in_page (?cs' (next_in_page (?cs c))) = next_in_page (?cs (next_in_page (?cs c)))"
        by simp
    qed
    then show ?thesis using d r True xs prc_head_head [OF hd] by (simp add: cursor_list_def)
  next
    case False
    then have hd: "page_cursors st p = hd ys" using ch xs by (cases ys) auto
    with False cys have hc: "page_cursors st p \<noteq> c" by (cases ys) auto
    have pl: "previous_in_page (?cs c) = last ys" using pn False by simp
    have ply: "last ys \<in> set ys" using False by simp
    have "0 \<notin> set ys" using nz xs by simp
    with ply have "last ys \<noteq> 0" by metis
    with pl have pz: "previous_in_page (?cs c) \<noteq> 0" by simp
    with pnz have pn': "previous_in_page (?cs c) \<noteq> next_in_page (?cs c)" by simp
    have "chain ?cs' 0 (page_cursors st p) (remove1 c xs)"
    proof (rule chain_unlink_mid [where cs = ?cs, OF ch d c hc])
      fix x assume "x \<noteq> previous_in_page (?cs c)" "x \<noteq> next_in_page (?cs c)" "x \<noteq> c"
      then have "?cs' x = ?cs x" by (intro prc_other) auto
      then show "next_in_page (?cs' x) = next_in_page (?cs x)
        \<and> previous_in_page (?cs' x) = previous_in_page (?cs x)" by simp
    next
      from prc_mid_prev [OF hc pz pcz pn']
      show "next_in_page (?cs' (previous_in_page (?cs c))) = next_in_page (?cs c)
            \<and> previous_in_page (?cs' (previous_in_page (?cs c)))
              = previous_in_page (?cs (previous_in_page (?cs c)))"
        by simp
    next
      assume "next_in_page (?cs c) \<noteq> 0"
      from prc_mid_next [OF hc this ncz pn']
      show "previous_in_page (?cs' (next_in_page (?cs c))) = previous_in_page (?cs c)
            \<and> next_in_page (?cs' (next_in_page (?cs c))) = next_in_page (?cs (next_in_page (?cs c)))"
        by simp
    qed
    then show ?thesis using d prc_mid_head [OF hc] by (simp add: cursor_list_def)
  qed
qed

lemma pac_self:
  "page_cursors st p \<noteq> c \<Longrightarrow>
   next_in_page (cursors (page_add_cursor p c st) c) = page_cursors st p
   \<and> previous_in_page (cursors (page_add_cursor p c st) c) = 0"
  by (auto simp: page_add_cursor_def accessor_defs Let_def)

lemma pac_head:
  "page_cursors st p \<noteq> c \<Longrightarrow> page_cursors st p \<noteq> 0 \<Longrightarrow>
   cursors (page_add_cursor p c st) (page_cursors st p)
     = (cursors st (page_cursors st p))\<lparr>previous_in_page := c\<rparr>"
  by (auto simp: page_add_cursor_def accessor_defs Let_def)

lemma pac_other:
  "x \<noteq> c \<Longrightarrow> x \<noteq> page_cursors st p \<or> page_cursors st p = 0 \<Longrightarrow>
   cursors (page_add_cursor p c st) x = cursors st x"
  by (auto simp: page_add_cursor_def accessor_defs Let_def)

lemma cursor_list_frame:
  assumes "cursor_list st q ys"
    and "\<And>y. y \<in> set ys \<Longrightarrow> cursors st' y = cursors st y"
    and "page_cursors st' q = page_cursors st q"
  shows "cursor_list st' q ys"
proof -
  have "chain (cursors st') 0 (page_cursors st q) ys = chain (cursors st) 0 (page_cursors st q) ys"
    by (rule chain_cong) (simp add: assms)
  with assms show ?thesis by (simp add: cursor_list_def)
qed

lemma page_add_cursor_list:
  assumes l: "cursor_list st p xs" and c: "c \<notin> set xs" "c \<noteq> 0"
  shows "cursor_list (page_add_cursor p c st) p (c # xs)"
    and "\<And>x. x \<notin> set xs \<Longrightarrow> x \<noteq> c \<Longrightarrow> cursors (page_add_cursor p c st) x = cursors st x"
proof -
  let ?cs = "cursors st" and ?cs' = "cursors (page_add_cursor p c st)"
  from l have d: "distinct xs" and ch: "chain ?cs 0 (page_cursors st p) xs"
    by (simp_all add: cursor_list_def)
  have hd: "page_cursors st p = (case xs of [] \<Rightarrow> 0 | x # _ \<Rightarrow> x)"
    using ch by (rule chain_head)
  have hc: "page_cursors st p \<noteq> c" using hd c by (cases xs) auto
  have hx: "page_cursors st p = 0 \<or> page_cursors st p \<in> set xs" using hd by (cases xs) auto
  show "\<And>x. x \<notin> set xs \<Longrightarrow> x \<noteq> c \<Longrightarrow> ?cs' x = ?cs x"
    using hx by (intro pac_other) auto
  have "chain ?cs' c (page_cursors st p) xs"
  proof (cases xs)
    case Nil
    with ch show ?thesis by simp
  next
    case (Cons y ys)
    with ch have y: "page_cursors st p = y" "y \<noteq> 0" "chain ?cs y (next_in_page (?cs y)) ys"
      by auto
    from pac_head [OF hc] y have yc: "?cs' y = (?cs y)\<lparr>previous_in_page := c\<rparr>" by simp
    have "chain ?cs' y (next_in_page (?cs y)) ys = chain ?cs y (next_in_page (?cs y)) ys"
    proof (rule chain_cong)
      fix x assume "x \<in> set ys"
      with d Cons c y have "?cs' x = ?cs x" by (intro pac_other) auto
      then show "next_in_page (?cs' x) = next_in_page (?cs x)
        \<and> previous_in_page (?cs' x) = previous_in_page (?cs x)" by simp
    qed
    with y yc Cons show ?thesis by simp
  qed
  with pac_self [OF hc] c d show "cursor_list (page_add_cursor p c st) p (c # xs)"
    by (simp add: cursor_list_def page_add_cursor_frame)
qed

lemma payload_eq:
  "payload a = payload b \<longleftrightarrow>
     is_coupled_to_txnop a = is_coupled_to_txnop b \<and> bc_parent a = bc_parent b
     \<and> bc_flags a = bc_flags b \<and> bc_coupled_page a = bc_coupled_page b
     \<and> bc_coupled_index a = bc_coupled_index b \<and> bc_uncoupled_key a = bc_uncoupled_key b
     \<and> bc_dupe_id a = bc_dupe_id b \<and> bc_dupe_cache a = bc_dupe_cache b"
  by (cases a, cases b) (auto simp: payload_def)

lemma payload_remove [simp]:
  "payload (cursors (page_remove_cursor p c st) x) = payload (cursors st x)"
  by (simp add: payload_eq page_remove_cursor_fields)

lemma payload_add [simp]:
  "payload (cursors (page_add_cursor p c st) x) = payload (cursors st x)"
  by (simp add: payload_eq page_add_cursor_fields)

lemma coupled_to_payload:
  "payload (cursors st' c) = payload (cursors st c) \<Longrightarrow> coupled_to st' p c = coupled_to st p c"
  by (simp add: payload_eq coupled_to_def accessor_defs)

lemma cursor_list_alloc:
  "cursor_list (st\<lparr>alloc_count := n\<rparr>) p xs = cursor_list st p xs"
  by (rule cursor_list_cong) simp_all

lemma cursor_list_upd_payload:
  assumes "\<And>x. next_in_page (f x) = next_in_page x" "\<And>x. previous_in_page (f x) = previous_in_page x"
  shows "cursor_list (upd_cursor c f st) p xs = cursor_list st p xs"
  by (rule cursor_list_cong) (simp_all add: upd_cursor_def assms)

subsection \<open>Uncoupling a coupled cursor\<close>

lemma uncouple_coupled_eq:
  assumes w: "coupled_to st p c"
  shows "btree_cursor_uncouple E c 0 st =
     (if \<not> calloc_ok E (alloc_count st)
      then (HAM_OUT_OF_MEMORY, st\<lparr>alloc_count := Suc (alloc_count st)\<rparr>)
      else if int2pub_status E (coupled_entry st c) \<noteq> 0
      then (int2pub_status E (coupled_entry st c), st\<lparr>alloc_count := Suc (alloc_count st)\<rparr>)
      else (0, upd_cursor c
                 (\<lambda>x. x\<lparr>bc_flags := (bc_flags x AND NOT BTREE_CURSOR_FLAG_COUPLED)
                                      OR BTREE_CURSOR_FLAG_UNCOUPLED,
                         bc_uncoupled_key := Some (key_bytes (coupled_entry st c))\<rparr>)
                 (page_remove_cursor p c (st\<lparr>alloc_count := Suc (alloc_count st)\<rparr>))))"
proof -
  let ?st1 = "st\<lparr>alloc_count := Suc (alloc_count st)\<rparr>"
  from w have f: "btree_cursor_is_coupled st c" "\<not> btree_cursor_is_uncoupled st c"
    "btree_cursor_get_coupled_page ?st1 c = p" "btree_cursor_get_parent ?st1 c = c"
    by (simp_all add: coupled_to_def accessor_defs)
  then have n: "\<not> btree_cursor_is_nil st c" by (simp add: btree_cursor_is_nil_def)
  show ?thesis
    using f n
    by (simp add: btree_cursor_uncouple_def allocator_calloc_def btree_copy_key_int2pub_def
        BTREE_CURSOR_UNCOUPLE_NO_REMOVE_def Let_def)
       (simp add: accessor_defs page_remove_cursor_fields)
qed

lemma uncouple_effect:
  assumes cl: "cursor_list st p xs" and c: "c \<in> set xs" and w: "coupled_to st p c"
    and ok: "calloc_ok E (alloc_count st)" "int2pub_status E (coupled_entry st c) = 0"
  shows "fst (btree_cursor_uncouple E c 0 st) = 0"
    and "cursor_list (snd (btree_cursor_uncouple E c 0 st)) p (remove1 c xs)"
    and "\<And>x. x \<notin> set xs \<Longrightarrow> cursors (snd (btree_cursor_uncouple E c 0 st)) x = cursors st x"
    and "\<And>x. x \<noteq> c \<Longrightarrow>
           payload (cursors (snd (btree_cursor_uncouple E c 0 st)) x) = payload (cursors st x)"
    and "cursors (snd (btree_cursor_uncouple E c 0 st)) c
           = (cursors st c)\<lparr>next_in_page := 0, previous_in_page := 0,
               bc_flags := (bc_flags (cursors st c) AND NOT BTREE_CURSOR_FLAG_COUPLED)
                             OR BTREE_CURSOR_FLAG_UNCOUPLED,
               bc_uncoupled_key := Some (key_bytes (coupled_entry st c))\<rparr>"
    and "page_node (snd (btree_cursor_uncouple E c 0 st)) = page_node st"
    and "\<And>q. q \<noteq> p \<Longrightarrow> page_cursors (snd (btree_cursor_uncouple E c 0 st)) q = page_cursors st q"
proof -
  let ?st1 = "st\<lparr>alloc_count := Suc (alloc_count st)\<rparr>"
  let ?st2 = "page_remove_cursor p c ?st1"
  let ?f = "\<lambda>x. x\<lparr>bc_flags := (bc_flags x AND NOT BTREE_CURSOR_FLAG_COUPLED)
                                      OR BTREE_CURSOR_FLAG_UNCOUPLED,
                         bc_uncoupled_key := Some (key_bytes (coupled_entry st c))\<rparr>"
  have eq: "btree_cursor_uncouple E c 0 st = (0, upd_cursor c ?f ?st2)"
    using uncouple_coupled_eq [OF w, of E] ok by simp
  have l1: "cursor_list ?st1 p xs" using cl by (simp add: cursor_list_alloc)
  note rm = page_remove_cursor_list [OF l1 c]
  show "fst (btree_cursor_uncouple E c 0 st) = 0" using eq by simp
  show "cursor_list (snd (btree_cursor_uncouple E c 0 st)) p (remove1 c xs)"
    using rm(1) by (simp add: eq cursor_list_upd_payload)
  show "\<And>x. x \<notin> set xs \<Longrightarrow> cursors (snd (btree_cursor_uncouple E c 0 st)) x = cursors st x"
    using rm(2) c by (auto simp: eq upd_cursor_def)
  show "\<And>x. x \<noteq> c \<Longrightarrow>
           payload (cursors (snd (btree_cursor_uncouple E c 0 st)) x) = payload (cursors st x)"
    using payload_remove [of p c ?st1] by (simp add: eq upd_cursor_def)
  have "payload (cursors ?st2 c) = payload (cursors st c)"
    using payload_remove [of p c ?st1 c] by simp
  moreover have "next_in_page (cursors ?st2 c) = 0" "previous_in_page (cursors ?st2 c) = 0"
    by (rule prc_self)+
  ultimately have "cursors ?st2 c = (cursors st c)\<lparr>next_in_page := 0, previous_in_page := 0\<rparr>"
    by (cases "cursors ?st2 c", cases "cursors st c") (simp add: payload_def)
  then show "cursors (snd (btree_cursor_uncouple E c 0 st)) c
           = (cursors st c)\<lparr>next_in_page := 0, previous_in_page := 0,
               bc_flags := (bc_flags (cursors st c) AND NOT BTREE_CURSOR_FLAG_COUPLED)
                             OR BTREE_CURSOR_FLAG_UNCOUPLED,
               bc_uncoupled_key := Some (key_bytes (coupled_entry st c))\<rparr>"
    by (simp add: eq upd_cursor_def)
  show "page_node (snd (btree_cursor_uncouple E c 0 st)) = page_node st"
    by (simp add: eq upd_cursor_def page_remove_cursor_frame)
  show "\<And>q. q \<noteq> p \<Longrightarrow> page_cursors (snd (btree_cursor_uncouple E c 0 st)) q = page_cursors st q"
    by (simp add: eq upd_cursor_def page_remove_cursor_frame)
qed

lemma uncoupled_copy_cong:
  "payload (cursors st1 x) = payload (cursors st x) \<Longrightarrow> page_node st1 = page_node st
   \<Longrightarrow> uncoupled_copy st1 x = uncoupled_copy st x"
  by (cases "cursors st1 x", cases "cursors st x")
     (simp add: uncoupled_copy_def payload_def accessor_defs)

lemma index_payload:
  "payload (cursors st1 x) = payload (cursors st x)
   \<Longrightarrow> btree_cursor_get_coupled_index st1 x = btree_cursor_get_coupled_index st x"
  by (simp add: payload_eq accessor_defs)

lemma clear_links_idem:
  "next_in_page (cursors st z) = 0 \<Longrightarrow> previous_in_page (cursors st z) = 0
   \<Longrightarrow> set_previous_in_page z 0 (set_next_in_page z 0 st) = st"
  by (cases st, cases "cursors st z") (auto simp: accessor_defs fun_eq_iff)

lemma uncoupled_copy_flags:
  "cursors st' z = uncoupled_copy st z \<Longrightarrow>
   btree_cursor_is_uncoupled st' z \<and> \<not> btree_cursor_is_coupled st' z
   \<and> btree_cursor_get_uncoupled_key st' z = Some (key_bytes (coupled_entry st z))
   \<and> next_in_page (cursors st' z) = 0 \<and> previous_in_page (cursors st' z) = 0
   \<and> btree_cursor_get_coupled_index st' z = btree_cursor_get_coupled_index st z
   \<and> btree_cursor_get_dupe_id st' z = btree_cursor_get_dupe_id st z"
  by (simp add: uncoupled_copy_def btree_cursor_is_uncoupled_def btree_cursor_is_coupled_def
      btree_cursor_get_flags_def btree_cursor_get_uncoupled_key_def
      btree_cursor_get_coupled_index_def btree_cursor_get_dupe_id_def)

lemma example_list: "cursor_list example_store 1 [1, 2, 3]"
  by (simp add: cursor_list_def example_defs)

lemma example_coupled: "\<forall>z\<in>set [1, 2, 3]. coupled_to example_store 1 z"
  by (simp add: coupled_to_def accessor_defs example_defs flag_defs)

section \<open>The size of the record under a cursor\<close>

lemma btree_find_cursor_datasize:
  "btree_find_cursor (E\<lparr>get_datasize := f\<rparr>) c k fl st = btree_find_cursor E c k fl st"
  by (simp add: btree_find_cursor_def)

lemma couple_or_nil_datasize:
  "couple_or_nil (E\<lparr>get_datasize := f\<rparr>) c st = couple_or_nil E c st"
  by (simp add: couple_or_nil_def btree_cursor_couple_def btree_cursor_find_def
      btree_find_cursor_datasize db_copy_key_def split: prod.splits)

lemma high_byte_ucast:
  "(ucast (ucast (drop_bit 56 (rid :: 64 word)) :: 8 word) :: 64 word) = drop_bit 56 rid"
  by (rule bit_word_eqI) (auto simp: bit_simps dest: bit_imp_le_length)

lemma top_bit_clear:
  assumes "(rid :: 64 word) < 2 ^ 63" shows "\<not> bit rid 63"
proof -
  have "rid AND mask 63 = rid" using assms by (rule less_mask_eq)
  then have "bit rid 63 = bit (rid AND mask 63) 63" by simp
  then show ?thesis by (simp add: bit_simps)
qed

lemma high_byte_scast:
  assumes "rid < 2 ^ 63"
  shows "(scast (ucast (drop_bit 56 (rid :: 64 word)) :: 8 word) :: 64 word) = drop_bit 56 rid"
proof (rule bit_word_eqI)
  fix n assume n: "n < LENGTH(64)"
  have nb: "\<not> bit rid 63" using assms by (rule top_bit_clear)
  show "bit (scast (ucast (drop_bit 56 rid) :: 8 word) :: 64 word) n = bit (drop_bit 56 rid) n"
  proof (cases "n < 8")
    case True
    then have "min 7 n = n" by simp
    with n True show ?thesis by (simp add: bit_simps)
  next
    case False
    then have m: "min 7 n = 7" by simp
    have "\<not> bit rid (56 + n)" using False by (auto dest: bit_imp_le_length)
    with n nb m show ?thesis by (simp add: bit_simps)
  qed
qed

lemma high_byte_value:
  "\<not> char_is_signed E \<or> rid < 2 ^ 63 \<Longrightarrow>
   char_to_offset E (ucast (drop_bit 56 rid)) = drop_bit 56 rid"
  by (auto simp: char_to_offset_def high_byte_ucast high_byte_scast)

text \<open>
  The cases of \<open>btree_cursor_get_record_size\<close>. With a backend, and the cursor
  positioned (coupled, or uncoupled and coupled again by the call), the function reads the
  flags and the record id of the current duplicate entry (fetched with the cursor's
  duplicate index) when the key entry has duplicates, and the key entry's own otherwise.
  In this order: with \<open>KEY_BLOB_SIZE_TINY\<close> the size is the highest byte of the record id,
  read as a plain \<open>char\<close> (it is the number in that byte unless \<open>char\<close> is signed and the
  byte is \<open>128\<close> or more); with \<open>KEY_BLOB_SIZE_SMALL\<close> it is \<open>sizeof(ham_offset_t) = 8\<close>;
  with \<open>KEY_BLOB_SIZE_EMPTY\<close> it is \<open>0\<close>, whatever \<open>blob_get_datasize\<close> would answer; in
  every other case status and size are those of \<open>blob_get_datasize\<close> for the record id.
\<close>

theorem record_size_cases:
  assumes be: "backend E"
    and pos: "couple_or_nil E c st = (0, st0)"
    and src: "if key_flags (coupled_entry st0 c) AND KEY_HAS_DUPLICATES \<noteq> 0
              then duplicate_get E (key_ptr (coupled_entry st0 c)) (btree_cursor_get_dupe_id st0 c)
                     dupe_entry_zero = (0, d) \<and> keyflags = dupe_flags d \<and> rid = dupe_rid d
              else keyflags = key_flags (coupled_entry st0 c) \<and> rid = key_ptr (coupled_entry st0 c)"
  shows "(keyflags AND KEY_BLOB_SIZE_TINY \<noteq> 0 \<longrightarrow>
            btree_cursor_get_record_size E c sz st
              = (0, char_to_offset E (ucast (drop_bit 56 rid)), st0)
            \<and> (\<not> char_is_signed E \<or> rid < 2 ^ 63 \<longrightarrow>
                 fst (snd (btree_cursor_get_record_size E c sz st)) = drop_bit 56 rid))
     \<and> (keyflags AND KEY_BLOB_SIZE_TINY = 0 \<and> keyflags AND KEY_BLOB_SIZE_SMALL \<noteq> 0 \<longrightarrow>
            btree_cursor_get_record_size E c sz st = (0, 8, st0))
     \<and> (keyflags AND KEY_BLOB_SIZE_TINY = 0 \<and> keyflags AND KEY_BLOB_SIZE_SMALL = 0
          \<and> keyflags AND KEY_BLOB_SIZE_EMPTY \<noteq> 0 \<longrightarrow>
            (\<forall>f. btree_cursor_get_record_size (E\<lparr>get_datasize := f\<rparr>) c sz st = (0, 0, st0)))
     \<and> (keyflags AND KEY_BLOB_SIZE_TINY = 0 \<and> keyflags AND KEY_BLOB_SIZE_SMALL = 0
          \<and> keyflags AND KEY_BLOB_SIZE_EMPTY = 0 \<longrightarrow>
            btree_cursor_get_record_size E c sz st
              = (fst (get_datasize E rid sz), snd (get_datasize E rid sz), st0))"
proof (cases "key_flags (coupled_entry st0 c) AND KEY_HAS_DUPLICATES \<noteq> 0")
  case True
  with src have "duplicate_get E (key_ptr (coupled_entry st0 c)) (btree_cursor_get_dupe_id st0 c)
                     dupe_entry_zero = (0, d)" "keyflags = dupe_flags d" "rid = dupe_rid d" by simp_all
  with be pos True show ?thesis
    by (simp add: btree_cursor_get_record_size_def couple_or_nil_datasize sizeof_ham_offset_t_def
        rid_byte_def high_byte_value split: prod.splits)
next
  case False
  with src have "keyflags = key_flags (coupled_entry st0 c)" "rid = key_ptr (coupled_entry st0 c)" by simp_all
  with be pos False show ?thesis
    by (simp add: btree_cursor_get_record_size_def couple_or_nil_datasize sizeof_ham_offset_t_def
        rid_byte_def high_byte_value split: prod.splits)
qed

theorem record_size_cases_witness:
  "btree_cursor_get_record_size example_env 1 0 example_store = (0, 5, example_store)
   \<and> btree_cursor_get_record_size (example_env\<lparr>get_datasize := \<lambda>_ _. (HAM_OUT_OF_MEMORY, 77)\<rparr>)
         2 9 example_store = (0, 0, example_store)"
proof -
  have be: "backend example_env" by (simp add: example_defs)
  have p1: "couple_or_nil example_env 1 example_store = (0, example_store)"
    and p2: "couple_or_nil example_env 2 example_store = (0, example_store)"
    by (simp_all add: couple_or_nil_def accessor_defs example_defs flag_defs)
  have s1: "if key_flags (coupled_entry example_store 1) AND KEY_HAS_DUPLICATES \<noteq> 0
      then duplicate_get example_env (key_ptr (coupled_entry example_store 1))
             (btree_cursor_get_dupe_id example_store 1) dupe_entry_zero = (0, dupe_entry_zero)
           \<and> 1 = dupe_flags dupe_entry_zero \<and> 0x0500000000000000 = dupe_rid dupe_entry_zero
      else 1 = key_flags (coupled_entry example_store 1)
           \<and> 0x0500000000000000 = key_ptr (coupled_entry example_store 1)"
    by (simp add: accessor_defs example_defs flag_defs)
  have s2: "if key_flags (coupled_entry example_store 2) AND KEY_HAS_DUPLICATES \<noteq> 0
      then duplicate_get example_env (key_ptr (coupled_entry example_store 2))
             (btree_cursor_get_dupe_id example_store 2) dupe_entry_zero = (0, dupe_entry_zero)
           \<and> 4 = dupe_flags dupe_entry_zero \<and> 103 = dupe_rid dupe_entry_zero
      else 4 = key_flags (coupled_entry example_store 2)
           \<and> 103 = key_ptr (coupled_entry example_store 2)"
    by (simp add: accessor_defs example_defs flag_defs)
  from record_size_cases [OF be p1 s1, of 0] record_size_cases [OF be p2 s2, of 9]
  show ?thesis by (auto simp: flag_defs char_to_offset_def example_env_def)
qed


section \<open>Whether a cursor points to a key entry\<close>

text \<open>
  C10. \<open>btree_cursor_points_to\<close> answers with a \<open>ham_bool_t\<close>. On an uncoupled cursor
  whose coupling fails with a status \<open>s\<close>, the answer is \<open>s\<close> itself, which is not \<open>0\<close>:
  a caller that reads the answer as a truth value sees "yes". On a cursor that is neither
  coupled nor uncoupled the answer is \<open>0\<close> and nothing is changed.
\<close>

theorem points_to_status:
  "(btree_cursor_is_uncoupled st c \<and> btree_cursor_couple E c st = (s, st1) \<and> s \<noteq> 0
      \<longrightarrow> btree_cursor_points_to E c key st = (s, st1)
          \<and> fst (btree_cursor_points_to E c key st) \<noteq> 0)
   \<and> (\<not> btree_cursor_is_coupled st c \<and> \<not> btree_cursor_is_uncoupled st c
      \<longrightarrow> btree_cursor_points_to E c key st = (0, st))"
  by (simp add: btree_cursor_points_to_def)

theorem points_to_status_witness:
  "btree_cursor_points_to (example_env\<lparr>copy_key_status := \<lambda>_. HAM_OUT_OF_MEMORY\<rparr>) 5 (1, 2)
     example_store = (HAM_OUT_OF_MEMORY, example_store)
   \<and> btree_cursor_points_to example_env 4 (1, 2) example_store = (0, example_store)"
proof -
  have u: "btree_cursor_is_uncoupled example_store 5"
    "\<not> btree_cursor_is_coupled example_store 4" "\<not> btree_cursor_is_uncoupled example_store 4"
    by (simp_all add: accessor_defs example_defs flag_defs)
  have f: "btree_cursor_couple (example_env\<lparr>copy_key_status := \<lambda>_. HAM_OUT_OF_MEMORY\<rparr>) 5
             example_store = (HAM_OUT_OF_MEMORY, example_store)"
    by (simp add: btree_cursor_couple_def db_copy_key_def)
  from u f points_to_status
    [of example_store 5 "example_env\<lparr>copy_key_status := \<lambda>_. HAM_OUT_OF_MEMORY\<rparr>"
        HAM_OUT_OF_MEMORY example_store "(1, 2)"]
    points_to_status [of example_store 4 example_env 0 example_store "(1, 2)"]
  show ?thesis by simp
qed

section \<open>Moving to the next key at the end of the tree\<close>

text \<open>
  C6. With a backend, let a cursor be coupled to the last slot of a page that has no right
  sibling, and let its key offer no further duplicate: the key has no duplicates, or
  \<open>HAM_SKIP_DUPLICATES\<close> is given, or the fetch of the next duplicate answers
  \<open>HAM_KEY_NOT_FOUND\<close>. Then \<open>btree_cursor_move\<close> with the direction \<open>HAM_CURSOR_NEXT\<close>
  returns \<open>HAM_KEY_NOT_FOUND\<close>; the cursor is coupled as before, to the same page, slot and
  duplicate index, and every cursor list is as before: nothing but the cursor's duplicate
  cache has changed.
\<close>

theorem move_next_at_end:
  assumes be: "backend E"
    and dir: "flags AND HAM_CURSOR_FIRST = 0" "flags AND HAM_CURSOR_LAST = 0"
             "flags AND HAM_CURSOR_NEXT \<noteq> 0"
    and cpl: "btree_cursor_is_coupled st c" "\<not> btree_cursor_is_uncoupled st c"
    and last: "node_count (page_node st (btree_cursor_get_coupled_page st c)) \<noteq> 0"
              "btree_cursor_get_coupled_index st c
                 = node_count (page_node st (btree_cursor_get_coupled_page st c)) - 1"
    and right: "node_right (page_node st (btree_cursor_get_coupled_page st c)) = 0"
    and nodup: "key_flags (coupled_entry st c) AND KEY_HAS_DUPLICATES = 0
                \<or> flags AND HAM_SKIP_DUPLICATES \<noteq> 0
                \<or> fst (duplicate_get E (key_ptr (coupled_entry st c))
                         (btree_cursor_get_dupe_id st c + 1) dupe_entry_zero) = HAM_KEY_NOT_FOUND"
  shows "\<exists>st'. btree_cursor_move E c key record flags st = Some (HAM_KEY_NOT_FOUND, st')
           \<and> same_position st st' c
           \<and> btree_cursor_is_coupled st' c
           \<and> (\<forall>p xs. cursor_list st' p xs = cursor_list st p xs)
           \<and> (\<exists>e. st' = btree_cursor_set_dupe_cache c e st)"
proof -
  let ?st0 = "btree_cursor_set_dupe_cache c dupe_entry_zero st"
  have c0: "couple_or_nil E c ?st0 = (0, ?st0)"
    using cpl by (simp add: couple_or_nil_def accessor_defs)
  have idx: "\<not> btree_cursor_get_coupled_index st c + 1
                < node_count (page_node st (btree_cursor_get_coupled_page st c))"
    using last by simp
  have "\<exists>e. move_next E c flags ?st0 = (HAM_KEY_NOT_FOUND, btree_cursor_set_dupe_cache c e st)"
  proof (cases "key_flags (coupled_entry st c) AND KEY_HAS_DUPLICATES \<noteq> 0
                  \<and> flags AND HAM_SKIP_DUPLICATES = 0")
    case False
    then have "move_next E c flags ?st0 = (HAM_KEY_NOT_FOUND, ?st0)"
      using cpl idx right
      by (auto simp: move_next_def couple_or_nil_def accessor_defs Let_def)
    then show ?thesis by blast
  next
    case True
    with nodup have knf: "fst (duplicate_get E (key_ptr (coupled_entry st c))
                         (btree_cursor_get_dupe_id st c + 1) dupe_entry_zero) = HAM_KEY_NOT_FOUND"
      by auto
    obtain e where dg: "duplicate_get E (key_ptr (coupled_entry st c))
                         (btree_cursor_get_dupe_id st c + 1) dupe_entry_zero = (HAM_KEY_NOT_FOUND, e)"
      using knf by (cases "duplicate_get E (key_ptr (coupled_entry st c))
                         (btree_cursor_get_dupe_id st c + 1) dupe_entry_zero") auto
    have "move_next E c flags ?st0 = (HAM_KEY_NOT_FOUND, btree_cursor_set_dupe_cache c e st)"
      using cpl idx right True dg
      by (auto simp: move_next_def couple_or_nil_def blob_duplicate_get_def accessor_defs Let_def)
    then show ?thesis by blast
  qed
  then obtain e where mv: "move_next E c flags ?st0 = (HAM_KEY_NOT_FOUND, btree_cursor_set_dupe_cache c e st)"
    by blast
  have "btree_cursor_move E c key record flags st = Some (HAM_KEY_NOT_FOUND, btree_cursor_set_dupe_cache c e st)"
    using be dir mv by (simp add: btree_cursor_move_def)
  moreover have "same_position st (btree_cursor_set_dupe_cache c e st) c"
    by (simp add: same_position_def accessor_defs)
  moreover have "btree_cursor_is_coupled (btree_cursor_set_dupe_cache c e st) c"
    using cpl by (simp add: accessor_defs)
  ultimately show ?thesis by (auto simp: cursor_list_dupe_cache)
qed


theorem move_next_at_end_witness:
  "fst (the (btree_cursor_move example_env 3 True True HAM_CURSOR_NEXT example_store))
     = HAM_KEY_NOT_FOUND
   \<and> btree_cursor_is_coupled
       (snd (the (btree_cursor_move example_env 3 True True HAM_CURSOR_NEXT example_store))) 3
   \<and> btree_cursor_get_coupled_page
       (snd (the (btree_cursor_move example_env 3 True True HAM_CURSOR_NEXT example_store))) 3 = 1
   \<and> btree_cursor_get_coupled_index
       (snd (the (btree_cursor_move example_env 3 True True HAM_CURSOR_NEXT example_store))) 3 = 5
   \<and> cursor_list
       (snd (the (btree_cursor_move example_env 3 True True HAM_CURSOR_NEXT example_store))) 1
       [1, 2, 3]"
proof -
  have l: "cursor_list example_store 1 [1, 2, 3]"
    by (simp add: cursor_list_def example_defs)
  have e: "btree_cursor_get_coupled_page example_store 3 = 1"
    "btree_cursor_get_coupled_index example_store 3 = 5"
    by (simp_all add: accessor_defs example_defs)
  have "\<exists>st'. btree_cursor_move example_env 3 True True HAM_CURSOR_NEXT example_store
           = Some (HAM_KEY_NOT_FOUND, st')
           \<and> same_position example_store st' 3
           \<and> btree_cursor_is_coupled st' 3
           \<and> (\<forall>p xs. cursor_list st' p xs = cursor_list example_store p xs)
           \<and> (\<exists>e. st' = btree_cursor_set_dupe_cache 3 e example_store)"
    by (rule move_next_at_end) (simp_all add: accessor_defs example_defs flag_defs)
  then show ?thesis using l e by (auto simp: same_position_def)
qed


section \<open>Uncoupling all cursors of a page\<close>

lemma uncouple_all_loop_step:
  "z \<noteq> 0 \<Longrightarrow> btree_cursor_is_coupled st z \<Longrightarrow>
   uncouple_all_loop E start z skipped st =
     (if btree_cursor_get_coupled_index st z < start
      then uncouple_all_loop E start (next_in_page (cursors st z)) True st
      else (case btree_cursor_uncouple E z 0 st of
              (s, st1) \<Rightarrow>
                if s \<noteq> 0 then Some (s, skipped, st1)
                else uncouple_all_loop E start (next_in_page (cursors st z)) skipped
                       (set_previous_in_page z 0 (set_next_in_page z 0 st1))))"
  by (subst uncouple_all_loop.simps) (simp add: Let_def)

lemma uncouple_all_loop_ignore:
  "z \<noteq> 0 \<Longrightarrow> \<not> btree_cursor_is_coupled st z \<Longrightarrow> \<not> is_coupled_to_txnop (cursors st z) \<Longrightarrow>
   uncouple_all_loop E start z skipped st
     = uncouple_all_loop E start (next_in_page (cursors st z)) skipped st"
  by (subst uncouple_all_loop.simps) (simp add: Let_def)

lemma coupled_payload:
  "payload (cursors st' c) = payload (cursors st c) \<Longrightarrow>
   btree_cursor_is_coupled st' c = btree_cursor_is_coupled st c
   \<and> is_coupled_to_txnop (cursors st' c) = is_coupled_to_txnop (cursors st c)"
  by (simp add: payload_eq accessor_defs)

lemma uncouple_all_loop_correct:
  assumes "cursor_list st p (ys @ zs)"
    and "\<forall>z\<in>set zs. coupled_to st p z
           \<or> (\<not> btree_cursor_is_coupled st z \<and> \<not> is_coupled_to_txnop (cursors st z))"
  shows "\<exists>s sk st'.
      uncouple_all_loop E start (case zs of [] \<Rightarrow> 0 | z # _ \<Rightarrow> z) skipped st = Some (s, sk, st')
    \<and> ((\<forall>n. calloc_ok E n) \<and> (\<forall>k. int2pub_status E k = 0) \<longrightarrow> s = 0)
    \<and> (s = 0 \<longrightarrow>
          cursor_list st' p
            (ys @ filter (\<lambda>z. \<not> btree_cursor_is_coupled st z
                              \<or> btree_cursor_get_coupled_index st z < start) zs)
        \<and> sk = (skipped \<or> (\<exists>z\<in>set zs. btree_cursor_is_coupled st z
                                     \<and> btree_cursor_get_coupled_index st z < start))
        \<and> (\<forall>z\<in>set zs. \<not> (\<not> btree_cursor_is_coupled st z
                              \<or> btree_cursor_get_coupled_index st z < start)
               \<longrightarrow> cursors st' z = uncoupled_copy st z)
        \<and> (\<forall>x. x \<notin> set zs \<or> (\<not> btree_cursor_is_coupled st x
                              \<or> btree_cursor_get_coupled_index st x < start)
               \<longrightarrow> payload (cursors st' x) = payload (cursors st x))
        \<and> (\<forall>x. x \<notin> set (ys @ zs) \<longrightarrow> cursors st' x = cursors st x)
        \<and> page_node st' = page_node st
        \<and> (\<forall>q. q \<noteq> p \<longrightarrow> page_cursors st' q = page_cursors st q))"
  using assms
proof (induction zs arbitrary: ys st skipped)
  case Nil
  then show ?case by (subst uncouple_all_loop.simps) simp
next
  case (Cons z zs)
  let ?keep = "\<lambda>st z. \<not> btree_cursor_is_coupled st z
                 \<or> btree_cursor_get_coupled_index st z < start"
  let ?skip = "\<lambda>st z. btree_cursor_is_coupled st z
                 \<and> btree_cursor_get_coupled_index st z < start"
  let ?hyp = "\<lambda>st z. coupled_to st p z
                 \<or> (\<not> btree_cursor_is_coupled st z \<and> \<not> is_coupled_to_txnop (cursors st z))"
  let ?n = "case zs of [] \<Rightarrow> 0 | z # _ \<Rightarrow> z"
  from Cons.prems have cl: "cursor_list st p (ys @ z # zs)" and hz: "?hyp st z"
    and ws: "\<forall>x\<in>set zs. ?hyp st x" by simp_all
  from cl have d: "distinct (ys @ z # zs)"
    and ch: "chain (cursors st) 0 (page_cursors st p) (ys @ z # zs)"
    by (simp_all add: cursor_list_def)
  from chain_nonzero [OF ch] have z0: "z \<noteq> 0" by auto
  from chain_split [OF ch] have nx: "next_in_page (cursors st z) = ?n" by simp
  from d have zn: "z \<notin> set zs" "z \<notin> set ys" by auto
  from cl have cl': "cursor_list st p ((ys @ [z]) @ zs)" by simp
  consider (ign) "\<not> btree_cursor_is_coupled st z"
    | (kept) "btree_cursor_is_coupled st z" "btree_cursor_get_coupled_index st z < start"
    | (unc) "btree_cursor_is_coupled st z" "\<not> btree_cursor_get_coupled_index st z < start"
    by blast
  then show ?case
  proof cases
    case ign
    with hz have tx: "\<not> is_coupled_to_txnop (cursors st z)" by (auto simp: coupled_to_def)
    note step = uncouple_all_loop_ignore [OF z0 ign tx, of E start skipped, unfolded nx]
    from Cons.IH [OF cl' ws, of skipped] obtain s sk st' where
      r: "uncouple_all_loop E start ?n skipped st = Some (s, sk, st')"
      and ok: "(\<forall>n. calloc_ok E n) \<and> (\<forall>k. int2pub_status E k = 0) \<longrightarrow> s = 0"
      and post: "s = 0 \<longrightarrow>
          cursor_list st' p ((ys @ [z]) @ filter (?keep st) zs)
        \<and> sk = (skipped \<or> (\<exists>z\<in>set zs. ?skip st z))
        \<and> (\<forall>z\<in>set zs. \<not> ?keep st z \<longrightarrow> cursors st' z = uncoupled_copy st z)
        \<and> (\<forall>x. x \<notin> set zs \<or> ?keep st x \<longrightarrow> payload (cursors st' x) = payload (cursors st x))
        \<and> (\<forall>x. x \<notin> set ((ys @ [z]) @ zs) \<longrightarrow> cursors st' x = cursors st x)
        \<and> page_node st' = page_node st
        \<and> (\<forall>q. q \<noteq> p \<longrightarrow> page_cursors st' q = page_cursors st q)"
      by blast
    have "uncouple_all_loop E start z skipped st = Some (s, sk, st')"
      using step r by simp
    moreover have "s = 0 \<longrightarrow>
          cursor_list st' p (ys @ filter (?keep st) (z # zs))
        \<and> sk = (skipped \<or> (\<exists>x\<in>set (z # zs). ?skip st x))
        \<and> (\<forall>x\<in>set (z # zs). \<not> ?keep st x \<longrightarrow> cursors st' x = uncoupled_copy st x)
        \<and> (\<forall>x. x \<notin> set (z # zs) \<or> ?keep st x \<longrightarrow> payload (cursors st' x) = payload (cursors st x))
        \<and> (\<forall>x. x \<notin> set (ys @ z # zs) \<longrightarrow> cursors st' x = cursors st x)
        \<and> page_node st' = page_node st
        \<and> (\<forall>q. q \<noteq> p \<longrightarrow> page_cursors st' q = page_cursors st q)"
      using post ign by auto
    ultimately show ?thesis using ok by simp
  next
    case kept
    note step = uncouple_all_loop_step [OF z0 kept(1), of E start skipped, unfolded nx]
    from Cons.IH [OF cl' ws, of True] obtain s sk st' where
      r: "uncouple_all_loop E start ?n True st = Some (s, sk, st')"
      and ok: "(\<forall>n. calloc_ok E n) \<and> (\<forall>k. int2pub_status E k = 0) \<longrightarrow> s = 0"
      and post: "s = 0 \<longrightarrow>
          cursor_list st' p ((ys @ [z]) @ filter (?keep st) zs)
        \<and> sk = (True \<or> (\<exists>z\<in>set zs. ?skip st z))
        \<and> (\<forall>z\<in>set zs. \<not> ?keep st z \<longrightarrow> cursors st' z = uncoupled_copy st z)
        \<and> (\<forall>x. x \<notin> set zs \<or> ?keep st x \<longrightarrow> payload (cursors st' x) = payload (cursors st x))
        \<and> (\<forall>x. x \<notin> set ((ys @ [z]) @ zs) \<longrightarrow> cursors st' x = cursors st x)
        \<and> page_node st' = page_node st
        \<and> (\<forall>q. q \<noteq> p \<longrightarrow> page_cursors st' q = page_cursors st q)"
      by blast
    have "uncouple_all_loop E start z skipped st = Some (s, sk, st')"
      using step kept r by simp
    moreover have "s = 0 \<longrightarrow>
          cursor_list st' p (ys @ filter (?keep st) (z # zs))
        \<and> sk = (skipped \<or> (\<exists>x\<in>set (z # zs). ?skip st x))
        \<and> (\<forall>x\<in>set (z # zs). \<not> ?keep st x \<longrightarrow> cursors st' x = uncoupled_copy st x)
        \<and> (\<forall>x. x \<notin> set (z # zs) \<or> ?keep st x \<longrightarrow> payload (cursors st' x) = payload (cursors st x))
        \<and> (\<forall>x. x \<notin> set (ys @ z # zs) \<longrightarrow> cursors st' x = cursors st x)
        \<and> page_node st' = page_node st
        \<and> (\<forall>q. q \<noteq> p \<longrightarrow> page_cursors st' q = page_cursors st q)"
      using post kept by auto
    ultimately show ?thesis using ok by simp
  next
    case unc
    with hz have w: "coupled_to st p z" by auto
    note step = uncouple_all_loop_step [OF z0 unc(1), of E start skipped, unfolded nx]
    obtain s1 st1 where u: "btree_cursor_uncouple E z 0 st = (s1, st1)"
      by (cases "btree_cursor_uncouple E z 0 st")
    show ?thesis
    proof (cases "calloc_ok E (alloc_count st) \<and> int2pub_status E (coupled_entry st z) = 0")
      case bad: False
      with uncouple_coupled_eq [OF w, of E] u have "s1 \<noteq> 0" by (auto split: if_splits)
      with step unc u bad show ?thesis by auto
    next
      case good: True
      have zin: "z \<in> set (ys @ z # zs)" by simp
      note ef = uncouple_effect [OF cl zin w, of E, unfolded u, simplified]
      from good have ef1: "s1 = 0"
        and ef2: "cursor_list st1 p (remove1 z (ys @ z # zs))"
        and ef3: "\<And>x. x \<notin> set ys \<Longrightarrow> x \<noteq> z \<Longrightarrow> x \<notin> set zs \<Longrightarrow> cursors st1 x = cursors st x"
        and ef4: "\<And>x. x \<noteq> z \<Longrightarrow> payload (cursors st1 x) = payload (cursors st x)"
        and ef5: "cursors st1 z = uncoupled_copy st z"
        and ef6: "page_node st1 = page_node st"
        and ef7: "\<And>q. q \<noteq> p \<Longrightarrow> page_cursors st1 q = page_cursors st q"
        using ef by (simp_all add: uncoupled_copy_def)
      have rm: "remove1 z (ys @ z # zs) = ys @ zs" using zn by (simp add: remove1_append)
      have lk: "next_in_page (cursors st1 z) = 0" "previous_in_page (cursors st1 z) = 0"
        by (simp_all add: ef5 uncoupled_copy_def)
      have idem: "set_previous_in_page z 0 (set_next_in_page z 0 st1) = st1"
        by (rule clear_links_idem [OF lk])
      have cl1: "cursor_list st1 p (ys @ zs)" using ef2 rm by simp
      have same: "coupled_to st1 p x = coupled_to st p x
          \<and> btree_cursor_is_coupled st1 x = btree_cursor_is_coupled st x
          \<and> is_coupled_to_txnop (cursors st1 x) = is_coupled_to_txnop (cursors st x)
          \<and> btree_cursor_get_coupled_index st1 x = btree_cursor_get_coupled_index st x"
        if "x \<noteq> z" for x
        using coupled_to_payload [OF ef4 [OF that], of p] coupled_payload [OF ef4 [OF that]]
          index_payload [OF ef4 [OF that]] by simp
      have ws1: "\<forall>x\<in>set zs. ?hyp st1 x"
      proof
        fix x assume x: "x \<in> set zs"
        with zn have "x \<noteq> z" by auto
        from same [OF this] ws x show "?hyp st1 x" by simp
      qed
      have keep_eq: "\<And>x. x \<noteq> z \<Longrightarrow> ?keep st1 x = ?keep st x"
        using same by simp
      have skip_eq: "\<And>x. x \<noteq> z \<Longrightarrow> ?skip st1 x = ?skip st x"
        using same by simp
      from Cons.IH [OF cl1 ws1, of skipped] obtain s sk st' where
        r: "uncouple_all_loop E start ?n skipped st1 = Some (s, sk, st')"
        and ok: "(\<forall>n. calloc_ok E n) \<and> (\<forall>k. int2pub_status E k = 0) \<longrightarrow> s = 0"
        and post: "s = 0 \<longrightarrow>
            cursor_list st' p (ys @ filter (?keep st1) zs)
          \<and> sk = (skipped \<or> (\<exists>z\<in>set zs. ?skip st1 z))
          \<and> (\<forall>z\<in>set zs. \<not> ?keep st1 z \<longrightarrow> cursors st' z = uncoupled_copy st1 z)
          \<and> (\<forall>x. x \<notin> set zs \<or> ?keep st1 x \<longrightarrow> payload (cursors st' x) = payload (cursors st1 x))
          \<and> (\<forall>x. x \<notin> set (ys @ zs) \<longrightarrow> cursors st' x = cursors st1 x)
          \<and> page_node st' = page_node st1
          \<and> (\<forall>q. q \<noteq> p \<longrightarrow> page_cursors st' q = page_cursors st1 q)"
        by blast
      have res: "uncouple_all_loop E start z skipped st = Some (s, sk, st')"
        using step unc u ef1 idem r by simp
      have ke: "\<forall>x\<in>set zs. ?keep st1 x = ?keep st x"
      proof
        fix x assume "x \<in> set zs"
        with zn have "x \<noteq> z" by auto
        from keep_eq [OF this] show "?keep st1 x = ?keep st x" .
      qed
      have se: "\<forall>x\<in>set zs. ?skip st1 x = ?skip st x"
      proof
        fix x assume "x \<in> set zs"
        with zn have "x \<noteq> z" by auto
        from skip_eq [OF this] show "?skip st1 x = ?skip st x" .
      qed
      have fl: "filter (?keep st1) zs = filter (?keep st) zs"
      proof (rule filter_cong [OF refl])
        fix x assume "x \<in> set zs"
        with ke show "?keep st1 x = ?keep st x" by blast
      qed
      have nk: "\<not> ?keep st z" using unc by simp
      have "s = 0 \<longrightarrow>
            cursor_list st' p (ys @ filter (?keep st) (z # zs))
          \<and> sk = (skipped \<or> (\<exists>x\<in>set (z # zs). ?skip st x))
          \<and> (\<forall>x\<in>set (z # zs). \<not> ?keep st x \<longrightarrow> cursors st' x = uncoupled_copy st x)
          \<and> (\<forall>x. x \<notin> set (z # zs) \<or> ?keep st x \<longrightarrow> payload (cursors st' x) = payload (cursors st x))
          \<and> (\<forall>x. x \<notin> set (ys @ z # zs) \<longrightarrow> cursors st' x = cursors st x)
          \<and> page_node st' = page_node st
          \<and> (\<forall>q. q \<noteq> p \<longrightarrow> page_cursors st' q = page_cursors st q)"
      proof
        assume s0: "s = 0"
        note p = post [rule_format, OF s0]
        have a: "cursor_list st' p (ys @ filter (?keep st) (z # zs))"
          using p nk fl by simp
        have b: "sk = (skipped \<or> (\<exists>x\<in>set (z # zs). ?skip st x))"
          using p unc se by auto
        have c: "\<forall>x\<in>set (z # zs). \<not> ?keep st x \<longrightarrow> cursors st' x = uncoupled_copy st x"
        proof (intro ballI impI)
          fix x assume x: "x \<in> set (z # zs)" "\<not> ?keep st x"
          show "cursors st' x = uncoupled_copy st x"
          proof (cases "x = z")
            case True
            with zn p have "cursors st' z = cursors st1 z" by simp
            with ef5 True show ?thesis by simp
          next
            case False
            with x keep_eq [OF False] have "x \<in> set zs" "\<not> ?keep st1 x" by auto
            with p have "cursors st' x = uncoupled_copy st1 x" by blast
            with uncoupled_copy_cong [OF ef4 [OF False] ef6] show ?thesis by simp
          qed
        qed
        have e: "\<forall>x. x \<notin> set (z # zs) \<or> ?keep st x
                  \<longrightarrow> payload (cursors st' x) = payload (cursors st x)"
        proof (intro allI impI)
          fix x assume x: "x \<notin> set (z # zs) \<or> ?keep st x"
          with nk have xz: "x \<noteq> z" by auto
          with x keep_eq [OF xz] have "x \<notin> set zs \<or> ?keep st1 x" by auto
          with p have "payload (cursors st' x) = payload (cursors st1 x)" by blast
          with ef4 [OF xz] show "payload (cursors st' x) = payload (cursors st x)" by simp
        qed
        have f: "\<forall>x. x \<notin> set (ys @ z # zs) \<longrightarrow> cursors st' x = cursors st x"
          using p ef3 by auto
        have g: "page_node st' = page_node st" using p ef6 by simp
        have h: "\<forall>q. q \<noteq> p \<longrightarrow> page_cursors st' q = page_cursors st q" using p ef7 by simp
        from a b c e f g h show "cursor_list st' p (ys @ filter (?keep st) (z # zs))
          \<and> sk = (skipped \<or> (\<exists>x\<in>set (z # zs). ?skip st x))
          \<and> (\<forall>x\<in>set (z # zs). \<not> ?keep st x \<longrightarrow> cursors st' x = uncoupled_copy st x)
          \<and> (\<forall>x. x \<notin> set (z # zs) \<or> ?keep st x \<longrightarrow> payload (cursors st' x) = payload (cursors st x))
          \<and> (\<forall>x. x \<notin> set (ys @ z # zs) \<longrightarrow> cursors st' x = cursors st x)
          \<and> page_node st' = page_node st
          \<and> (\<forall>q. q \<noteq> p \<longrightarrow> page_cursors st' q = page_cursors st q)"
          by blast
      qed
      with res ok show ?thesis by simp
    qed
  qed
qed

text \<open>
  C2. Let the cursor list of page \<open>p\<close> be well formed, and let every cursor on it be
  coupled to \<open>p\<close> or be one that the loop ignores (not coupled, and not coupled to a
  transaction operation). Then \<open>btree_uncouple_all_cursors(p, k)\<close> returns, with success
  when no allocation and no key copy fails. After a successful return every cursor that
  was coupled at a slot below \<open>k\<close> is still coupled to \<open>p\<close> at its slot; when there is
  such a cursor, the cursor list of \<open>p\<close> is the old one without the cursors that were
  coupled at slot \<open>k\<close> or above, in the old order. Every cursor that was coupled at slot
  \<open>k\<close> or above is uncoupled, holds the key of its slot and has no links left. When no
  cursor was coupled at a slot below \<open>k\<close>, the head of the list is the null pointer and
  the list is empty, also when the loop has left an ignored cursor at its head.
\<close>

theorem uncouple_all_cursors_attached:
  assumes cl: "cursor_list st p xs"
    and w: "\<forall>z\<in>set xs. coupled_to st p z
              \<or> (\<not> btree_cursor_is_coupled st z \<and> \<not> is_coupled_to_txnop (cursors st z))"
  shows "\<exists>s st'. btree_uncouple_all_cursors E p k st = Some (s, st')
    \<and> ((\<forall>n. calloc_ok E n) \<and> (\<forall>e. int2pub_status E e = 0) \<longrightarrow> s = 0)
    \<and> (s = 0 \<longrightarrow>
          cursor_list st' p
            (if \<exists>z\<in>set xs. btree_cursor_is_coupled st z
                              \<and> btree_cursor_get_coupled_index st z < k
             then filter (\<lambda>z. \<not> btree_cursor_is_coupled st z
                               \<or> btree_cursor_get_coupled_index st z < k) xs
             else [])
        \<and> (\<forall>z\<in>set xs. btree_cursor_is_coupled st z
                \<and> btree_cursor_get_coupled_index st z < k \<longrightarrow>
              coupled_to st' p z
              \<and> btree_cursor_get_coupled_index st' z = btree_cursor_get_coupled_index st z)
        \<and> (\<forall>z\<in>set xs. btree_cursor_is_coupled st z
                \<and> \<not> btree_cursor_get_coupled_index st z < k \<longrightarrow>
              btree_cursor_is_uncoupled st' z \<and> \<not> btree_cursor_is_coupled st' z
              \<and> btree_cursor_get_uncoupled_key st' z = Some (key_bytes (coupled_entry st z))
              \<and> next_in_page (cursors st' z) = 0 \<and> previous_in_page (cursors st' z) = 0)
        \<and> ((\<forall>z\<in>set xs. \<not> (btree_cursor_is_coupled st z
                               \<and> btree_cursor_get_coupled_index st z < k))
              \<longrightarrow> page_cursors st' p = 0))"
proof -
  let ?keep = "\<lambda>z. \<not> btree_cursor_is_coupled st z \<or> btree_cursor_get_coupled_index st z < k"
  let ?skip = "\<lambda>z. btree_cursor_is_coupled st z \<and> btree_cursor_get_coupled_index st z < k"
  have hd: "page_cursors st p = (case xs of [] \<Rightarrow> 0 | z # _ \<Rightarrow> z)"
    using cl by (auto simp: cursor_list_def dest: chain_head)
  from cl have cl': "cursor_list st p ([] @ xs)" by simp
  from uncouple_all_loop_correct [OF cl' w, of E k False, folded hd]
  obtain s sk st1 where
    r: "uncouple_all_loop E k (page_cursors st p) False st = Some (s, sk, st1)"
    and ok: "(\<forall>n. calloc_ok E n) \<and> (\<forall>k. int2pub_status E k = 0) \<longrightarrow> s = 0"
    and post: "s = 0 \<longrightarrow>
          cursor_list st1 p (filter ?keep xs)
        \<and> sk = (\<exists>z\<in>set xs. ?skip z)
        \<and> (\<forall>z\<in>set xs. \<not> ?keep z \<longrightarrow> cursors st1 z = uncoupled_copy st z)
        \<and> (\<forall>x. x \<notin> set xs \<or> ?keep x \<longrightarrow> payload (cursors st1 x) = payload (cursors st x))
        \<and> (\<forall>x. x \<notin> set xs \<longrightarrow> cursors st1 x = cursors st x)
        \<and> page_node st1 = page_node st
        \<and> (\<forall>q. q \<noteq> p \<longrightarrow> page_cursors st1 q = page_cursors st q)"
    by (simp only: append_Nil simp_thms) blast
  let ?st' = "if \<not> sk then page_set_cursors p 0 st1 else st1"
  have res: "btree_uncouple_all_cursors E p k st = Some (s, if s \<noteq> 0 then st1 else ?st')"
    using r by (simp add: btree_uncouple_all_cursors_def)
  have "s = 0 \<longrightarrow>
          cursor_list ?st' p (if \<exists>z\<in>set xs. ?skip z then filter ?keep xs else [])
        \<and> (\<forall>z\<in>set xs. ?skip z \<longrightarrow>
              coupled_to ?st' p z
              \<and> btree_cursor_get_coupled_index ?st' z = btree_cursor_get_coupled_index st z)
        \<and> (\<forall>z\<in>set xs. btree_cursor_is_coupled st z
                \<and> \<not> btree_cursor_get_coupled_index st z < k \<longrightarrow>
              btree_cursor_is_uncoupled ?st' z \<and> \<not> btree_cursor_is_coupled ?st' z
              \<and> btree_cursor_get_uncoupled_key ?st' z = Some (key_bytes (coupled_entry st z))
              \<and> next_in_page (cursors ?st' z) = 0 \<and> previous_in_page (cursors ?st' z) = 0)
        \<and> ((\<forall>z\<in>set xs. \<not> ?skip z) \<longrightarrow> page_cursors ?st' p = 0)"
  proof
    assume s0: "s = 0"
    note p = post [rule_format, OF s0]
    have cs: "cursors ?st' = cursors st1" by (simp add: page_set_cursors_def)
    from p have sk: "sk = (\<exists>z\<in>set xs. ?skip z)" by blast
    have a: "cursor_list ?st' p (if \<exists>z\<in>set xs. ?skip z then filter ?keep xs else [])"
    proof (cases sk)
      case True
      with sk p show ?thesis by simp
    next
      case False
      have e: "cursor_list (page_set_cursors p 0 st1) p []"
        by (simp add: cursor_list_def page_set_cursors_def)
      from False sk have ns: "\<not> (\<exists>z\<in>set xs. ?skip z)" by blast
      from e show ?thesis
        by (simp only: ns False if_False not_False_eq_True if_True)
    qed
    have b: "\<forall>z\<in>set xs. ?skip z \<longrightarrow>
              coupled_to ?st' p z
              \<and> btree_cursor_get_coupled_index ?st' z = btree_cursor_get_coupled_index st z"
    proof (intro ballI impI)
      fix z assume z: "z \<in> set xs" "?skip z"
      with p have "payload (cursors st1 z) = payload (cursors st z)" by blast
      then have pl: "payload (cursors ?st' z) = payload (cursors st z)" by (simp only: cs)
      from w z have "coupled_to st p z" by auto
      with coupled_to_payload [OF pl, of p] index_payload [OF pl]
      show "coupled_to ?st' p z
              \<and> btree_cursor_get_coupled_index ?st' z = btree_cursor_get_coupled_index st z"
        by simp
    qed
    have c: "\<forall>z\<in>set xs. btree_cursor_is_coupled st z
                \<and> \<not> btree_cursor_get_coupled_index st z < k \<longrightarrow>
              btree_cursor_is_uncoupled ?st' z \<and> \<not> btree_cursor_is_coupled ?st' z
              \<and> btree_cursor_get_uncoupled_key ?st' z = Some (key_bytes (coupled_entry st z))
              \<and> next_in_page (cursors ?st' z) = 0 \<and> previous_in_page (cursors ?st' z) = 0"
    proof (intro ballI impI)
      fix z assume z: "z \<in> set xs"
        "btree_cursor_is_coupled st z \<and> \<not> btree_cursor_get_coupled_index st z < k"
      then have "\<not> ?keep z" by simp
      with p z(1) have "cursors st1 z = uncoupled_copy st z" by blast
      then have "cursors ?st' z = uncoupled_copy st z" by (simp only: cs)
      from uncoupled_copy_flags [OF this]
      show "btree_cursor_is_uncoupled ?st' z \<and> \<not> btree_cursor_is_coupled ?st' z
              \<and> btree_cursor_get_uncoupled_key ?st' z = Some (key_bytes (coupled_entry st z))
              \<and> next_in_page (cursors ?st' z) = 0 \<and> previous_in_page (cursors ?st' z) = 0"
        by simp
    qed
    have e: "(\<forall>z\<in>set xs. \<not> ?skip z) \<longrightarrow> page_cursors ?st' p = 0"
      using sk by (auto simp: page_set_cursors_def)
    from a b c e show "cursor_list ?st' p (if \<exists>z\<in>set xs. ?skip z then filter ?keep xs else [])
        \<and> (\<forall>z\<in>set xs. ?skip z \<longrightarrow>
              coupled_to ?st' p z
              \<and> btree_cursor_get_coupled_index ?st' z = btree_cursor_get_coupled_index st z)
        \<and> (\<forall>z\<in>set xs. btree_cursor_is_coupled st z
                \<and> \<not> btree_cursor_get_coupled_index st z < k \<longrightarrow>
              btree_cursor_is_uncoupled ?st' z \<and> \<not> btree_cursor_is_coupled ?st' z
              \<and> btree_cursor_get_uncoupled_key ?st' z = Some (key_bytes (coupled_entry st z))
              \<and> next_in_page (cursors ?st' z) = 0 \<and> previous_in_page (cursors ?st' z) = 0)
        \<and> ((\<forall>z\<in>set xs. \<not> ?skip z) \<longrightarrow> page_cursors ?st' p = 0)"
      by blast
  qed
  with res ok show ?thesis by auto
qed

lemma example_linked_list: "cursor_list example_store_linked 1 [5, 1, 2, 3]"
  by (simp add: cursor_list_def example_store_linked_def example_defs)

lemma example_linked_cursors:
  "\<forall>z\<in>set [5, 1, 2, 3]. coupled_to example_store_linked 1 z
     \<or> (\<not> btree_cursor_is_coupled example_store_linked z
         \<and> \<not> is_coupled_to_txnop (cursors example_store_linked z))"
  by (simp add: coupled_to_def example_store_linked_def accessor_defs example_defs flag_defs)

theorem uncouple_all_cursors_attached_witness:
  "(\<exists>st'. btree_uncouple_all_cursors example_env 1 3 example_store = Some (0, st')
     \<and> cursor_list st' 1 [1]
     \<and> coupled_to st' 1 1 \<and> btree_cursor_get_coupled_index st' 1 = 1
     \<and> btree_cursor_is_uncoupled st' 2 \<and> btree_cursor_get_uncoupled_key st' 2 = Some [3]
     \<and> btree_cursor_is_uncoupled st' 3 \<and> btree_cursor_get_uncoupled_key st' 3 = Some [5])
   \<and> page_cursors example_store_linked 1 = 5
   \<and> (\<exists>st'. btree_uncouple_all_cursors example_env 1 0 example_store_linked = Some (0, st')
     \<and> page_cursors st' 1 = 0
     \<and> cursor_list st' 1 []
     \<and> btree_cursor_is_uncoupled st' 1 \<and> btree_cursor_is_uncoupled st' 2
     \<and> btree_cursor_is_uncoupled st' 3)"
proof -
  have i: "btree_cursor_get_coupled_index example_store 1 = 1"
    "btree_cursor_get_coupled_index example_store 2 = 3"
    "btree_cursor_get_coupled_index example_store 3 = 5"
    "key_bytes (coupled_entry example_store 2) = [3]"
    "key_bytes (coupled_entry example_store 3) = [5]"
    "\<forall>n. calloc_ok example_env n" "\<forall>e. int2pub_status example_env e = 0"
    "btree_cursor_is_coupled example_store 1" "btree_cursor_is_coupled example_store 2"
    "btree_cursor_is_coupled example_store 3"
    by (simp_all add: accessor_defs example_defs flag_defs)
  have w: "\<forall>z\<in>set [1, 2, 3]. coupled_to example_store 1 z
     \<or> (\<not> btree_cursor_is_coupled example_store z
         \<and> \<not> is_coupled_to_txnop (cursors example_store z))"
    using example_coupled by simp
  have j: "\<not> btree_cursor_is_coupled example_store_linked 5"
    "btree_cursor_is_coupled example_store_linked 1"
    "btree_cursor_is_coupled example_store_linked 2"
    "btree_cursor_is_coupled example_store_linked 3"
    "page_cursors example_store_linked 1 = 5"
    by (simp_all add: example_store_linked_def accessor_defs example_defs flag_defs)
  from uncouple_all_cursors_attached [OF example_list w, of example_env 3] i
  have a: "\<exists>st'. btree_uncouple_all_cursors example_env 1 3 example_store = Some (0, st')
     \<and> cursor_list st' 1 [1]
     \<and> coupled_to st' 1 1 \<and> btree_cursor_get_coupled_index st' 1 = 1
     \<and> btree_cursor_is_uncoupled st' 2 \<and> btree_cursor_get_uncoupled_key st' 2 = Some [3]
     \<and> btree_cursor_is_uncoupled st' 3 \<and> btree_cursor_get_uncoupled_key st' 3 = Some [5]"
    by auto
  from uncouple_all_cursors_attached [OF example_linked_list example_linked_cursors,
      of example_env 0] i(6,7) j
  have b: "\<exists>st'. btree_uncouple_all_cursors example_env 1 0 example_store_linked = Some (0, st')
     \<and> page_cursors st' 1 = 0
     \<and> cursor_list st' 1 []
     \<and> btree_cursor_is_uncoupled st' 1 \<and> btree_cursor_is_uncoupled st' 2
     \<and> btree_cursor_is_uncoupled st' 3"
    by auto
  from a b j(5) show ?thesis by blast
qed

section \<open>Cloning a coupled cursor\<close>

lemma cursor_list_set_parent:
  "cursor_list (btree_cursor_set_parent c v st) p xs = cursor_list st p xs"
  by (rule cursor_list_cong) (simp_all add: accessor_defs)

text \<open>
  C1, as the code has it. For a coupled \<open>src\<close>, \<open>btree_cursor_clone(src, dest, parent)\<close>
  succeeds; it gives \<open>dest\<close> the page and the duplicate index of \<open>src\<close> and the parent
  \<open>parent\<close>, and adds \<open>parent\<close> to the cursor list of that page (here: a well-formed list
  that does not hold \<open>parent\<close> yet). It writes neither the flags nor the slot index of
  \<open>dest\<close>: they are what they were at the call. So \<open>dest\<close> is coupled to the slot of
  \<open>src\<close> when it entered the call with the flags and the slot index of \<open>src\<close>, as a
  field-by-field copy of \<open>src\<close> does.
\<close>

theorem clone_coupled:
  assumes cpl: "btree_cursor_is_coupled st src"
    and cl: "cursor_list st (btree_cursor_get_coupled_page st src) xs"
    and par: "parent \<notin> set xs" "parent \<noteq> 0"
  shows "\<exists>st'. btree_cursor_clone E src dest parent st = (0, st')
     \<and> cursor_list st' (btree_cursor_get_coupled_page st src) (parent # xs)
     \<and> btree_cursor_get_coupled_page st' dest = btree_cursor_get_coupled_page st src
     \<and> btree_cursor_get_dupe_id st' dest = btree_cursor_get_dupe_id st src
     \<and> btree_cursor_get_parent st' dest = parent
     \<and> btree_cursor_get_flags st' dest = btree_cursor_get_flags st dest
     \<and> btree_cursor_get_coupled_index st' dest = btree_cursor_get_coupled_index st dest
     \<and> (btree_cursor_get_flags st dest = btree_cursor_get_flags st src
          \<and> btree_cursor_get_coupled_index st dest = btree_cursor_get_coupled_index st src
          \<longrightarrow> btree_cursor_is_coupled st' dest
            \<and> btree_cursor_get_coupled_index st' dest = btree_cursor_get_coupled_index st src)"
proof -
  let ?p = "btree_cursor_get_coupled_page st src"
  let ?st2 = "btree_cursor_set_parent dest parent
                (btree_cursor_set_dupe_id dest (btree_cursor_get_dupe_id st src) st)"
  let ?st' = "btree_cursor_set_coupled_page dest ?p (page_add_cursor ?p parent ?st2)"
  have c2: "btree_cursor_is_coupled ?st2 src" "btree_cursor_get_coupled_page ?st2 src = ?p"
    "btree_cursor_get_parent ?st2 dest = parent"
    using cpl by (auto simp: accessor_defs)
  have eq: "btree_cursor_clone E src dest parent st = (0, ?st')"
    using c2 by (simp add: btree_cursor_clone_def Let_def)
  have l2: "cursor_list ?st2 ?p xs"
    using cl by (simp add: cursor_list_set_parent cursor_list_dupe_id)
  have l3: "cursor_list ?st' ?p (parent # xs)"
    using page_add_cursor_list(1) [OF l2 par]
    by (simp add: btree_cursor_set_coupled_page_def cursor_list_upd_payload)
  have f: "btree_cursor_get_coupled_page ?st' dest = ?p"
    "btree_cursor_get_dupe_id ?st' dest = btree_cursor_get_dupe_id st src"
    "btree_cursor_get_parent ?st' dest = parent"
    "btree_cursor_get_flags ?st' dest = btree_cursor_get_flags st dest"
    "btree_cursor_get_coupled_index ?st' dest = btree_cursor_get_coupled_index st dest"
    by (simp_all add: accessor_defs page_add_cursor_fields)
  from eq l3 f cpl show ?thesis
    by (auto simp: btree_cursor_is_coupled_def)
qed

theorem clone_coupled_witness:
  "\<exists>st'. btree_cursor_clone example_env 1 4 4 example_store = (0, st')
     \<and> cursor_list st' 1 [4, 1, 2, 3]
     \<and> btree_cursor_get_coupled_page st' 4 = 1
     \<and> btree_cursor_get_flags st' 4 = 0
     \<and> btree_cursor_get_coupled_index st' 4 = 0"
proof -
  have h: "btree_cursor_is_coupled example_store 1"
    "btree_cursor_get_coupled_page example_store 1 = 1"
    "btree_cursor_get_flags example_store 4 = 0"
    "btree_cursor_get_coupled_index example_store 4 = 0"
    by (simp_all add: accessor_defs example_defs flag_defs)
  have l: "cursor_list example_store (btree_cursor_get_coupled_page example_store 1) [1, 2, 3]"
    using example_list h by simp
  have p: "(4 :: nat) \<notin> set [1, 2, 3]" "(4 :: nat) \<noteq> 0" by simp_all
  from clone_coupled [OF h(1) l p, of example_env 4] h show ?thesis by auto
qed

text \<open>
  C1 as stated fails: cloning the coupled cursor \<open>1\<close> into the NIL cursor \<open>4\<close> succeeds
  and leaves cursor \<open>4\<close> without the coupled flag and at slot \<open>0\<close>, not at the slot of
  cursor \<open>1\<close>.
\<close>

theorem clone_coupled_counterexample:
  "btree_cursor_is_coupled example_store 1
   \<and> fst (btree_cursor_clone example_env 1 4 4 example_store) = 0
   \<and> \<not> btree_cursor_is_coupled (snd (btree_cursor_clone example_env 1 4 4 example_store)) 4
   \<and> btree_cursor_get_coupled_index (snd (btree_cursor_clone example_env 1 4 4 example_store)) 4
       \<noteq> btree_cursor_get_coupled_index example_store 1"
  by (simp add: btree_cursor_clone_def page_add_cursor_def accessor_defs example_defs flag_defs
      Let_def)

section \<open>How the bulk uncouple takes a cursor off the list\<close>

lemma uncouple_no_remove_list:
  "cursor_list (snd (btree_cursor_uncouple E c BTREE_CURSOR_UNCOUPLE_NO_REMOVE st)) p xs
     = cursor_list st p xs"
  by (rule cursor_list_cong)
     (simp_all add: btree_cursor_uncouple_def allocator_calloc_def btree_copy_key_int2pub_def
        Let_def accessor_defs flag_defs)

lemma clear_links_list:
  assumes "cursor_list st p ys" and "c \<notin> set ys"
  shows "cursor_list (set_previous_in_page c 0 (set_next_in_page c 0 st)) p ys"
proof (rule cursor_list_frame [OF assms(1)])
  fix y assume "y \<in> set ys"
  with assms(2) have "y \<noteq> c" by auto
  then show "cursors (set_previous_in_page c 0 (set_next_in_page c 0 st)) y = cursors st y"
    by (simp add: accessor_defs)
next
  show "page_cursors (set_previous_in_page c 0 (set_next_in_page c 0 st)) p = page_cursors st p"
    by (simp add: accessor_defs)
qed

text \<open>
  C3, as the code has it. In the loop of \<open>btree_uncouple_all_cursors\<close>, a cursor of the
  list that is coupled to the page at a slot not below \<open>start\<close> is uncoupled with the
  flags \<open>0\<close>, not with \<open>BTREE_CURSOR_UNCOUPLE_NO_REMOVE\<close>; the successor was read before
  the call. When that call succeeds, it has itself removed the cursor from the cursor list
  of the page. The two links of the cursor are then set to the null pointer, which leaves
  the list as the uncoupling left it, and the loop goes on from the successor. Uncoupling
  with \<open>BTREE_CURSOR_UNCOUPLE_NO_REMOVE\<close> would have left the cursor on the list.
\<close>

theorem uncouple_all_step_removes:
  assumes cl: "cursor_list st p xs" and c: "c \<in> set xs" and w: "coupled_to st p c"
    and idx: "\<not> btree_cursor_get_coupled_index st c < start"
  shows "uncouple_all_loop E start c skipped st =
           (case btree_cursor_uncouple E c 0 st of
              (s, st1) \<Rightarrow>
                if s \<noteq> 0 then Some (s, skipped, st1)
                else uncouple_all_loop E start (next_in_page (cursors st c)) skipped
                       (set_previous_in_page c 0 (set_next_in_page c 0 st1)))
    \<and> (fst (btree_cursor_uncouple E c 0 st) = 0 \<longrightarrow>
          cursor_list (snd (btree_cursor_uncouple E c 0 st)) p (remove1 c xs)
        \<and> c \<notin> set (remove1 c xs)
        \<and> cursor_list
            (set_previous_in_page c 0
               (set_next_in_page c 0 (snd (btree_cursor_uncouple E c 0 st)))) p (remove1 c xs)
        \<and> next_in_page (cursors (set_previous_in_page c 0
               (set_next_in_page c 0 (snd (btree_cursor_uncouple E c 0 st)))) c) = 0
        \<and> previous_in_page (cursors (set_previous_in_page c 0
               (set_next_in_page c 0 (snd (btree_cursor_uncouple E c 0 st)))) c) = 0)
    \<and> cursor_list (snd (btree_cursor_uncouple E c BTREE_CURSOR_UNCOUPLE_NO_REMOVE st)) p xs"
proof -
  from cl have d: "distinct xs" and ch: "chain (cursors st) 0 (page_cursors st p) xs"
    by (simp_all add: cursor_list_def)
  from chain_nonzero [OF ch] c have c0: "c \<noteq> 0" by metis
  from w have cc: "btree_cursor_is_coupled st c" by (simp add: coupled_to_def)
  note step = uncouple_all_loop_step [OF c0 cc, of E start skipped]
  have nin: "c \<notin> set (remove1 c xs)" using d by simp
  obtain s1 st1 where u: "btree_cursor_uncouple E c 0 st = (s1, st1)"
    by (cases "btree_cursor_uncouple E c 0 st")
  have post: "s1 = 0 \<longrightarrow> cursor_list st1 p (remove1 c xs)"
  proof
    assume s0: "s1 = 0"
    with uncouple_coupled_eq [OF w, of E] u
    have ok: "calloc_ok E (alloc_count st)" "int2pub_status E (coupled_entry st c) = 0"
      by (auto split: if_splits)
    from uncouple_effect(2) [OF cl c w ok, unfolded u]
    show "cursor_list st1 p (remove1 c xs)" by simp
  qed
  have a: "uncouple_all_loop E start c skipped st =
           (case btree_cursor_uncouple E c 0 st of
              (s, st1) \<Rightarrow>
                if s \<noteq> 0 then Some (s, skipped, st1)
                else uncouple_all_loop E start (next_in_page (cursors st c)) skipped
                       (set_previous_in_page c 0 (set_next_in_page c 0 st1)))"
    using step idx by simp
  have b: "s1 = 0 \<longrightarrow> cursor_list (set_previous_in_page c 0 (set_next_in_page c 0 st1)) p
             (remove1 c xs)"
    using post clear_links_list [OF _ nin] by blast
  have lk: "next_in_page (cursors (set_previous_in_page c 0 (set_next_in_page c 0 st1)) c) = 0"
    "previous_in_page (cursors (set_previous_in_page c 0 (set_next_in_page c 0 st1)) c) = 0"
    by (simp_all add: accessor_defs)
  from a post b lk nin cl show ?thesis
    by (simp add: u uncouple_no_remove_list)
qed

theorem uncouple_all_step_removes_witness:
  "fst (btree_cursor_uncouple example_env 2 0 example_store) = 0
   \<and> cursor_list (snd (btree_cursor_uncouple example_env 2 0 example_store)) 1 [1, 3]
   \<and> cursor_list
       (set_previous_in_page 2 0
          (set_next_in_page 2 0 (snd (btree_cursor_uncouple example_env 2 0 example_store))))
       1 [1, 3]
   \<and> cursor_list
       (snd (btree_cursor_uncouple example_env 2 BTREE_CURSOR_UNCOUPLE_NO_REMOVE example_store))
       1 [1, 2, 3]"
proof -
  have m: "(2 :: nat) \<in> set [1, 2, 3]" by simp
  have w: "coupled_to example_store 1 2" using example_coupled by simp
  have i: "\<not> btree_cursor_get_coupled_index example_store 2 < 3"
    by (simp add: accessor_defs example_defs)
  have ok: "calloc_ok example_env (alloc_count example_store)"
    "int2pub_status example_env (coupled_entry example_store 2) = 0"
    by (simp_all add: example_defs)
  have s: "fst (btree_cursor_uncouple example_env 2 0 example_store) = 0"
    by (rule uncouple_effect(1) [OF example_list m w ok])
  from uncouple_all_step_removes [OF example_list m w i, of example_env False] s
  show ?thesis by simp
qed

text \<open>
  C3 as stated fails: with the cursors of the page at the slots \<open>1\<close>, \<open>3\<close> and \<open>0\<close> and
  \<open>start = 3\<close>, uncoupling with \<open>NO_REMOVE\<close> and clearing the links of the cursor leaves
  cursor \<open>1\<close> linked to the uncoupled cursor \<open>2\<close>, whose own link is null; the code
  leaves cursor \<open>1\<close> linked to cursor \<open>3\<close>.
\<close>

theorem uncouple_all_no_remove_counterexample:
  "(\<exists>st'. btree_uncouple_all_cursors_no_remove example_env 1 3 example_store_mixed = Some (0, st')
      \<and> next_in_page (cursors st' 1) = 2 \<and> next_in_page (cursors st' 2) = 0)
   \<and> (\<exists>st'. btree_uncouple_all_cursors example_env 1 3 example_store_mixed = Some (0, st')
      \<and> next_in_page (cursors st' 1) = 3 \<and> next_in_page (cursors st' 3) = 0)
   \<and> btree_uncouple_all_cursors example_env 1 3 example_store_mixed
       \<noteq> btree_uncouple_all_cursors_no_remove example_env 1 3 example_store_mixed"
proof -
  have a: "\<exists>st'. btree_uncouple_all_cursors_no_remove example_env 1 3 example_store_mixed
             = Some (0, st')
      \<and> next_in_page (cursors st' 1) = 2 \<and> next_in_page (cursors st' 2) = 0"
    apply (simp add: btree_uncouple_all_cursors_no_remove_def)
    apply (subst uncouple_all_loop_no_remove.simps)
    apply (simp add: example_store_mixed_def accessor_defs example_defs flag_defs Let_def)
    apply (subst uncouple_all_loop_no_remove.simps)
    apply (simp add: btree_cursor_uncouple_def btree_cursor_is_nil_def allocator_calloc_def
        btree_copy_key_int2pub_def accessor_defs example_defs flag_defs Let_def)
    apply (subst uncouple_all_loop_no_remove.simps)
    apply (simp add: accessor_defs example_defs flag_defs Let_def)
    apply (subst uncouple_all_loop_no_remove.simps)
    apply (simp add: accessor_defs example_defs flag_defs Let_def)
    done
  have b: "\<exists>st'. btree_uncouple_all_cursors example_env 1 3 example_store_mixed = Some (0, st')
      \<and> next_in_page (cursors st' 1) = 3 \<and> next_in_page (cursors st' 3) = 0"
    apply (simp add: btree_uncouple_all_cursors_def)
    apply (subst uncouple_all_loop.simps)
    apply (simp add: example_store_mixed_def accessor_defs example_defs flag_defs Let_def)
    apply (subst uncouple_all_loop.simps)
    apply (simp add: btree_cursor_uncouple_def btree_cursor_is_nil_def allocator_calloc_def
        btree_copy_key_int2pub_def page_remove_cursor_def accessor_defs example_defs flag_defs
        Let_def)
    apply (subst uncouple_all_loop.simps)
    apply (simp add: accessor_defs example_defs flag_defs Let_def)
    apply (subst uncouple_all_loop.simps)
    apply (simp add: accessor_defs example_defs flag_defs Let_def)
    done
  from a b show ?thesis by auto
qed

section \<open>Uncoupling and coupling again\<close>

lemma set_to_nil_uncoupled:
  "btree_cursor_is_uncoupled st c \<Longrightarrow>
   btree_cursor_set_to_nil c st =
     (0, upd_cursor c
           (\<lambda>x. x\<lparr>bc_uncoupled_key := None,
                   bc_flags := bc_flags x AND NOT BTREE_CURSOR_FLAG_UNCOUPLED,
                   bc_dupe_id := 0, bc_dupe_cache := dupe_entry_zero\<rparr>) st)"
  by (simp add: btree_cursor_set_to_nil_def Let_def)
     (simp add: accessor_defs)

lemma set_to_nil_coupled:
  "\<not> btree_cursor_is_uncoupled st c \<Longrightarrow> btree_cursor_is_coupled st c \<Longrightarrow>
   btree_cursor_set_to_nil c st =
     (0, upd_cursor c
           (\<lambda>x. x\<lparr>bc_flags := bc_flags x AND NOT BTREE_CURSOR_FLAG_COUPLED,
                   bc_dupe_id := 0, bc_dupe_cache := dupe_entry_zero\<rparr>)
           (page_remove_cursor (btree_cursor_get_coupled_page st c)
              (btree_cursor_get_parent st c) st))"
  by (simp add: btree_cursor_set_to_nil_def Let_def)
     (simp add: accessor_defs page_remove_cursor_fields)

lemma set_to_nil_nil:
  "\<not> btree_cursor_is_uncoupled st c \<Longrightarrow> \<not> btree_cursor_is_coupled st c \<Longrightarrow>
   btree_cursor_set_to_nil c st =
     (0, upd_cursor c (\<lambda>x. x\<lparr>bc_dupe_id := 0, bc_dupe_cache := dupe_entry_zero\<rparr>) st)"
  by (simp add: btree_cursor_set_to_nil_def Let_def)
     (simp add: accessor_defs)

lemma btree_find_cursor_found:
  "find_key E key fl = (0, page, idx) \<Longrightarrow>
   btree_find_cursor E c key fl st =
     (0, upd_cursor c
           (\<lambda>x. x\<lparr>bc_flags := bc_flags x OR BTREE_CURSOR_FLAG_COUPLED,
                   bc_coupled_page := page, bc_coupled_index := idx, bc_dupe_id := 0\<rparr>)
           (page_add_cursor page (btree_cursor_get_parent st c) st))"
  by (simp add: btree_find_cursor_def Let_def)
     (simp add: accessor_defs page_add_cursor_fields)

lemma btree_find_cursor_failed:
  "fst (find_key E key fl) \<noteq> 0 \<Longrightarrow>
   btree_find_cursor E c key fl st = (fst (find_key E key fl), st)"
  by (cases "find_key E key fl") (auto simp: btree_find_cursor_def)

lemma flags_roundtrip:
  "(((f AND NOT BTREE_CURSOR_FLAG_COUPLED) OR BTREE_CURSOR_FLAG_UNCOUPLED)
       AND NOT BTREE_CURSOR_FLAG_UNCOUPLED) OR BTREE_CURSOR_FLAG_COUPLED
     = (f AND NOT BTREE_CURSOR_FLAG_UNCOUPLED) OR BTREE_CURSOR_FLAG_COUPLED"
  unfolding BTREE_CURSOR_FLAG_COUPLED_def BTREE_CURSOR_FLAG_UNCOUPLED_def
  by (rule bit_word_eqI) (auto simp: bit_simps)

text \<open>
  C5. Let a cursor be coupled to a slot of page \<open>p\<close> and on its cursor list, let there be
  a backend, and let the tree not change: the search for the key of that slot finds it
  in that slot of \<open>p\<close>. When the allocation and the two key copies succeed,
  \<open>btree_cursor_uncouple\<close> succeeds and leaves the cursor uncoupled, and
  \<open>btree_cursor_couple\<close> then succeeds and leaves it coupled to the same page and slot,
  with the same duplicate index, and on the cursor list of \<open>p\<close> again. The duplicate
  index is \<open>0\<close> after the inner \<open>btree_cursor_find\<close> and is what it was before after
  \<open>btree_cursor_couple\<close>.
\<close>

theorem uncouple_couple_roundtrip:
  assumes be: "backend E"
    and cl: "cursor_list st p xs" and c: "c \<in> set xs" and w: "coupled_to st p c"
    and alloc: "calloc_ok E (alloc_count st)"
    and copy1: "int2pub_status E (coupled_entry st c) = 0"
    and copy2: "copy_key_status E (Some (key_bytes (coupled_entry st c))) = 0"
    and found: "find_key E (key_bytes (coupled_entry st c)) 0
                  = (0, p, btree_cursor_get_coupled_index st c)"
  shows "\<exists>st1 st2. btree_cursor_uncouple E c 0 st = (0, st1)
     \<and> btree_cursor_is_uncoupled st1 c \<and> \<not> btree_cursor_is_coupled st1 c
     \<and> btree_cursor_couple E c st1 = (0, st2)
     \<and> same_position st st2 c \<and> coupled_to st2 p c
     \<and> cursor_list st2 p (c # remove1 c xs)
     \<and> btree_cursor_get_dupe_id
          (snd (btree_cursor_find E c (key_bytes (coupled_entry st c)) 0 st1)) c = 0
     \<and> btree_cursor_get_dupe_id st2 c = btree_cursor_get_dupe_id st c"
proof -
  let ?k = "key_bytes (coupled_entry st c)"
  obtain s1 st1 where u: "btree_cursor_uncouple E c 0 st = (s1, st1)"
    by (cases "btree_cursor_uncouple E c 0 st")
  note ef = uncouple_effect [OF cl c w alloc copy1, unfolded u, simplified]
  from ef(1) have s1: "s1 = 0" .
  have c1: "cursors st1 c = uncoupled_copy st c" using ef(5) by (simp add: uncoupled_copy_def)
  note uf = uncoupled_copy_flags [OF c1]
  from cl have d: "distinct xs" and ch: "chain (cursors st) 0 (page_cursors st p) xs"
    by (simp_all add: cursor_list_def)
  from chain_nonzero [OF ch] c have c0: "c \<noteq> 0" by metis
  have par: "bc_parent (cursors st c) = c" using w by (simp add: coupled_to_def accessor_defs)
  \<comment> \<open>the steps of the coupling\<close>
  let ?nil = "upd_cursor c
           (\<lambda>x. x\<lparr>bc_uncoupled_key := None,
                   bc_flags := bc_flags x AND NOT BTREE_CURSOR_FLAG_UNCOUPLED,
                   bc_dupe_id := 0, bc_dupe_cache := dupe_entry_zero\<rparr>) st1"
  let ?add = "page_add_cursor p c ?nil"
  let ?fnd = "upd_cursor c
           (\<lambda>x. x\<lparr>bc_flags := bc_flags x OR BTREE_CURSOR_FLAG_COUPLED,
                   bc_coupled_page := p,
                   bc_coupled_index := btree_cursor_get_coupled_index st c,
                   bc_dupe_id := 0\<rparr>) ?add"
  let ?st2 = "btree_cursor_set_dupe_id c (btree_cursor_get_dupe_id st c) ?fnd"
  have nil: "btree_cursor_set_to_nil c st1 = (0, ?nil)"
    using uf by (intro set_to_nil_uncoupled) simp
  have pn: "btree_cursor_get_parent ?nil c = c"
    using par by (simp add: accessor_defs c1 uncoupled_copy_def)
  have fc: "btree_find_cursor E c ?k 0 ?nil = (0, ?fnd)"
    using btree_find_cursor_found [OF found, of c ?nil] pn by simp
  have fnd: "btree_cursor_find E c ?k 0 st1 = (0, ?fnd)"
    using be nil fc by (simp add: btree_cursor_find_def)
  have key1: "btree_cursor_get_uncoupled_key st1 c = Some ?k" using uf by simp
  have d1: "btree_cursor_get_dupe_id st1 c = btree_cursor_get_dupe_id st c" using uf by simp
  have cpl: "btree_cursor_couple E c st1 = (0, ?st2)"
    using key1 copy2 fnd d1 by (simp add: btree_cursor_couple_def db_copy_key_def Let_def)
  \<comment> \<open>the list\<close>
  have l1: "cursor_list ?nil p (remove1 c xs)"
    using ef(2) by (simp add: cursor_list_upd_payload)
  have "c \<notin> set (remove1 c xs)" using d by simp
  from page_add_cursor_list(1) [OF l1 this c0]
  have l2: "cursor_list ?st2 p (c # remove1 c xs)"
    by (simp add: btree_cursor_set_dupe_id_def cursor_list_upd_payload)
  \<comment> \<open>the cursor\<close>
  have pos: "same_position st ?st2 c" "coupled_to ?st2 p c"
    "btree_cursor_get_dupe_id ?st2 c = btree_cursor_get_dupe_id st c"
    using w
    by (simp_all add: same_position_def coupled_to_def accessor_defs page_add_cursor_fields
        c1 uncoupled_copy_def flags_roundtrip)
  have d0: "btree_cursor_get_dupe_id (snd (btree_cursor_find E c ?k 0 st1)) c = 0"
    unfolding fnd by (simp add: accessor_defs)
  from u s1 uf cpl pos l2 d0 show ?thesis by auto
qed

theorem uncouple_couple_roundtrip_witness:
  "\<exists>st1 st2. btree_cursor_uncouple example_env 2 0 example_store_dup = (0, st1)
     \<and> btree_cursor_is_uncoupled st1 2
     \<and> btree_cursor_couple example_env 2 st1 = (0, st2)
     \<and> btree_cursor_is_coupled st2 2
     \<and> btree_cursor_get_coupled_page st2 2 = 1
     \<and> btree_cursor_get_coupled_index st2 2 = 4
     \<and> btree_cursor_get_dupe_id st2 2 = 2
     \<and> cursor_list st2 1 [2, 1, 3]"
proof -
  have l: "cursor_list example_store_dup 1 [1, 2, 3]"
    by (simp add: cursor_list_def example_store_dup_def accessor_defs example_defs)
  have m: "(2 :: nat) \<in> set [1, 2, 3]" by simp
  have w: "coupled_to example_store_dup 1 2"
    by (simp add: coupled_to_def example_store_dup_def accessor_defs example_defs flag_defs)
  have h: "backend example_env" "calloc_ok example_env (alloc_count example_store_dup)"
    "int2pub_status example_env (coupled_entry example_store_dup 2) = 0"
    "copy_key_status example_env (Some (key_bytes (coupled_entry example_store_dup 2))) = 0"
    "find_key example_env (key_bytes (coupled_entry example_store_dup 2)) 0
       = (0, 1, btree_cursor_get_coupled_index example_store_dup 2)"
    by (simp_all add: example_store_dup_def accessor_defs example_defs)
  have v: "btree_cursor_get_coupled_page example_store_dup 2 = 1"
    "btree_cursor_get_coupled_index example_store_dup 2 = 4"
    "btree_cursor_get_dupe_id example_store_dup 2 = 2"
    by (simp_all add: example_store_dup_def accessor_defs example_defs)
  from uncouple_couple_roundtrip [OF h(1) l m w h(2-5)] v
  show ?thesis by (auto simp: same_position_def coupled_to_def)
qed

section \<open>A cursor that stays well formed when an operation fails\<close>

subsection \<open>Reading a field after a write\<close>

lemma get_set_same [simp]:
  "btree_cursor_get_parent (btree_cursor_set_parent c vparent st) c = vparent"
  "btree_cursor_get_flags (btree_cursor_set_flags c vflags st) c = vflags"
  "btree_cursor_get_coupled_page (btree_cursor_set_coupled_page c vcoupledpage st) c = vcoupledpage"
  "btree_cursor_get_coupled_index (btree_cursor_set_coupled_index c vcoupledindex st) c = vcoupledindex"
  "btree_cursor_get_uncoupled_key (btree_cursor_set_uncoupled_key c vuncoupledkey st) c = vuncoupledkey"
  "btree_cursor_get_dupe_id (btree_cursor_set_dupe_id c vdupeid st) c = vdupeid"
  "btree_cursor_get_dupe_cache (btree_cursor_set_dupe_cache c vdupecache st) c = vdupecache"
  by (simp_all add: accessor_defs)

lemma get_set_other [simp]:
  "btree_cursor_get_parent (btree_cursor_set_flags c vflags st) x = btree_cursor_get_parent st x"
  "btree_cursor_get_parent (btree_cursor_set_coupled_page c vcoupledpage st) x = btree_cursor_get_parent st x"
  "btree_cursor_get_parent (btree_cursor_set_coupled_index c vcoupledindex st) x = btree_cursor_get_parent st x"
  "btree_cursor_get_parent (btree_cursor_set_uncoupled_key c vuncoupledkey st) x = btree_cursor_get_parent st x"
  "btree_cursor_get_parent (btree_cursor_set_dupe_id c vdupeid st) x = btree_cursor_get_parent st x"
  "btree_cursor_get_parent (btree_cursor_set_dupe_cache c vdupecache st) x = btree_cursor_get_parent st x"
  "btree_cursor_get_flags (btree_cursor_set_parent c vparent st) x = btree_cursor_get_flags st x"
  "btree_cursor_get_flags (btree_cursor_set_coupled_page c vcoupledpage st) x = btree_cursor_get_flags st x"
  "btree_cursor_get_flags (btree_cursor_set_coupled_index c vcoupledindex st) x = btree_cursor_get_flags st x"
  "btree_cursor_get_flags (btree_cursor_set_uncoupled_key c vuncoupledkey st) x = btree_cursor_get_flags st x"
  "btree_cursor_get_flags (btree_cursor_set_dupe_id c vdupeid st) x = btree_cursor_get_flags st x"
  "btree_cursor_get_flags (btree_cursor_set_dupe_cache c vdupecache st) x = btree_cursor_get_flags st x"
  "btree_cursor_get_coupled_page (btree_cursor_set_parent c vparent st) x = btree_cursor_get_coupled_page st x"
  "btree_cursor_get_coupled_page (btree_cursor_set_flags c vflags st) x = btree_cursor_get_coupled_page st x"
  "btree_cursor_get_coupled_page (btree_cursor_set_coupled_index c vcoupledindex st) x = btree_cursor_get_coupled_page st x"
  "btree_cursor_get_coupled_page (btree_cursor_set_uncoupled_key c vuncoupledkey st) x = btree_cursor_get_coupled_page st x"
  "btree_cursor_get_coupled_page (btree_cursor_set_dupe_id c vdupeid st) x = btree_cursor_get_coupled_page st x"
  "btree_cursor_get_coupled_page (btree_cursor_set_dupe_cache c vdupecache st) x = btree_cursor_get_coupled_page st x"
  "btree_cursor_get_coupled_index (btree_cursor_set_parent c vparent st) x = btree_cursor_get_coupled_index st x"
  "btree_cursor_get_coupled_index (btree_cursor_set_flags c vflags st) x = btree_cursor_get_coupled_index st x"
  "btree_cursor_get_coupled_index (btree_cursor_set_coupled_page c vcoupledpage st) x = btree_cursor_get_coupled_index st x"
  "btree_cursor_get_coupled_index (btree_cursor_set_uncoupled_key c vuncoupledkey st) x = btree_cursor_get_coupled_index st x"
  "btree_cursor_get_coupled_index (btree_cursor_set_dupe_id c vdupeid st) x = btree_cursor_get_coupled_index st x"
  "btree_cursor_get_coupled_index (btree_cursor_set_dupe_cache c vdupecache st) x = btree_cursor_get_coupled_index st x"
  "btree_cursor_get_uncoupled_key (btree_cursor_set_parent c vparent st) x = btree_cursor_get_uncoupled_key st x"
  "btree_cursor_get_uncoupled_key (btree_cursor_set_flags c vflags st) x = btree_cursor_get_uncoupled_key st x"
  "btree_cursor_get_uncoupled_key (btree_cursor_set_coupled_page c vcoupledpage st) x = btree_cursor_get_uncoupled_key st x"
  "btree_cursor_get_uncoupled_key (btree_cursor_set_coupled_index c vcoupledindex st) x = btree_cursor_get_uncoupled_key st x"
  "btree_cursor_get_uncoupled_key (btree_cursor_set_dupe_id c vdupeid st) x = btree_cursor_get_uncoupled_key st x"
  "btree_cursor_get_uncoupled_key (btree_cursor_set_dupe_cache c vdupecache st) x = btree_cursor_get_uncoupled_key st x"
  "btree_cursor_get_dupe_id (btree_cursor_set_parent c vparent st) x = btree_cursor_get_dupe_id st x"
  "btree_cursor_get_dupe_id (btree_cursor_set_flags c vflags st) x = btree_cursor_get_dupe_id st x"
  "btree_cursor_get_dupe_id (btree_cursor_set_coupled_page c vcoupledpage st) x = btree_cursor_get_dupe_id st x"
  "btree_cursor_get_dupe_id (btree_cursor_set_coupled_index c vcoupledindex st) x = btree_cursor_get_dupe_id st x"
  "btree_cursor_get_dupe_id (btree_cursor_set_uncoupled_key c vuncoupledkey st) x = btree_cursor_get_dupe_id st x"
  "btree_cursor_get_dupe_id (btree_cursor_set_dupe_cache c vdupecache st) x = btree_cursor_get_dupe_id st x"
  "btree_cursor_get_dupe_cache (btree_cursor_set_parent c vparent st) x = btree_cursor_get_dupe_cache st x"
  "btree_cursor_get_dupe_cache (btree_cursor_set_flags c vflags st) x = btree_cursor_get_dupe_cache st x"
  "btree_cursor_get_dupe_cache (btree_cursor_set_coupled_page c vcoupledpage st) x = btree_cursor_get_dupe_cache st x"
  "btree_cursor_get_dupe_cache (btree_cursor_set_coupled_index c vcoupledindex st) x = btree_cursor_get_dupe_cache st x"
  "btree_cursor_get_dupe_cache (btree_cursor_set_uncoupled_key c vuncoupledkey st) x = btree_cursor_get_dupe_cache st x"
  "btree_cursor_get_dupe_cache (btree_cursor_set_dupe_id c vdupeid st) x = btree_cursor_get_dupe_cache st x"
  by (simp_all add: accessor_defs)

lemma get_set_cursor [simp]:
  "x \<noteq> c \<Longrightarrow> btree_cursor_get_parent (btree_cursor_set_parent c vparent st) x = btree_cursor_get_parent st x"
  "x \<noteq> c \<Longrightarrow> btree_cursor_get_flags (btree_cursor_set_flags c vflags st) x = btree_cursor_get_flags st x"
  "x \<noteq> c \<Longrightarrow> btree_cursor_get_coupled_page (btree_cursor_set_coupled_page c vcoupledpage st) x = btree_cursor_get_coupled_page st x"
  "x \<noteq> c \<Longrightarrow> btree_cursor_get_coupled_index (btree_cursor_set_coupled_index c vcoupledindex st) x = btree_cursor_get_coupled_index st x"
  "x \<noteq> c \<Longrightarrow> btree_cursor_get_uncoupled_key (btree_cursor_set_uncoupled_key c vuncoupledkey st) x = btree_cursor_get_uncoupled_key st x"
  "x \<noteq> c \<Longrightarrow> btree_cursor_get_dupe_id (btree_cursor_set_dupe_id c vdupeid st) x = btree_cursor_get_dupe_id st x"
  "x \<noteq> c \<Longrightarrow> btree_cursor_get_dupe_cache (btree_cursor_set_dupe_cache c vdupecache st) x = btree_cursor_get_dupe_cache st x"
  by (simp_all add: accessor_defs)

lemma is_coupled_set [simp]:
  "btree_cursor_is_coupled (btree_cursor_set_parent c vparent st) x = btree_cursor_is_coupled st x"
  "btree_cursor_is_uncoupled (btree_cursor_set_parent c vparent st) x = btree_cursor_is_uncoupled st x"
  "btree_cursor_is_coupled (btree_cursor_set_coupled_page c vcoupledpage st) x = btree_cursor_is_coupled st x"
  "btree_cursor_is_uncoupled (btree_cursor_set_coupled_page c vcoupledpage st) x = btree_cursor_is_uncoupled st x"
  "btree_cursor_is_coupled (btree_cursor_set_coupled_index c vcoupledindex st) x = btree_cursor_is_coupled st x"
  "btree_cursor_is_uncoupled (btree_cursor_set_coupled_index c vcoupledindex st) x = btree_cursor_is_uncoupled st x"
  "btree_cursor_is_coupled (btree_cursor_set_uncoupled_key c vuncoupledkey st) x = btree_cursor_is_coupled st x"
  "btree_cursor_is_uncoupled (btree_cursor_set_uncoupled_key c vuncoupledkey st) x = btree_cursor_is_uncoupled st x"
  "btree_cursor_is_coupled (btree_cursor_set_dupe_id c vdupeid st) x = btree_cursor_is_coupled st x"
  "btree_cursor_is_uncoupled (btree_cursor_set_dupe_id c vdupeid st) x = btree_cursor_is_uncoupled st x"
  "btree_cursor_is_coupled (btree_cursor_set_dupe_cache c vdupecache st) x = btree_cursor_is_coupled st x"
  "btree_cursor_is_uncoupled (btree_cursor_set_dupe_cache c vdupecache st) x = btree_cursor_is_uncoupled st x"
  by (simp_all add: btree_cursor_is_coupled_def btree_cursor_is_uncoupled_def)

lemma store_set [simp]:
  "page_node (btree_cursor_set_parent c vparent st) = page_node st"
  "page_cursors (btree_cursor_set_parent c vparent st) = page_cursors st"
  "page_dirty (btree_cursor_set_parent c vparent st) = page_dirty st"
  "alloc_count (btree_cursor_set_parent c vparent st) = alloc_count st"
  "page_node (btree_cursor_set_flags c vflags st) = page_node st"
  "page_cursors (btree_cursor_set_flags c vflags st) = page_cursors st"
  "page_dirty (btree_cursor_set_flags c vflags st) = page_dirty st"
  "alloc_count (btree_cursor_set_flags c vflags st) = alloc_count st"
  "page_node (btree_cursor_set_coupled_page c vcoupledpage st) = page_node st"
  "page_cursors (btree_cursor_set_coupled_page c vcoupledpage st) = page_cursors st"
  "page_dirty (btree_cursor_set_coupled_page c vcoupledpage st) = page_dirty st"
  "alloc_count (btree_cursor_set_coupled_page c vcoupledpage st) = alloc_count st"
  "page_node (btree_cursor_set_coupled_index c vcoupledindex st) = page_node st"
  "page_cursors (btree_cursor_set_coupled_index c vcoupledindex st) = page_cursors st"
  "page_dirty (btree_cursor_set_coupled_index c vcoupledindex st) = page_dirty st"
  "alloc_count (btree_cursor_set_coupled_index c vcoupledindex st) = alloc_count st"
  "page_node (btree_cursor_set_uncoupled_key c vuncoupledkey st) = page_node st"
  "page_cursors (btree_cursor_set_uncoupled_key c vuncoupledkey st) = page_cursors st"
  "page_dirty (btree_cursor_set_uncoupled_key c vuncoupledkey st) = page_dirty st"
  "alloc_count (btree_cursor_set_uncoupled_key c vuncoupledkey st) = alloc_count st"
  "page_node (btree_cursor_set_dupe_id c vdupeid st) = page_node st"
  "page_cursors (btree_cursor_set_dupe_id c vdupeid st) = page_cursors st"
  "page_dirty (btree_cursor_set_dupe_id c vdupeid st) = page_dirty st"
  "alloc_count (btree_cursor_set_dupe_id c vdupeid st) = alloc_count st"
  "page_node (btree_cursor_set_dupe_cache c vdupecache st) = page_node st"
  "page_cursors (btree_cursor_set_dupe_cache c vdupecache st) = page_cursors st"
  "page_dirty (btree_cursor_set_dupe_cache c vdupecache st) = page_dirty st"
  "alloc_count (btree_cursor_set_dupe_cache c vdupecache st) = alloc_count st"
  by (simp_all add: accessor_defs)

lemma links_set [simp]:
  "next_in_page (cursors (btree_cursor_set_parent c vparent st) x) = next_in_page (cursors st x)"
  "previous_in_page (cursors (btree_cursor_set_parent c vparent st) x) = previous_in_page (cursors st x)"
  "is_coupled_to_txnop (cursors (btree_cursor_set_parent c vparent st) x) = is_coupled_to_txnop (cursors st x)"
  "next_in_page (cursors (btree_cursor_set_flags c vflags st) x) = next_in_page (cursors st x)"
  "previous_in_page (cursors (btree_cursor_set_flags c vflags st) x) = previous_in_page (cursors st x)"
  "is_coupled_to_txnop (cursors (btree_cursor_set_flags c vflags st) x) = is_coupled_to_txnop (cursors st x)"
  "next_in_page (cursors (btree_cursor_set_coupled_page c vcoupledpage st) x) = next_in_page (cursors st x)"
  "previous_in_page (cursors (btree_cursor_set_coupled_page c vcoupledpage st) x) = previous_in_page (cursors st x)"
  "is_coupled_to_txnop (cursors (btree_cursor_set_coupled_page c vcoupledpage st) x) = is_coupled_to_txnop (cursors st x)"
  "next_in_page (cursors (btree_cursor_set_coupled_index c vcoupledindex st) x) = next_in_page (cursors st x)"
  "previous_in_page (cursors (btree_cursor_set_coupled_index c vcoupledindex st) x) = previous_in_page (cursors st x)"
  "is_coupled_to_txnop (cursors (btree_cursor_set_coupled_index c vcoupledindex st) x) = is_coupled_to_txnop (cursors st x)"
  "next_in_page (cursors (btree_cursor_set_uncoupled_key c vuncoupledkey st) x) = next_in_page (cursors st x)"
  "previous_in_page (cursors (btree_cursor_set_uncoupled_key c vuncoupledkey st) x) = previous_in_page (cursors st x)"
  "is_coupled_to_txnop (cursors (btree_cursor_set_uncoupled_key c vuncoupledkey st) x) = is_coupled_to_txnop (cursors st x)"
  "next_in_page (cursors (btree_cursor_set_dupe_id c vdupeid st) x) = next_in_page (cursors st x)"
  "previous_in_page (cursors (btree_cursor_set_dupe_id c vdupeid st) x) = previous_in_page (cursors st x)"
  "is_coupled_to_txnop (cursors (btree_cursor_set_dupe_id c vdupeid st) x) = is_coupled_to_txnop (cursors st x)"
  "next_in_page (cursors (btree_cursor_set_dupe_cache c vdupecache st) x) = next_in_page (cursors st x)"
  "previous_in_page (cursors (btree_cursor_set_dupe_cache c vdupecache st) x) = previous_in_page (cursors st x)"
  "is_coupled_to_txnop (cursors (btree_cursor_set_dupe_cache c vdupecache st) x) = is_coupled_to_txnop (cursors st x)"
  by (simp_all add: accessor_defs)

lemma cursor_list_set [simp]:
  "cursor_list (btree_cursor_set_parent c vparent st) p xs = cursor_list st p xs"
  "cursor_list (btree_cursor_set_flags c vflags st) p xs = cursor_list st p xs"
  "cursor_list (btree_cursor_set_coupled_page c vcoupledpage st) p xs = cursor_list st p xs"
  "cursor_list (btree_cursor_set_coupled_index c vcoupledindex st) p xs = cursor_list st p xs"
  "cursor_list (btree_cursor_set_uncoupled_key c vuncoupledkey st) p xs = cursor_list st p xs"
  "cursor_list (btree_cursor_set_dupe_id c vdupeid st) p xs = cursor_list st p xs"
  "cursor_list (btree_cursor_set_dupe_cache c vdupecache st) p xs = cursor_list st p xs"
  by (rule cursor_list_cong; simp)+

lemma lists_ok_set [simp]:
  "lists_ok (btree_cursor_set_parent c vparent st) L = lists_ok st L"
  "lists_ok (btree_cursor_set_flags c vflags st) L = lists_ok st L"
  "lists_ok (btree_cursor_set_coupled_page c vcoupledpage st) L = lists_ok st L"
  "lists_ok (btree_cursor_set_coupled_index c vcoupledindex st) L = lists_ok st L"
  "lists_ok (btree_cursor_set_uncoupled_key c vuncoupledkey st) L = lists_ok st L"
  "lists_ok (btree_cursor_set_dupe_id c vdupeid st) L = lists_ok st L"
  "lists_ok (btree_cursor_set_dupe_cache c vdupecache st) L = lists_ok st L"
  by (simp_all add: lists_ok_def)

lemma get_page_ops [simp]:
  "btree_cursor_get_parent (page_remove_cursor p c st) x = btree_cursor_get_parent st x"
  "btree_cursor_get_parent (page_add_cursor p c st) x = btree_cursor_get_parent st x"
  "btree_cursor_get_flags (page_remove_cursor p c st) x = btree_cursor_get_flags st x"
  "btree_cursor_get_flags (page_add_cursor p c st) x = btree_cursor_get_flags st x"
  "btree_cursor_get_coupled_page (page_remove_cursor p c st) x = btree_cursor_get_coupled_page st x"
  "btree_cursor_get_coupled_page (page_add_cursor p c st) x = btree_cursor_get_coupled_page st x"
  "btree_cursor_get_coupled_index (page_remove_cursor p c st) x = btree_cursor_get_coupled_index st x"
  "btree_cursor_get_coupled_index (page_add_cursor p c st) x = btree_cursor_get_coupled_index st x"
  "btree_cursor_get_uncoupled_key (page_remove_cursor p c st) x = btree_cursor_get_uncoupled_key st x"
  "btree_cursor_get_uncoupled_key (page_add_cursor p c st) x = btree_cursor_get_uncoupled_key st x"
  "btree_cursor_get_dupe_id (page_remove_cursor p c st) x = btree_cursor_get_dupe_id st x"
  "btree_cursor_get_dupe_id (page_add_cursor p c st) x = btree_cursor_get_dupe_id st x"
  "btree_cursor_get_dupe_cache (page_remove_cursor p c st) x = btree_cursor_get_dupe_cache st x"
  "btree_cursor_get_dupe_cache (page_add_cursor p c st) x = btree_cursor_get_dupe_cache st x"
  by (simp_all add: accessor_defs page_remove_cursor_fields page_add_cursor_fields)

lemma is_coupled_page_ops [simp]:
  "btree_cursor_is_coupled (page_remove_cursor p c st) x = btree_cursor_is_coupled st x"
  "btree_cursor_is_uncoupled (page_remove_cursor p c st) x = btree_cursor_is_uncoupled st x"
  "btree_cursor_is_coupled (page_add_cursor p c st) x = btree_cursor_is_coupled st x"
  "btree_cursor_is_uncoupled (page_add_cursor p c st) x = btree_cursor_is_uncoupled st x"
  by (simp_all add: btree_cursor_is_coupled_def btree_cursor_is_uncoupled_def)

subsection \<open>The cursor lists of all pages\<close>

lemma in_remove1D: "x \<in> set (remove1 c xs) \<Longrightarrow> x \<in> set xs"
  using set_remove1_subset [of c xs] by auto

lemma lists_ok_remove:
  assumes ok: "lists_ok st L" and c: "c \<in> set (L p)"
  shows "lists_ok (page_remove_cursor p c st) (L(p := remove1 c (L p)))"
proof -
  from ok have lp: "cursor_list st p (L p)" by (simp add: lists_ok_def)
  have "cursor_list (page_remove_cursor p c st) q ((L(p := remove1 c (L p))) q)" for q
  proof (cases "q = p")
    case True
    with page_remove_cursor_list(1) [OF lp c] show ?thesis by simp
  next
    case False
    from ok have lq: "cursor_list st q (L q)" by (simp add: lists_ok_def)
    have "cursor_list (page_remove_cursor p c st) q (L q)"
    proof (rule cursor_list_frame [OF lq])
      fix y assume "y \<in> set (L q)"
      with ok False have "y \<notin> set (L p)" by (auto simp: lists_ok_def)
      then show "cursors (page_remove_cursor p c st) y = cursors st y"
        by (rule page_remove_cursor_list(2) [OF lp c])
    next
      show "page_cursors (page_remove_cursor p c st) q = page_cursors st q"
        using False by (simp add: page_remove_cursor_frame)
    qed
    with False show ?thesis by simp
  qed
  moreover have "x \<notin> set ((L(p := remove1 c (L p))) b)"
    if "a \<noteq> b" "x \<in> set ((L(p := remove1 c (L p))) a)" for a b x
    using ok that by (auto simp: lists_ok_def dest: in_remove1D split: if_splits)
  ultimately show ?thesis by (simp add: lists_ok_def)
qed

lemma lists_ok_add:
  assumes ok: "lists_ok st L" and c: "\<forall>q. c \<notin> set (L q)" "c \<noteq> 0"
  shows "lists_ok (page_add_cursor p c st) (L(p := c # L p))"
proof -
  from ok have lp: "cursor_list st p (L p)" by (simp add: lists_ok_def)
  from c have cp: "c \<notin> set (L p)" by simp
  have "cursor_list (page_add_cursor p c st) q ((L(p := c # L p)) q)" for q
  proof (cases "q = p")
    case True
    with page_add_cursor_list(1) [OF lp cp c(2)] show ?thesis by simp
  next
    case False
    from ok have lq: "cursor_list st q (L q)" by (simp add: lists_ok_def)
    have "cursor_list (page_add_cursor p c st) q (L q)"
    proof (rule cursor_list_frame [OF lq])
      fix y assume y: "y \<in> set (L q)"
      with ok False have "y \<notin> set (L p)" by (auto simp: lists_ok_def)
      moreover from y c have "y \<noteq> c" by auto
      ultimately show "cursors (page_add_cursor p c st) y = cursors st y"
        by (rule page_add_cursor_list(2) [OF lp cp c(2)])
    next
      show "page_cursors (page_add_cursor p c st) q = page_cursors st q"
        using False by (simp add: page_add_cursor_frame)
    qed
    with False show ?thesis by simp
  qed
  moreover have "x \<notin> set ((L(p := c # L p)) b)"
    if "a \<noteq> b" "x \<in> set ((L(p := c # L p)) a)" for a b x
    using ok that c by (auto simp: lists_ok_def split: if_splits)
  ultimately show ?thesis by (simp add: lists_ok_def)
qed

subsection \<open>The operations keep the cursor well formed\<close>

lemma is_coupled_set_flags [simp]:
  "btree_cursor_is_coupled (btree_cursor_set_flags c v st) c = (v AND BTREE_CURSOR_FLAG_COUPLED \<noteq> 0)"
  "btree_cursor_is_uncoupled (btree_cursor_set_flags c v st) c = (v AND BTREE_CURSOR_FLAG_UNCOUPLED \<noteq> 0)"
  by (simp_all add: btree_cursor_is_coupled_def btree_cursor_is_uncoupled_def)

lemma consistent_set [simp]:
  "cursor_consistent (btree_cursor_set_coupled_index c vi st) x = cursor_consistent st x"
  "cursor_consistent (btree_cursor_set_dupe_id c vd st) x = cursor_consistent st x"
  "cursor_consistent (btree_cursor_set_dupe_cache c ve st) x = cursor_consistent st x"
  by (simp_all add: cursor_consistent_def cursor_sound_def)

lemma nil_set [simp]:
  "cursor_nil (btree_cursor_set_coupled_index c vi st) x = cursor_nil st x"
  "cursor_nil (btree_cursor_set_dupe_id c vd st) x = cursor_nil st x"
  "cursor_nil (btree_cursor_set_dupe_cache c ve st) x = cursor_nil st x"
  by (simp_all add: cursor_nil_def)

lemma consistent_nil:
  "cursor_consistent st c \<Longrightarrow> \<not> btree_cursor_is_coupled st c
   \<Longrightarrow> \<not> btree_cursor_is_uncoupled st c \<Longrightarrow> cursor_nil st c"
  by (auto simp: cursor_consistent_def cursor_sound_def cursor_nil_def)

lemma decouple_consistent:
  assumes con: "cursor_consistent st c" and cpl: "btree_cursor_is_coupled st c"
    and p: "p = btree_cursor_get_coupled_page st c"
    and f: "f AND BTREE_CURSOR_FLAG_UNCOUPLED = btree_cursor_get_flags st c AND BTREE_CURSOR_FLAG_UNCOUPLED"
  shows "cursor_consistent
           (btree_cursor_set_flags c (f AND NOT BTREE_CURSOR_FLAG_COUPLED)
              (page_remove_cursor p c st)) c"
    and "cursor_nil
           (btree_cursor_set_flags c (f AND NOT BTREE_CURSOR_FLAG_COUPLED)
              (page_remove_cursor p c st)) c"
proof -
  from con obtain L where ok: "lists_ok st L" and snd: "cursor_sound st L c"
    by (auto simp: cursor_consistent_def)
  from snd cpl p have mem: "c \<in> set (L p)" and nu: "\<not> btree_cursor_is_uncoupled st c"
    and key: "btree_cursor_get_uncoupled_key st c = None" and c0: "c \<noteq> 0"
    and par: "btree_cursor_get_parent st c = c"
    by (auto simp: cursor_sound_def)
  let ?L = "L(p := remove1 c (L p))"
  let ?st = "btree_cursor_set_flags c (f AND NOT BTREE_CURSOR_FLAG_COUPLED)
              (page_remove_cursor p c st)"
  have ok': "lists_ok ?st ?L" using lists_ok_remove [OF ok mem] by simp
  from ok have "distinct (L p)" by (simp add: lists_ok_def cursor_list_def)
  then have n1: "c \<notin> set (remove1 c (L p))" by simp
  have n2: "c \<notin> set (L q)" if "q \<noteq> p" for q
    using ok mem that by (auto simp: lists_ok_def)
  have nn: "c \<notin> set (?L q)" for q using n1 n2 by simp
  have fu: "f AND BTREE_CURSOR_FLAG_UNCOUPLED = 0"
    using f nu by (simp add: btree_cursor_is_uncoupled_def)
  have "cursor_sound ?st ?L c"
    unfolding cursor_sound_def using c0 par key fu nn by simp
  with ok' show "cursor_consistent ?st c" by (auto simp: cursor_consistent_def)
  show "cursor_nil ?st c" using key fu by (simp add: cursor_nil_def)
qed

lemma couple_consistent:
  assumes con: "cursor_consistent st c" and nc: "\<not> btree_cursor_is_coupled st c"
    and f: "f AND BTREE_CURSOR_FLAG_UNCOUPLED = 0"
    and key: "btree_cursor_get_uncoupled_key st c = None"
  shows "cursor_consistent
           (btree_cursor_set_flags c (f OR BTREE_CURSOR_FLAG_COUPLED)
              (btree_cursor_set_coupled_page c p (page_add_cursor p c st))) c"
proof -
  from con obtain L where ok: "lists_ok st L" and snd: "cursor_sound st L c"
    by (auto simp: cursor_consistent_def)
  from snd nc have nm: "\<forall>q. c \<notin> set (L q)" and c0: "c \<noteq> 0"
    and par: "btree_cursor_get_parent st c = c"
    by (auto simp: cursor_sound_def)
  let ?L = "L(p := c # L p)"
  let ?st = "btree_cursor_set_flags c (f OR BTREE_CURSOR_FLAG_COUPLED)
              (btree_cursor_set_coupled_page c p (page_add_cursor p c st))"
  have ok': "lists_ok ?st ?L" using lists_ok_add [OF ok nm c0] by simp
  have "cursor_sound ?st ?L c"
    unfolding cursor_sound_def using c0 par key f by simp
  with ok' show ?thesis by (auto simp: cursor_consistent_def)
qed

lemma release_key_consistent:
  assumes con: "cursor_consistent st c" and u: "btree_cursor_is_uncoupled st c"
    and f: "f AND BTREE_CURSOR_FLAG_COUPLED = btree_cursor_get_flags st c AND BTREE_CURSOR_FLAG_COUPLED"
  shows "cursor_consistent
           (btree_cursor_set_flags c (f AND NOT BTREE_CURSOR_FLAG_UNCOUPLED)
              (btree_cursor_set_uncoupled_key c None st)) c"
    and "cursor_nil
           (btree_cursor_set_flags c (f AND NOT BTREE_CURSOR_FLAG_UNCOUPLED)
              (btree_cursor_set_uncoupled_key c None st)) c"
proof -
  from con obtain L where ok: "lists_ok st L" and snd: "cursor_sound st L c"
    by (auto simp: cursor_consistent_def)
  from snd u have nc: "\<not> btree_cursor_is_coupled st c" and nm: "\<forall>q. c \<notin> set (L q)"
    and c0: "c \<noteq> 0" and par: "btree_cursor_get_parent st c = c"
    by (auto simp: cursor_sound_def)
  let ?st = "btree_cursor_set_flags c (f AND NOT BTREE_CURSOR_FLAG_UNCOUPLED)
              (btree_cursor_set_uncoupled_key c None st)"
  have fc: "f AND BTREE_CURSOR_FLAG_COUPLED = 0"
    using f nc by (simp add: btree_cursor_is_coupled_def)
  have ok': "lists_ok ?st L" using ok by simp
  have "cursor_sound ?st L c"
    unfolding cursor_sound_def using c0 par fc nm by simp
  with ok' show "cursor_consistent ?st c" by (auto simp: cursor_consistent_def)
  show "cursor_nil ?st c" using fc by (simp add: cursor_nil_def)
qed

lemma set_to_nil_consistent:
  assumes con: "cursor_consistent st c"
  shows "fst (btree_cursor_set_to_nil c st) = 0"
    and "cursor_consistent (snd (btree_cursor_set_to_nil c st)) c"
    and "cursor_nil (snd (btree_cursor_set_to_nil c st)) c"
proof -
  show "fst (btree_cursor_set_to_nil c st) = 0"
    by (simp add: btree_cursor_set_to_nil_def Let_def)
  from con have par: "btree_cursor_get_parent st c = c"
    by (auto simp: cursor_consistent_def cursor_sound_def)
  consider (u) "btree_cursor_is_uncoupled st c"
    | (c) "\<not> btree_cursor_is_uncoupled st c" "btree_cursor_is_coupled st c"
    | (n) "\<not> btree_cursor_is_uncoupled st c" "\<not> btree_cursor_is_coupled st c"
    by blast
  then have "cursor_consistent (snd (btree_cursor_set_to_nil c st)) c
     \<and> cursor_nil (snd (btree_cursor_set_to_nil c st)) c"
  proof cases
    case u
    with release_key_consistent [OF con u, of "btree_cursor_get_flags st c"]
    show ?thesis by (simp add: btree_cursor_set_to_nil_def Let_def)
  next
    case c
    with decouple_consistent [OF con c(2) refl, of "btree_cursor_get_flags st c"] par
    show ?thesis by (simp add: btree_cursor_set_to_nil_def Let_def)
  next
    case n
    with con consistent_nil [OF con] show ?thesis
      by (simp add: btree_cursor_set_to_nil_def Let_def)
  qed
  then show "cursor_consistent (snd (btree_cursor_set_to_nil c st)) c"
    and "cursor_nil (snd (btree_cursor_set_to_nil c st)) c" by simp_all
qed

lemma cursor_update_swap:
  "x\<lparr>bc_flags := f, bc_coupled_page := p\<rparr> = x\<lparr>bc_coupled_page := p, bc_flags := f\<rparr>"
  "x\<lparr>bc_coupled_index := i, bc_flags := f\<rparr> = x\<lparr>bc_flags := f, bc_coupled_index := i\<rparr>"
  for x :: Cursor
  by (cases x; simp)+

lemma nil_flags:
  "cursor_nil st c \<Longrightarrow> \<not> btree_cursor_is_coupled st c"
  "cursor_nil st c \<Longrightarrow> \<not> btree_cursor_is_uncoupled st c"
  "cursor_nil st c \<Longrightarrow> btree_cursor_get_flags st c AND BTREE_CURSOR_FLAG_UNCOUPLED = 0"
  "cursor_nil st c \<Longrightarrow> btree_cursor_get_uncoupled_key st c = None"
  by (auto simp: cursor_nil_def btree_cursor_is_uncoupled_def)

lemma consistent_parent:
  "cursor_consistent st c \<Longrightarrow> btree_cursor_get_parent st c = c"
  by (auto simp: cursor_consistent_def cursor_sound_def)

lemma couple_to_page_consistent:
  assumes con: "cursor_consistent st c" and nil: "cursor_nil st c"
  shows "cursor_consistent (couple_to_page c p i st) c"
    and "btree_cursor_is_coupled (couple_to_page c p i st) c"
    and "\<not> btree_cursor_is_uncoupled (couple_to_page c p i st) c"
proof -
  have eq: "couple_to_page c p i st
    = btree_cursor_set_coupled_index c i
        (btree_cursor_set_flags c (btree_cursor_get_flags st c OR BTREE_CURSOR_FLAG_COUPLED)
           (btree_cursor_set_coupled_page c p (page_add_cursor p c st)))"
    using consistent_parent [OF con]
    by (simp add: couple_to_page_def Let_def accessor_defs page_add_cursor_fields cursor_update_swap)
  show "cursor_consistent (couple_to_page c p i st) c"
    unfolding eq using couple_consistent [OF con nil_flags(1,3,4) [OF nil]] by simp
  show "btree_cursor_is_coupled (couple_to_page c p i st) c"
    unfolding eq by simp
  show "\<not> btree_cursor_is_uncoupled (couple_to_page c p i st) c"
    unfolding eq using nil_flags(3) [OF nil] by simp
qed

lemma find_cursor_consistent:
  assumes con: "cursor_consistent st c" and nil: "cursor_nil st c"
    and r: "btree_find_cursor E c k fl st = (s, st')"
  shows "cursor_consistent st' c"
    and "s \<noteq> 0 \<Longrightarrow> st' = st"
    and "s = 0 \<Longrightarrow> btree_cursor_is_coupled st' c \<and> \<not> btree_cursor_is_uncoupled st' c"
proof -
  obtain s0 p i where fk: "find_key E k fl = (s0, p, i)" by (cases "find_key E k fl") auto
  show "s \<noteq> 0 \<Longrightarrow> st' = st"
    using r fk by (auto simp: btree_find_cursor_def Let_def split: if_splits)
  have eq: "s = 0 \<Longrightarrow> st' = btree_cursor_set_dupe_id c 0 (btree_cursor_set_coupled_index c i
        (btree_cursor_set_coupled_page c p (btree_cursor_set_flags c (btree_cursor_get_flags st c OR BTREE_CURSOR_FLAG_COUPLED)
           (page_add_cursor p c st))))"
    using r fk consistent_parent [OF con]
    by (auto simp: btree_find_cursor_def Let_def split: if_splits)
  have sw: "btree_cursor_set_coupled_page c p (btree_cursor_set_flags c f x)
    = btree_cursor_set_flags c f (btree_cursor_set_coupled_page c p x)" for f x
    by (simp add: accessor_defs cursor_update_swap)
  show "cursor_consistent st' c"
  proof (cases "s = 0")
    case True
    show ?thesis unfolding eq [OF True] sw
      using couple_consistent [OF con nil_flags(1,3,4) [OF nil]] by simp
  next
    case False
    with \<open>s \<noteq> 0 \<Longrightarrow> st' = st\<close> con show ?thesis by simp
  qed
  show "s = 0 \<Longrightarrow> btree_cursor_is_coupled st' c \<and> \<not> btree_cursor_is_uncoupled st' c"
    using eq nil_flags(3) [OF nil] by (simp add: sw)
qed

lemma find_consistent:
  assumes con: "cursor_consistent st c"
    and r: "btree_cursor_find E c k fl st = (s, st')"
  shows "cursor_consistent st' c"
    and "s \<noteq> 0 \<Longrightarrow> st' = st \<or> cursor_nil st' c"
    and "s = 0 \<Longrightarrow> btree_cursor_is_coupled st' c \<and> \<not> btree_cursor_is_uncoupled st' c"
proof -
  obtain st1 where n: "btree_cursor_set_to_nil c st = (0, st1)"
    using set_to_nil_consistent(1) [OF con] by (cases "btree_cursor_set_to_nil c st") auto
  from set_to_nil_consistent(2,3) [OF con] n
  have c1: "cursor_consistent st1 c" and n1: "cursor_nil st1 c" by simp_all
  obtain s2 st2 where f: "btree_find_cursor E c k fl st1 = (s2, st2)"
    by (cases "btree_find_cursor E c k fl st1") auto
  note fc = find_cursor_consistent [OF c1 n1 f]
  have res: "(s, st') = (if \<not> backend E then (HAM_NOT_INITIALIZED, st) else (s2, st2))"
    using r n f by (auto simp: btree_cursor_find_def split: if_splits)
  show "cursor_consistent st' c" using res con fc(1) by (auto split: if_splits)
  show "s \<noteq> 0 \<Longrightarrow> st' = st \<or> cursor_nil st' c" using res fc(2) n1 by (auto split: if_splits)
  show "s = 0 \<Longrightarrow> btree_cursor_is_coupled st' c \<and> \<not> btree_cursor_is_uncoupled st' c"
    using res fc(3) by (auto split: if_splits)
qed

lemma same_position_refl [simp]: "same_position st st c"
  by (simp add: same_position_def)

lemma same_position_set [simp]:
  "same_position st (btree_cursor_set_dupe_cache c ve st') x = same_position st st' x"
  "same_position (btree_cursor_set_dupe_cache c ve st) st' x = same_position st st' x"
  by (simp_all add: same_position_def)

lemma btree_cursor_couple_consistent:
  assumes con: "cursor_consistent st c"
    and r: "btree_cursor_couple E c st = (s, st')"
  shows "cursor_consistent st' c"
    and "s \<noteq> 0 \<Longrightarrow> same_position st st' c \<or> cursor_nil st' c"
    and "s = 0 \<Longrightarrow> btree_cursor_is_coupled st' c \<and> \<not> btree_cursor_is_uncoupled st' c"
proof -
  obtain s0 key where ck: "db_copy_key E (btree_cursor_get_uncoupled_key st c) = (s0, key)"
    by (cases "db_copy_key E (btree_cursor_get_uncoupled_key st c)") auto
  obtain s1 st1 where f: "btree_cursor_find E c key 0 st = (s1, st1)"
    by (cases "btree_cursor_find E c key 0 st") auto
  note fc = find_consistent [OF con f]
  have res: "(s, st') = (if s0 \<noteq> 0 then (s0, st)
       else (s1, btree_cursor_set_dupe_id c (btree_cursor_get_dupe_id st c) st1))"
    using r ck f by (auto simp: btree_cursor_couple_def Let_def)
  show "cursor_consistent st' c" using res con fc(1) by (auto split: if_splits)
  show "s \<noteq> 0 \<Longrightarrow> same_position st st' c \<or> cursor_nil st' c"
    using res fc(2) by (auto simp: same_position_def split: if_splits)
  show "s = 0 \<Longrightarrow> btree_cursor_is_coupled st' c \<and> \<not> btree_cursor_is_uncoupled st' c"
    using res fc(3) by (auto split: if_splits)
qed

lemma couple_or_nil_consistent:
  assumes con: "cursor_consistent st c"
    and r: "couple_or_nil E c st = (s, st')"
  shows "cursor_consistent st' c"
    and "s \<noteq> 0 \<Longrightarrow> same_position st st' c \<or> cursor_nil st' c"
    and "s = 0 \<Longrightarrow> btree_cursor_is_coupled st' c \<and> \<not> btree_cursor_is_uncoupled st' c"
  using r con btree_cursor_couple_consistent [OF con, of E s st']
  by (auto simp: couple_or_nil_def split: if_splits)

lemma move_next_consistent:
  assumes con: "cursor_consistent st c"
    and r: "move_next E c flags st = (s, st')"
  shows "cursor_consistent st' c"
    and "s \<noteq> 0 \<Longrightarrow> same_position st st' c \<or> cursor_nil st' c \<or> btree_cursor_is_coupled st' c"
    and "s = 0 \<Longrightarrow> btree_cursor_is_coupled st' c"
proof -
  obtain s0 st0 where cn: "couple_or_nil E c st = (s0, st0)"
    by (cases "couple_or_nil E c st") auto
  note k = couple_or_nil_consistent [OF con cn]
  have "cursor_consistent st' c
      \<and> (s \<noteq> 0 \<longrightarrow> same_position st st' c \<or> cursor_nil st' c \<or> btree_cursor_is_coupled st' c)
      \<and> (s = 0 \<longrightarrow> btree_cursor_is_coupled st' c)"
  proof (cases "s0 = 0")
    case False
    with r cn have "s = s0" "st' = st0" by (simp_all add: move_next_def)
    with k False show ?thesis by auto
  next
    case True
    with k have c0: "cursor_consistent st0 c" "btree_cursor_is_coupled st0 c"
      "\<not> btree_cursor_is_uncoupled st0 c" by simp_all
    note p0 = consistent_parent [OF c0(1)]
    have f0: "btree_cursor_get_flags st0 c AND BTREE_CURSOR_FLAG_UNCOUPLED = 0"
      using c0(3) by (simp add: btree_cursor_is_uncoupled_def)
    have "cursor_consistent st' c \<and> (cursor_nil st' c \<or> btree_cursor_is_coupled st' c)
      \<and> (s = 0 \<longrightarrow> btree_cursor_is_coupled st' c)"
      using r cn True c0 p0 f0
      by (auto simp: move_next_def Let_def blob_duplicate_get_def
          decouple_consistent couple_to_page_consistent
          split: prod.splits if_splits sum.splits)
    then show ?thesis by auto
  qed
  then show "cursor_consistent st' c"
    and "s \<noteq> 0 \<Longrightarrow> same_position st st' c \<or> cursor_nil st' c \<or> btree_cursor_is_coupled st' c"
    and "s = 0 \<Longrightarrow> btree_cursor_is_coupled st' c" by simp_all
qed

lemma move_previous_consistent:
  assumes con: "cursor_consistent st c"
    and r: "move_previous E c flags st = (s, st')"
  shows "cursor_consistent st' c"
    and "s \<noteq> 0 \<Longrightarrow> same_position st st' c \<or> cursor_nil st' c \<or> btree_cursor_is_coupled st' c"
    and "s = 0 \<Longrightarrow> btree_cursor_is_coupled st' c"
proof -
  obtain s0 st0 where cn: "couple_or_nil E c st = (s0, st0)"
    by (cases "couple_or_nil E c st") auto
  note k = couple_or_nil_consistent [OF con cn]
  have "cursor_consistent st' c
      \<and> (s \<noteq> 0 \<longrightarrow> same_position st st' c \<or> cursor_nil st' c \<or> btree_cursor_is_coupled st' c)
      \<and> (s = 0 \<longrightarrow> btree_cursor_is_coupled st' c)"
  proof (cases "s0 = 0")
    case False
    with r cn have "s = s0" "st' = st0" by (simp_all add: move_previous_def)
    with k False show ?thesis by auto
  next
    case True
    with k have c0: "cursor_consistent st0 c" "btree_cursor_is_coupled st0 c"
      "\<not> btree_cursor_is_uncoupled st0 c" by simp_all
    note p0 = consistent_parent [OF c0(1)]
    have f0: "btree_cursor_get_flags st0 c AND BTREE_CURSOR_FLAG_UNCOUPLED = 0"
      using c0(3) by (simp add: btree_cursor_is_uncoupled_def)
    have "cursor_consistent st' c \<and> (cursor_nil st' c \<or> btree_cursor_is_coupled st' c)
      \<and> (s = 0 \<longrightarrow> btree_cursor_is_coupled st' c)"
      using r cn True c0 p0 f0
      by (auto simp: move_previous_def Let_def blob_duplicate_get_def blob_duplicate_get_count_def
          decouple_consistent couple_to_page_consistent
          split: prod.splits if_splits sum.splits)
    then show ?thesis by auto
  qed
  then show "cursor_consistent st' c"
    and "s \<noteq> 0 \<Longrightarrow> same_position st st' c \<or> cursor_nil st' c \<or> btree_cursor_is_coupled st' c"
    and "s = 0 \<Longrightarrow> btree_cursor_is_coupled st' c" by simp_all
qed

lemma move_first_consistent:
  assumes con: "cursor_consistent st c"
    and r: "move_first E c flags st = Some (s, st')"
  shows "cursor_consistent st' c"
    and "s \<noteq> 0 \<Longrightarrow> cursor_nil st' c"
    and "s = 0 \<Longrightarrow> btree_cursor_is_coupled st' c"
proof -
  note n = set_to_nil_consistent [OF con]
  have "cursor_consistent st' c \<and> (s \<noteq> 0 \<longrightarrow> cursor_nil st' c)
      \<and> (s = 0 \<longrightarrow> btree_cursor_is_coupled st' c)"
    using r n
    by (auto simp: move_first_def Let_def couple_to_page_consistent
        split: prod.splits if_splits option.splits)
  then show "cursor_consistent st' c"
    and "s \<noteq> 0 \<Longrightarrow> cursor_nil st' c"
    and "s = 0 \<Longrightarrow> btree_cursor_is_coupled st' c" by simp_all
qed

lemma move_last_consistent:
  assumes con: "cursor_consistent st c"
    and r: "move_last E c flags st = Some (s, st')"
  shows "cursor_consistent st' c"
    and "s \<noteq> 0 \<Longrightarrow> cursor_nil st' c \<or> btree_cursor_is_coupled st' c"
    and "s = 0 \<Longrightarrow> btree_cursor_is_coupled st' c"
proof -
  obtain st1 where n: "btree_cursor_set_to_nil c st = (0, st1)"
    using set_to_nil_consistent(1) [OF con] by (cases "btree_cursor_set_to_nil c st") auto
  from set_to_nil_consistent(2,3) [OF con] n
  have c1: "cursor_consistent st1 c" and n1: "cursor_nil st1 c" by simp_all
  have "cursor_consistent st' c \<and> (s \<noteq> 0 \<longrightarrow> cursor_nil st' c \<or> btree_cursor_is_coupled st' c)
      \<and> (s = 0 \<longrightarrow> btree_cursor_is_coupled st' c)"
    using r n c1 n1
    by (auto simp: move_last_def Let_def couple_to_page_consistent blob_duplicate_get_count_def
        split: prod.splits if_splits option.splits)
  then show "cursor_consistent st' c"
    and "s \<noteq> 0 \<Longrightarrow> cursor_nil st' c \<or> btree_cursor_is_coupled st' c"
    and "s = 0 \<Longrightarrow> btree_cursor_is_coupled st' c" by simp_all
qed

lemma move_read_consistent:
  assumes r: "move_read E c key record flags st = (s, st')"
  shows "cursor_consistent st' c = cursor_consistent st c"
    and "same_position st st' c"
    and "btree_cursor_is_coupled st' c = btree_cursor_is_coupled st c"
    and "cursor_nil st' c = cursor_nil st c"
proof -
  have "st' = st \<or> (\<exists>e. st' = btree_cursor_set_dupe_cache c e st)"
    using r
    by (auto simp: move_read_def Let_def blob_duplicate_get_def
        split: prod.splits if_splits)
  then show "cursor_consistent st' c = cursor_consistent st c"
    and "same_position st st' c"
    and "btree_cursor_is_coupled st' c = btree_cursor_is_coupled st c"
    and "cursor_nil st' c = cursor_nil st c"
    by auto
qed

lemma overwrite_consistent:
  assumes con: "cursor_consistent st c"
    and r: "btree_cursor_overwrite E c flags st = (s, st')"
  shows "cursor_consistent st' c"
    and "s \<noteq> 0 \<Longrightarrow> same_position st st' c \<or> cursor_nil st' c \<or> btree_cursor_is_coupled st' c"
proof -
  obtain s0 st0 where cn: "couple_or_nil E c st = (s0, st0)"
    by (cases "couple_or_nil E c st") auto
  note k = couple_or_nil_consistent [OF con cn]
  have pn: "cursor_consistent (x\<lparr>page_node := n\<rparr>) c = cursor_consistent x c"
    "btree_cursor_is_coupled (x\<lparr>page_node := n\<rparr>) c = btree_cursor_is_coupled x c"
    "cursor_consistent (page_set_dirty p x) c = cursor_consistent x c"
    "btree_cursor_is_coupled (page_set_dirty p x) c = btree_cursor_is_coupled x c" for x n p
    by (simp_all add: cursor_consistent_def cursor_sound_def lists_ok_def cursor_list_def
        accessor_defs)
  have "cursor_consistent st' c
      \<and> (s \<noteq> 0 \<longrightarrow> same_position st st' c \<or> cursor_nil st' c \<or> btree_cursor_is_coupled st' c)"
  proof (cases "s0 = 0")
    case False
    with r cn have "s = s0" "st' = st0" by (simp_all add: btree_cursor_overwrite_def)
    with k False show ?thesis by auto
  next
    case True
    with k have c0: "cursor_consistent st0 c" "btree_cursor_is_coupled st0 c"
      "\<not> btree_cursor_is_uncoupled st0 c" by simp_all
    have "cursor_consistent st' c \<and> btree_cursor_is_coupled st' c"
      using r cn True c0
      by (auto simp: btree_cursor_overwrite_def Let_def pn
          split: prod.splits if_splits)
    then show ?thesis by auto
  qed
  then show "cursor_consistent st' c"
    and "s \<noteq> 0 \<Longrightarrow> same_position st st' c \<or> cursor_nil st' c \<or> btree_cursor_is_coupled st' c"
    by simp_all
qed

lemma move_consistent:
  assumes con: "cursor_consistent st c"
    and r: "btree_cursor_move E c key record flags st = Some (s, st')"
  shows "cursor_consistent st' c"
    and "s \<noteq> 0 \<Longrightarrow> same_position st st' c \<or> cursor_nil st' c \<or> btree_cursor_is_coupled st' c"
proof -
  let ?st0 = "btree_cursor_set_dupe_cache c dupe_entry_zero st"
  let ?m = "if flags AND HAM_CURSOR_FIRST \<noteq> 0 then map_option Inr (move_first E c flags ?st0)
               else if flags AND HAM_CURSOR_LAST \<noteq> 0 then map_option Inr (move_last E c flags ?st0)
               else if flags AND HAM_CURSOR_NEXT \<noteq> 0 then Some (Inr (move_next E c flags ?st0))
               else if flags AND HAM_CURSOR_PREVIOUS \<noteq> 0
                 then Some (Inr (move_previous E c flags ?st0))
               else if btree_cursor_is_nil ?st0 c then
                 (if key \<or> record then Some (Inl (HAM_CURSOR_IS_NIL, ?st0))
                  else Some (Inl (0, ?st0)))
               else if btree_cursor_is_uncoupled ?st0 c then Some (Inr (btree_cursor_couple E c ?st0))
               else Some (Inr (0, ?st0))"
  have c0: "cursor_consistent ?st0 c" using con by simp
  have good: "cursor_consistent st1 c
      \<and> (s1 \<noteq> 0 \<longrightarrow> same_position st st1 c \<or> cursor_nil st1 c \<or> btree_cursor_is_coupled st1 c)
      \<and> (s1 = 0 \<longrightarrow> same_position st st1 c \<or> btree_cursor_is_coupled st1 c)"
    if m: "?m = Some (Inr (s1, st1))" for s1 st1
  proof -
    consider (mfirst) "move_first E c flags ?st0 = Some (s1, st1)"
      | (mlast) "move_last E c flags ?st0 = Some (s1, st1)"
      | (mnext) "move_next E c flags ?st0 = (s1, st1)"
      | (mprev) "move_previous E c flags ?st0 = (s1, st1)"
      | (couple) "btree_cursor_couple E c ?st0 = (s1, st1)"
      | (stay) "s1 = 0" "st1 = ?st0"
      using m by (auto split: if_splits)
    then show ?thesis
    proof cases
      case mfirst
      from move_first_consistent [OF c0 mfirst] show ?thesis by auto
    next
      case mlast
      from move_last_consistent [OF c0 mlast] show ?thesis by auto
    next
      case mnext
      from move_next_consistent [OF c0 mnext] show ?thesis by auto
    next
      case mprev
      from move_previous_consistent [OF c0 mprev] show ?thesis by auto
    next
      case couple
      from btree_cursor_couple_consistent [OF c0 couple] show ?thesis by auto
    next
      case stay
      with c0 show ?thesis by simp
    qed
  qed
  have "cursor_consistent st' c
      \<and> (s \<noteq> 0 \<longrightarrow> same_position st st' c \<or> cursor_nil st' c \<or> btree_cursor_is_coupled st' c)"
  proof (cases "backend E")
    case False
    with r con show ?thesis by (simp add: btree_cursor_move_def)
  next
    case True
    with r have rr: "(case ?m of None \<Rightarrow> None | Some (Inl r) \<Rightarrow> Some r
            | Some (Inr (s, st1)) \<Rightarrow>
                if s \<noteq> 0 then Some (s, st1) else Some (move_read E c key record flags st1))
          = Some (s, st')"
      by (simp add: btree_cursor_move_def Let_def)
    then obtain x where mx: "?m = Some x" by (cases ?m) auto
    show ?thesis
    proof (cases x)
      case (Inl a)
      with mx have "a = (HAM_CURSOR_IS_NIL, ?st0) \<or> a = (0, ?st0)"
        by (auto split: if_splits)
      moreover from rr mx Inl have "a = (s, st')" by simp
      ultimately show ?thesis using c0 by auto
    next
      case (Inr b)
      obtain s1 st1 where b: "b = (s1, st1)" by (cases b) auto
      note g = good [OF mx [unfolded Inr b]]
      show ?thesis
      proof (cases "s1 = 0")
        case False
        with rr mx Inr b have "s = s1" "st' = st1" by simp_all
        with g False show ?thesis by simp
      next
        case True
        with rr mx Inr b have rd: "move_read E c key record flags st1 = (s, st')" by simp
        note mr = move_read_consistent [OF rd]
        from g True have "same_position st st1 c \<or> btree_cursor_is_coupled st1 c" by simp
        then have "same_position st st' c \<or> btree_cursor_is_coupled st' c"
          using mr(2,3) by (auto simp: same_position_def)
        with g mr(1) show ?thesis by auto
      qed
    qed
  qed
  then show "cursor_consistent st' c"
    and "s \<noteq> 0 \<Longrightarrow> same_position st st' c \<or> cursor_nil st' c \<or> btree_cursor_is_coupled st' c"
    by simp_all
qed

lemma lists_ok_alloc [simp]: "lists_ok (st\<lparr>alloc_count := n\<rparr>) L = lists_ok st L"
  by (simp add: lists_ok_def cursor_list_alloc)

lemma consistent_alloc [simp]:
  "cursor_consistent (st\<lparr>alloc_count := n\<rparr>) c = cursor_consistent st c"
  by (simp add: cursor_consistent_def cursor_sound_def accessor_defs)

lemma same_position_alloc [simp]:
  "same_position st (st\<lparr>alloc_count := n\<rparr>) c"
  by (simp add: same_position_def accessor_defs)

lemma uncouple_consistent:
  assumes con: "cursor_consistent st c" and cpl: "btree_cursor_is_coupled st c"
    and r: "btree_cursor_uncouple E c 0 st = (s, st')"
  shows "cursor_consistent st' c"
    and "s \<noteq> 0 \<Longrightarrow> same_position st st' c"
    and "s = 0 \<Longrightarrow> btree_cursor_is_uncoupled st' c \<and> \<not> btree_cursor_is_coupled st' c"
proof -
  let ?p = "btree_cursor_get_coupled_page st c"
  let ?st1 = "st\<lparr>alloc_count := Suc (alloc_count st)\<rparr>"
  from con obtain L where ok: "lists_ok st L" and snd: "cursor_sound st L c"
    by (auto simp: cursor_consistent_def)
  from snd cpl have mem: "c \<in> set (L ?p)" and nu: "\<not> btree_cursor_is_uncoupled st c"
    and c0: "c \<noteq> 0" and par: "btree_cursor_get_parent st c = c"
    by (auto simp: cursor_sound_def)
  from cpl nu par have w: "coupled_to st ?p c" by (simp add: coupled_to_def)
  note eq = uncouple_coupled_eq [OF w, of E, unfolded r]
  let ?f = "\<lambda>x. x\<lparr>bc_flags := (bc_flags x AND NOT BTREE_CURSOR_FLAG_COUPLED)
                                      OR BTREE_CURSOR_FLAG_UNCOUPLED,
                         bc_uncoupled_key := Some (key_bytes (coupled_entry st c))\<rparr>"
  let ?st2 = "upd_cursor c ?f (page_remove_cursor ?p c ?st1)"
  let ?L = "L(?p := remove1 c (L ?p))"
  have ok1: "lists_ok ?st1 L" using ok by simp
  have mem1: "c \<in> set (L ?p)" by (rule mem)
  have ok2: "lists_ok ?st2 ?L"
    using lists_ok_remove [OF ok1 mem1] by (simp add: lists_ok_def cursor_list_upd_payload)
  from ok have "distinct (L ?p)" by (simp add: lists_ok_def cursor_list_def)
  then have n1: "c \<notin> set (remove1 c (L ?p))" by simp
  have n2: "c \<notin> set (L q)" if "q \<noteq> ?p" for q
    using ok mem that by (auto simp: lists_ok_def)
  have nn: "c \<notin> set (?L q)" for q using n1 n2 by simp
  have fl: "btree_cursor_is_uncoupled ?st2 c" "\<not> btree_cursor_is_coupled ?st2 c"
    "btree_cursor_get_uncoupled_key ?st2 c \<noteq> None" "btree_cursor_get_parent ?st2 c = c"
    using par
    by (simp_all add: btree_cursor_is_uncoupled_def btree_cursor_is_coupled_def
        btree_cursor_get_flags_def btree_cursor_get_uncoupled_key_def
        btree_cursor_get_parent_def upd_cursor_def page_remove_cursor_fields)
  have "cursor_sound ?st2 ?L c"
    unfolding cursor_sound_def using c0 fl nn by simp
  with ok2 have c2: "cursor_consistent ?st2 c" by (auto simp: cursor_consistent_def)
  have "cursor_consistent st' c
     \<and> (s \<noteq> 0 \<longrightarrow> same_position st st' c)
     \<and> (s = 0 \<longrightarrow> btree_cursor_is_uncoupled st' c \<and> \<not> btree_cursor_is_coupled st' c)"
    using eq con c2 fl by (auto split: if_splits)
  then show "cursor_consistent st' c"
    and "s \<noteq> 0 \<Longrightarrow> same_position st st' c"
    and "s = 0 \<Longrightarrow> btree_cursor_is_uncoupled st' c \<and> \<not> btree_cursor_is_coupled st' c"
    by simp_all
qed

lemma insert_consistent:
  assumes con: "cursor_consistent st c" and ext: "externals_keep_cursor E c"
    and r: "btree_cursor_insert E c flags st = (s, st')" and s: "s \<noteq> 0"
  shows "cursor_consistent st' c \<and> (same_position st st' c \<or> cursor_nil st' c)"
proof (cases "backend E")
  case False
  with r con show ?thesis by (simp add: btree_cursor_insert_def)
next
  case True
  with r s have "insert_cursor E c flags st = (s, st')"
    by (auto simp: btree_cursor_insert_def split: prod.splits if_splits)
  with ext con s show ?thesis unfolding externals_keep_cursor_def by blast
qed

lemma erase_consistent:
  assumes con: "cursor_consistent st c" and ext: "externals_keep_cursor E c"
    and r: "btree_cursor_erase E c flags st = (s, st')" and s: "s \<noteq> 0"
  shows "cursor_consistent st' c
     \<and> (same_position st st' c \<or> cursor_nil st' c
          \<or> (btree_cursor_is_coupled st c \<and> btree_cursor_is_uncoupled st' c))"
proof (cases "backend E")
  case False
  with r con show ?thesis by (simp add: btree_cursor_erase_def)
next
  case be: True
  let ?pre = "if btree_cursor_is_coupled st c then btree_cursor_uncouple E c 0 st
            else if \<not> btree_cursor_is_uncoupled st c then (HAM_CURSOR_IS_NIL, st)
            else (0, st)"
  obtain s0 st0 where pre: "?pre = (s0, st0)" by (cases ?pre) auto
  have p: "cursor_consistent st0 c
      \<and> (s0 \<noteq> 0 \<longrightarrow> same_position st st0 c)
      \<and> (s0 = 0 \<longrightarrow> btree_cursor_is_uncoupled st0 c
            \<and> (same_position st st0 c \<or> btree_cursor_is_coupled st c))"
  proof (cases "btree_cursor_is_coupled st c")
    case True
    with pre have u: "btree_cursor_uncouple E c 0 st = (s0, st0)" by simp
    from uncouple_consistent [OF con True u] True show ?thesis by auto
  next
    case False
    with pre con show ?thesis by (auto split: if_splits)
  qed
  show ?thesis
  proof (cases "s0 = 0")
    case False
    with r be pre have "s = s0" "st' = st0" by (simp_all add: btree_cursor_erase_def)
    with p False show ?thesis by simp
  next
    case True
    obtain s1 st1 where e: "erase_cursor E (btree_cursor_get_uncoupled_key st0 c) c flags st0
        = (s1, st1)"
      by (cases "erase_cursor E (btree_cursor_get_uncoupled_key st0 c) c flags st0") auto
    have nz: "fst (btree_cursor_set_to_nil c st1) = 0"
      by (simp add: btree_cursor_set_to_nil_def Let_def)
    from r be pre True e s nz have "s = s1" "st' = st1"
      by (auto simp: btree_cursor_erase_def split: if_splits)
    with e s have e': "erase_cursor E (btree_cursor_get_uncoupled_key st0 c) c flags st0 = (s, st')"
      by simp
    from p have c0: "cursor_consistent st0 c" by simp
    from ext c0 e' s
    have k: "cursor_consistent st' c \<and> (same_position st0 st' c \<or> cursor_nil st' c)"
      unfolding externals_keep_cursor_def by blast
    from p True have u0: "btree_cursor_is_uncoupled st0 c"
      and d: "same_position st st0 c \<or> btree_cursor_is_coupled st c" by simp_all
    from k u0 d show ?thesis by (auto simp: same_position_def)
  qed
qed

text \<open>
  C4, as the code has it. Let the cursor be well formed at the call: its two state flags
  are not both set, it is on the cursor list of its page exactly when it is coupled, and it
  owns a saved key exactly when it is uncoupled. Let \<open>btree_insert_cursor\<close> and
  \<open>btree_erase_cursor\<close> keep to the invariant under error. When an operation returns a
  nonzero status, the cursor is well formed again, so it is never half-coupled. After
  \<open>btree_cursor_find\<close> and \<open>btree_cursor_insert\<close> it is at the position it had before the
  call, or it is NIL and owns no key. After \<open>btree_cursor_move\<close> (with \<open>FIRST\<close>, \<open>LAST\<close>,
  \<open>NEXT\<close>, \<open>PREVIOUS\<close> or no direction) and \<open>btree_cursor_overwrite\<close> it may also be
  coupled, on the cursor list of its page, at a slot it did not have before the call: the
  code does not move a cursor back, and it leaves a cursor coupled that it has coupled.
  After \<open>btree_cursor_erase\<close> it may also be uncoupled where it was coupled before the
  call: the code uncouples the cursor before it calls \<open>btree_erase_cursor\<close> and returns
  the error of that call as it is.
\<close>

theorem failure_keeps_consistent:
  assumes con: "cursor_consistent st c" and ext: "externals_keep_cursor E c"
    and s: "s \<noteq> 0"
  shows "(btree_cursor_move E c key record flags st = Some (s, st')
          \<or> btree_cursor_overwrite E c flags st = (s, st')
          \<longrightarrow> cursor_consistent st' c
              \<and> (same_position st st' c \<or> cursor_nil st' c \<or> btree_cursor_is_coupled st' c))
       \<and> (btree_cursor_find E c k flags st = (s, st')
          \<or> btree_cursor_insert E c flags st = (s, st')
          \<longrightarrow> cursor_consistent st' c \<and> (same_position st st' c \<or> cursor_nil st' c))
       \<and> (btree_cursor_erase E c flags st = (s, st')
          \<longrightarrow> cursor_consistent st' c
              \<and> (same_position st st' c \<or> cursor_nil st' c
                   \<or> (btree_cursor_is_coupled st c \<and> btree_cursor_is_uncoupled st' c)))"
proof -
  have a: "cursor_consistent st' c
      \<and> (same_position st st' c \<or> cursor_nil st' c \<or> btree_cursor_is_coupled st' c)"
    if m: "btree_cursor_move E c key record flags st = Some (s, st')"
    using move_consistent [OF con m] s by simp
  have b: "cursor_consistent st' c
      \<and> (same_position st st' c \<or> cursor_nil st' c \<or> btree_cursor_is_coupled st' c)"
    if o: "btree_cursor_overwrite E c flags st = (s, st')"
    using overwrite_consistent [OF con o] s by simp
  have f: "cursor_consistent st' c \<and> (same_position st st' c \<or> cursor_nil st' c)"
    if f: "btree_cursor_find E c k flags st = (s, st')"
    using find_consistent(1,2) [OF con f] s by auto
  have i: "cursor_consistent st' c \<and> (same_position st st' c \<or> cursor_nil st' c)"
    if i: "btree_cursor_insert E c flags st = (s, st')"
    using insert_consistent [OF con ext i s] .
  have e: "cursor_consistent st' c
      \<and> (same_position st st' c \<or> cursor_nil st' c
           \<or> (btree_cursor_is_coupled st c \<and> btree_cursor_is_uncoupled st' c))"
    if e: "btree_cursor_erase E c flags st = (s, st')"
    using erase_consistent [OF con ext e s] .
  from a b f i e show ?thesis by blast
qed


lemma example_consistent: "cursor_consistent example_store 3"
proof -
  have "cursor_list example_store p (example_lists p)" for p
    by (simp add: cursor_list_def example_lists_def example_defs)
  then have "lists_ok example_store example_lists"
    by (simp add: lists_ok_def) (simp add: example_lists_def)
  moreover have "cursor_sound example_store example_lists 3"
    by (simp add: cursor_sound_def example_lists_def accessor_defs example_defs flag_defs)
  ultimately show ?thesis by (auto simp: cursor_consistent_def)
qed

lemma example_move_previous:
  "btree_cursor_move example_env_no_count 3 False False HAM_CURSOR_PREVIOUS example_store
     = Some (HAM_OUT_OF_MEMORY,
         btree_cursor_set_dupe_id 3 0
           (btree_cursor_set_coupled_index 3 4
              (btree_cursor_set_dupe_cache 3 dupe_entry_zero example_store)))"
  by (simp add: btree_cursor_move_def move_previous_def couple_or_nil_def
      blob_duplicate_get_count_def example_env_no_count_def
      accessor_defs example_defs flag_defs Let_def)

lemma example_externals:
  "externals_keep_cursor example_env_no_erase c"
  "externals_keep_cursor example_env_no_count c"
  by (auto simp: externals_keep_cursor_def example_env_no_erase_def example_env_no_count_def
      example_env_def)

lemma example_erase:
  "btree_cursor_erase example_env_no_erase 3 0 example_store
     = (HAM_OUT_OF_MEMORY,
        btree_cursor_set_uncoupled_key 3 (Some [5])
          (btree_cursor_set_flags 3 2
             (page_remove_cursor 1 3 (example_store\<lparr>alloc_count := 1\<rparr>))))"
  by (simp add: btree_cursor_erase_def btree_cursor_uncouple_def btree_cursor_is_nil_def
      allocator_calloc_def btree_copy_key_int2pub_def example_env_no_erase_def
      page_remove_cursor_def accessor_defs example_defs flag_defs Let_def)

theorem failure_keeps_consistent_witness:
  "cursor_consistent example_store 3
   \<and> externals_keep_cursor example_env_no_erase 3
   \<and> fst (btree_cursor_erase example_env_no_erase 3 0 example_store) = HAM_OUT_OF_MEMORY
   \<and> HAM_OUT_OF_MEMORY \<noteq> 0
   \<and> cursor_consistent (snd (btree_cursor_erase example_env_no_erase 3 0 example_store)) 3
   \<and> btree_cursor_is_uncoupled
       (snd (btree_cursor_erase example_env_no_erase 3 0 example_store)) 3
   \<and> externals_keep_cursor example_env_no_count 3
   \<and> (\<exists>st'. btree_cursor_move example_env_no_count 3 False False HAM_CURSOR_PREVIOUS
                example_store = Some (HAM_OUT_OF_MEMORY, st')
          \<and> cursor_consistent st' 3
          \<and> btree_cursor_is_coupled st' 3
          \<and> btree_cursor_get_coupled_index st' 3 = 4)"
proof -
  let ?st = "btree_cursor_set_dupe_id 3 0
           (btree_cursor_set_coupled_index 3 4
              (btree_cursor_set_dupe_cache 3 dupe_entry_zero example_store))"
  let ?se = "btree_cursor_set_uncoupled_key 3 (Some [5])
          (btree_cursor_set_flags 3 2
             (page_remove_cursor 1 3 (example_store\<lparr>alloc_count := 1\<rparr>)))"
  have nz: "HAM_OUT_OF_MEMORY \<noteq> 0" by simp
  have i: "btree_cursor_is_coupled ?st 3" "btree_cursor_get_coupled_index ?st 3 = 4"
    by (simp_all add: accessor_defs example_defs flag_defs)
  have u: "btree_cursor_is_uncoupled ?se 3"
    by (simp add: accessor_defs flag_defs)
  from failure_keeps_consistent [OF example_consistent example_externals(2) nz,
      of False False HAM_CURSOR_PREVIOUS ?st "[]"]
  have a: "cursor_consistent ?st 3" by (simp add: example_move_previous)
  from failure_keeps_consistent [OF example_consistent example_externals(1) nz,
      of False False 0 ?se "[]"]
  have b: "cursor_consistent ?se 3" by (simp add: example_erase)
  from a b i u example_consistent example_externals [of 3] example_move_previous example_erase
  show ?thesis by simp
qed


text \<open>
  C4 as stated fails. With cursor \<open>1\<close> coupled to slot \<open>1\<close>, \<open>btree_cursor_move\<close> with
  \<open>HAM_CURSOR_NEXT\<close> and a key to fill steps to slot \<open>2\<close>; the read of the key fails, the
  call returns the error, and the cursor stays coupled to slot \<open>2\<close>. With the same cursor,
  \<open>btree_cursor_erase\<close> uncouples it, \<open>btree_erase_cursor\<close> fails, and the call returns
  the error with the cursor uncoupled. With the uncoupled cursor \<open>5\<close>,
  \<open>btree_cursor_overwrite\<close> couples it, \<open>key_set_record\<close> fails, and the call returns the
  error with the cursor coupled. In each case the cursor is neither where it was nor NIL.
\<close>

theorem failure_counterexample:
  "btree_cursor_is_coupled example_store 1
   \<and> btree_cursor_get_coupled_index example_store 1 = 1
   \<and> fst (the (btree_cursor_move example_env_no_read 1 True False HAM_CURSOR_NEXT example_store))
       = HAM_OUT_OF_MEMORY
   \<and> HAM_OUT_OF_MEMORY \<noteq> 0
   \<and> btree_cursor_is_coupled
       (snd (the (btree_cursor_move example_env_no_read 1 True False HAM_CURSOR_NEXT
                   example_store))) 1
   \<and> btree_cursor_get_coupled_index
       (snd (the (btree_cursor_move example_env_no_read 1 True False HAM_CURSOR_NEXT
                   example_store))) 1 = 2
   \<and> \<not> same_position example_store
       (snd (the (btree_cursor_move example_env_no_read 1 True False HAM_CURSOR_NEXT
                   example_store))) 1
   \<and> \<not> cursor_nil
       (snd (the (btree_cursor_move example_env_no_read 1 True False HAM_CURSOR_NEXT
                   example_store))) 1
   \<and> fst (btree_cursor_erase example_env_no_erase 1 0 example_store) = HAM_OUT_OF_MEMORY
   \<and> btree_cursor_is_uncoupled
       (snd (btree_cursor_erase example_env_no_erase 1 0 example_store)) 1
   \<and> \<not> same_position example_store
       (snd (btree_cursor_erase example_env_no_erase 1 0 example_store)) 1
   \<and> \<not> cursor_nil (snd (btree_cursor_erase example_env_no_erase 1 0 example_store)) 1
   \<and> btree_cursor_is_uncoupled example_store 5
   \<and> fst (btree_cursor_overwrite example_env_no_set_record 5 0 example_store)
       = HAM_OUT_OF_MEMORY
   \<and> btree_cursor_is_coupled
       (snd (btree_cursor_overwrite example_env_no_set_record 5 0 example_store)) 5
   \<and> \<not> same_position example_store
       (snd (btree_cursor_overwrite example_env_no_set_record 5 0 example_store)) 5
   \<and> \<not> cursor_nil (snd (btree_cursor_overwrite example_env_no_set_record 5 0 example_store)) 5"
proof -
  have m: "btree_cursor_move example_env_no_read 1 True False HAM_CURSOR_NEXT example_store
     = Some (HAM_OUT_OF_MEMORY,
         btree_cursor_set_dupe_id 1 0
           (btree_cursor_set_coupled_index 1 2
              (btree_cursor_set_dupe_cache 1 dupe_entry_zero example_store)))"
    by (simp add: btree_cursor_move_def move_next_def move_read_def couple_or_nil_def
        example_env_no_read_def accessor_defs example_defs flag_defs Let_def)
  have e: "btree_cursor_erase example_env_no_erase 1 0 example_store
     = (HAM_OUT_OF_MEMORY,
        btree_cursor_set_uncoupled_key 1 (Some [1])
          (btree_cursor_set_flags 1 2
             (page_remove_cursor 1 1 (example_store\<lparr>alloc_count := 1\<rparr>))))"
    by (simp add: btree_cursor_erase_def btree_cursor_uncouple_def btree_cursor_is_nil_def
        allocator_calloc_def btree_copy_key_int2pub_def example_env_no_erase_def
        page_remove_cursor_def accessor_defs example_defs flag_defs Let_def)
  have o: "fst (btree_cursor_overwrite example_env_no_set_record 5 0 example_store)
       = HAM_OUT_OF_MEMORY
     \<and> bc_flags (cursors (snd (btree_cursor_overwrite example_env_no_set_record 5 0
                                example_store)) 5) = 1
     \<and> bc_uncoupled_key (cursors (snd (btree_cursor_overwrite example_env_no_set_record 5 0
                                example_store)) 5) = None"
    by (simp add: btree_cursor_overwrite_def couple_or_nil_def btree_cursor_couple_def
        btree_cursor_find_def btree_cursor_set_to_nil_def btree_find_cursor_def
        db_copy_key_def page_add_cursor_def example_env_no_set_record_def
        accessor_defs example_defs flag_defs Let_def)
  have a: "btree_cursor_is_coupled example_store 1
   \<and> btree_cursor_get_coupled_index example_store 1 = 1
   \<and> fst (the (btree_cursor_move example_env_no_read 1 True False HAM_CURSOR_NEXT example_store))
       = HAM_OUT_OF_MEMORY
   \<and> HAM_OUT_OF_MEMORY \<noteq> 0
   \<and> btree_cursor_is_coupled
       (snd (the (btree_cursor_move example_env_no_read 1 True False HAM_CURSOR_NEXT
                   example_store))) 1
   \<and> btree_cursor_get_coupled_index
       (snd (the (btree_cursor_move example_env_no_read 1 True False HAM_CURSOR_NEXT
                   example_store))) 1 = 2
   \<and> \<not> same_position example_store
       (snd (the (btree_cursor_move example_env_no_read 1 True False HAM_CURSOR_NEXT
                   example_store))) 1
   \<and> \<not> cursor_nil
       (snd (the (btree_cursor_move example_env_no_read 1 True False HAM_CURSOR_NEXT
                   example_store))) 1"
    unfolding m
    by (simp add: same_position_def cursor_nil_def accessor_defs example_defs flag_defs)
  have b: "fst (btree_cursor_erase example_env_no_erase 1 0 example_store) = HAM_OUT_OF_MEMORY
   \<and> btree_cursor_is_uncoupled
       (snd (btree_cursor_erase example_env_no_erase 1 0 example_store)) 1
   \<and> \<not> same_position example_store
       (snd (btree_cursor_erase example_env_no_erase 1 0 example_store)) 1
   \<and> \<not> cursor_nil (snd (btree_cursor_erase example_env_no_erase 1 0 example_store)) 1"
    unfolding e
    by (simp add: same_position_def cursor_nil_def page_remove_cursor_fields
        accessor_defs example_defs flag_defs)
  have c: "btree_cursor_is_uncoupled example_store 5
   \<and> fst (btree_cursor_overwrite example_env_no_set_record 5 0 example_store)
       = HAM_OUT_OF_MEMORY
   \<and> btree_cursor_is_coupled
       (snd (btree_cursor_overwrite example_env_no_set_record 5 0 example_store)) 5
   \<and> \<not> same_position example_store
       (snd (btree_cursor_overwrite example_env_no_set_record 5 0 example_store)) 5
   \<and> \<not> cursor_nil (snd (btree_cursor_overwrite example_env_no_set_record 5 0 example_store)) 5"
    using o
    by (simp add: same_position_def cursor_nil_def btree_cursor_is_coupled_def
        btree_cursor_is_uncoupled_def btree_cursor_get_flags_def
        btree_cursor_get_uncoupled_key_def example_defs flag_defs)
  from a b c show ?thesis by blast
qed

section \<open>The plugin registry: registration\<close>

lemma plugin_consts_distinct:
  "UQI_PLUGIN_PREDICATE \<noteq> UQI_PLUGIN_AGGREGATE"
  "UQI_PLUGIN_AGGREGATE \<noteq> UQI_PLUGIN_PREDICATE"
  "UPS_PLUGIN_NOT_FOUND \<noteq> 0"
  by (simp_all add: UQI_PLUGIN_PREDICATE_def UQI_PLUGIN_AGGREGATE_def UPS_PLUGIN_NOT_FOUND_def)

lemma registry_valid_add: "registry_valid m \<Longrightarrow> registry_valid (snd (PluginManager_add m p))"
  unfolding registry_valid_def PluginManager_add_def map_insert_def
  by (auto simp: plugin_consts_distinct split: option.splits if_splits)

lemma registry_valid_add_all: "registry_valid m \<Longrightarrow> registry_valid (add_all m ps)"
  by (induction ps arbitrary: m) (simp_all add: registry_valid_add)

text \<open>
  C8. \<open>PluginManager::add\<close> answers \<open>UPS_PLUGIN_NOT_FOUND\<close> and leaves the registry as it is
  when the descriptor's version is not \<open>0\<close>, or its type is neither predicate nor
  aggregate, or it is a predicate without \<open>pred\<close>, or an aggregate without \<open>agg_single\<close>
  or without \<open>agg_many\<close>; every other descriptor is answered with success. Hence in the
  registry built by any sequence of calls of \<open>add\<close> from the empty one, every aggregate
  has \<open>agg_single\<close> and \<open>agg_many\<close> and every predicate has \<open>pred\<close>.
\<close>

theorem add_validates:
  "((plugin_version p \<noteq> 0
      \<or> (plugin_type p \<noteq> UQI_PLUGIN_PREDICATE \<and> plugin_type p \<noteq> UQI_PLUGIN_AGGREGATE)
      \<or> (plugin_type p = UQI_PLUGIN_PREDICATE \<and> pred p = 0)
      \<or> (plugin_type p = UQI_PLUGIN_AGGREGATE \<and> (agg_single p = 0 \<or> agg_many p = 0)))
     \<longrightarrow> PluginManager_add m p = (UPS_PLUGIN_NOT_FOUND, m) \<and> UPS_PLUGIN_NOT_FOUND \<noteq> 0)
   \<and> (\<not> (plugin_version p \<noteq> 0
      \<or> (plugin_type p \<noteq> UQI_PLUGIN_PREDICATE \<and> plugin_type p \<noteq> UQI_PLUGIN_AGGREGATE)
      \<or> (plugin_type p = UQI_PLUGIN_PREDICATE \<and> pred p = 0)
      \<or> (plugin_type p = UQI_PLUGIN_AGGREGATE \<and> (agg_single p = 0 \<or> agg_many p = 0)))
     \<longrightarrow> fst (PluginManager_add m p) = 0)
   \<and> registry_valid (add_all Map.empty ps)"
proof (intro conjI impI)
  show "registry_valid (add_all Map.empty ps)"
    by (rule registry_valid_add_all) (simp add: registry_valid_def)
qed (auto simp: PluginManager_add_def plugin_consts_distinct)

theorem add_validates_witness:
  "PluginManager_add Map.empty plugin_no_many = (UPS_PLUGIN_NOT_FOUND, Map.empty)
   \<and> fst (PluginManager_add Map.empty plugin_sum) = 0
   \<and> agg_many (the (PluginManager_get (add_all Map.empty [plugin_no_many, plugin_sum]) ''sum''))
       = 13"
  using add_validates [of plugin_no_many Map.empty "[]"]
    add_validates [of plugin_sum Map.empty "[plugin_no_many, plugin_sum]"]
  by (simp add: plugin_no_many_def plugin_sum_def UQI_PLUGIN_AGGREGATE_def
      UQI_PLUGIN_PREDICATE_def PluginManager_add_def PluginManager_get_def map_insert_def
      UPS_PLUGIN_NOT_FOUND_def)

text \<open>
  C9. When a name is registered already, \<open>PluginManager::add\<close> of a valid descriptor of the
  same name succeeds and leaves the registry as it is: \<open>get\<close> of the name answers the
  descriptor registered first, and not the later one where the two differ.
\<close>

theorem add_keeps_first:
  assumes "PluginManager_get m n = Some p0" and "name p = n"
    and "plugin_version p = 0"
    and "(plugin_type p = UQI_PLUGIN_PREDICATE \<and> pred p \<noteq> 0)
         \<or> (plugin_type p = UQI_PLUGIN_AGGREGATE \<and> agg_single p \<noteq> 0 \<and> agg_many p \<noteq> 0)"
  shows "PluginManager_add m p = (0, m)
    \<and> PluginManager_get (snd (PluginManager_add m p)) n = Some p0
    \<and> (p \<noteq> p0 \<longrightarrow> PluginManager_get (snd (PluginManager_add m p)) n \<noteq> Some p)"
  using assms
  by (auto simp: PluginManager_add_def PluginManager_get_def map_insert_def
      plugin_consts_distinct)

theorem add_keeps_first_witness:
  "PluginManager_add (snd (PluginManager_add Map.empty plugin_sum)) plugin_sum_other
     = (0, snd (PluginManager_add Map.empty plugin_sum))
   \<and> PluginManager_get
       (snd (PluginManager_add (snd (PluginManager_add Map.empty plugin_sum)) plugin_sum_other))
       ''sum'' = Some plugin_sum
   \<and> plugin_sum_other \<noteq> plugin_sum"
proof -
  have g: "PluginManager_get (snd (PluginManager_add Map.empty plugin_sum)) ''sum''
             = Some plugin_sum"
    by (simp add: plugin_sum_def UQI_PLUGIN_AGGREGATE_def UQI_PLUGIN_PREDICATE_def
        PluginManager_add_def PluginManager_get_def map_insert_def)
  have n: "name plugin_sum_other = ''sum''" "plugin_version plugin_sum_other = 0"
    "(plugin_type plugin_sum_other = UQI_PLUGIN_PREDICATE \<and> pred plugin_sum_other \<noteq> 0)
       \<or> (plugin_type plugin_sum_other = UQI_PLUGIN_AGGREGATE
           \<and> agg_single plugin_sum_other \<noteq> 0 \<and> agg_many plugin_sum_other \<noteq> 0)"
    by (simp_all add: plugin_sum_other_def)
  have d: "plugin_sum_other \<noteq> plugin_sum"
    by (simp add: plugin_sum_other_def plugin_sum_def)
  from add_keeps_first [OF g n] d show ?thesis by blast
qed

end
